(* ===== verification/Prelude.thy ===== *)
theory Prelude
  imports Main "HOL-Library.Word" "HOL-Library.AList" "HOL-Library.Multiset"
begin

unbundle bit_operations_syntax

section \<open>Prelude: the Go values every component shares\<close>

text \<open>
  The machine types of the program (\<open>byte\<close>, \<open>uint16\<close>, \<open>uint32\<close>, \<open>uint64\<close>), byte slices
  and strings (both are \<open>byte list\<close>: a Go string is a sequence of bytes), the outcome of a
  call that may panic, errors, the big-endian encodings of \<open>encoding/binary\<close>, Go maps as
  association lists with distinct keys, and the lemmas on them that the component theories
  use through the simpset and the collections declared here.
\<close>

type_synonym byte = "8 word"
type_synonym u16 = "16 word"
type_synonym u32 = "32 word"
type_synonym u64 = "64 word"
type_synonym bytes = "byte list"

named_theorems go_simps \<open>unfolding rules of the sequencing combinators\<close>
named_theorems be_simps \<open>big-endian encoding and decoding\<close>
named_theorems map_inv \<open>what the map operations keep of a Go map\<close>

subsection \<open>Outcomes and errors\<close>

text \<open>
  A Go call returns or panics. A panic ends the process, so no state comes with it.
\<close>

datatype 'a go = Ret 'a | Panic string

fun bind_go :: "'a go \<Rightarrow> ('a \<Rightarrow> 'b go) \<Rightarrow> 'b go" where
  "bind_go (Ret a) f = f a"
| "bind_go (Panic m) f = Panic m"

lemma bind_go_Ret_iff [go_simps]:
  "bind_go m f = Ret b \<longleftrightarrow> (\<exists>a. m = Ret a \<and> f a = Ret b)"
  by (cases m) auto

lemma bind_go_assoc [go_simps]: "bind_go (bind_go m f) g = bind_go m (\<lambda>a. bind_go (f a) g)"
  by (cases m) auto

lemma bind_go_Ret_right [simp]: "bind_go m Ret = m"
  by (cases m) auto

text \<open>
  A value of the \<open>error\<close> interface that is not \<open>nil\<close>: a \<open>bittorrent.ClientError\<close>, whose
  text the client sees; \<open>context.Canceled\<close>; any other error, whose text stays in the log.
  Two client errors are the same error when their texts are, as Go compares them.
\<close>

datatype goerror = ClientError string | Canceled | OtherError string

type_synonym err = "goerror option"

subsection \<open>Text as bytes\<close>

definition str :: "string \<Rightarrow> bytes" where
  "str s = map of_char s"

lemma str_Nil [simp]: "str [] = []"
  by (simp add: str_def)

lemma str_Cons [simp]: "str (c # s) = of_char c # str s"
  by (simp add: str_def)

lemma str_append [simp]: "str (s @ t) = str s @ str t"
  by (simp add: str_def)

lemma length_str [simp]: "length (str s) = length s"
  by (simp add: str_def)

subsection \<open>Big-endian integers\<close>

text \<open>
  \<open>binary.BigEndian\<close>: \<open>be_bytes n w\<close> are the \<open>n\<close> low bytes of \<open>w\<close>, most significant first
  (\<open>PutUint16/32/64\<close> with \<open>n = 2, 4, 8\<close>); \<open>be_word bs\<close> reads them back (\<open>Uint16/32/64\<close>).
\<close>

fun be_bytes :: "nat \<Rightarrow> 'a::len word \<Rightarrow> bytes" where
  "be_bytes 0 w = []"
| "be_bytes (Suc n) w = be_bytes n (drop_bit 8 w) @ [ucast w]"

fun be_acc :: "'a::len word \<Rightarrow> bytes \<Rightarrow> 'a word" where
  "be_acc a [] = a"
| "be_acc a (b # bs) = be_acc (push_bit 8 a OR ucast b) bs"

definition be_word :: "bytes \<Rightarrow> 'a::len word" where
  "be_word bs = be_acc 0 bs"

lemma length_be_bytes [simp, be_simps]: "length (be_bytes n w) = n"
  by (induction n arbitrary: w) auto

lemma be_acc_append [be_simps]: "be_acc a (xs @ ys) = be_acc (be_acc a xs) ys"
  by (induction xs arbitrary: a) auto

lemma be_word_Nil [simp]: "be_word [] = 0"
  by (simp add: be_word_def)

lemma be_word_snoc [be_simps]: "be_word (bs @ [b]) = push_bit 8 (be_word bs) OR ucast b"
  by (simp add: be_word_def be_acc_append)

lemma be_word_be_bytes [be_simps]:
  fixes w :: "'a::len word"
  shows "be_word (be_bytes n w) = (take_bit (8 * n) w :: 'a word)"
proof (induction n arbitrary: w)
  case 0
  then show ?case by simp
next
  case (Suc n)
  show ?case
    by (simp add: be_word_snoc Suc.IH)
      (rule bit_word_eqI, auto simp: bit_simps)
qed

lemma be_word_be_bytes_full [be_simps]:
  fixes w :: "'a::len word"
  assumes "8 * n = LENGTH('a)"
  shows "be_word (be_bytes n w) = w"
  by (simp add: be_word_be_bytes assms take_bit_word_eq_self)

lemma bit_be_wordD: "bit (be_word bs :: 'a::len word) i \<Longrightarrow> i < 8 * length bs"
proof (induction bs arbitrary: i rule: rev_induct)
  case Nil
  then show ?case by simp
next
  case (snoc b bs)
  from snoc.prems consider "8 \<le> i" "bit (be_word bs :: 'a word) (i - 8)" | "bit b i"
    by (auto simp: be_word_snoc bit_simps)
  then show ?case
  proof cases
    case 1
    then show ?thesis using snoc.IH [of "i - 8"] by simp
  next
    case 2
    then have "i < 8" using bit_imp_le_length [of b i] by simp
    then show ?thesis by simp
  qed
qed

lemma drop_bit_be_word_snoc [be_simps]:
  assumes "8 * length (bs @ [b]) \<le> LENGTH('a::len)"
  shows "drop_bit 8 (be_word (bs @ [b]) :: 'a word) = be_word bs"
proof (rule bit_word_eqI)
  fix i
  assume "i < LENGTH('a)"
  show "bit (drop_bit 8 (be_word (bs @ [b]) :: 'a word)) i \<longleftrightarrow> bit (be_word bs :: 'a word) i"
    using assms bit_be_wordD [of bs i, where 'a = 'a] bit_imp_le_length [of b "8 + i"]
    by (auto simp: be_word_snoc bit_simps)
qed

lemma ucast_be_word_snoc [be_simps]:
  assumes "8 \<le> LENGTH('a::len)"
  shows "ucast (be_word (bs @ [b]) :: 'a word) = b"
  using assms by (intro bit_word_eqI) (auto simp: be_word_snoc bit_simps)

lemma be_bytes_be_word [be_simps]:
  assumes "8 * length bs \<le> LENGTH('a::len)"
  shows "be_bytes (length bs) (be_word bs :: 'a word) = bs"
  using assms
proof (induction bs rule: rev_induct)
  case Nil
  then show ?case by simp
next
  case (snoc b bs)
  then have "be_bytes (length bs) (be_word bs :: 'a word) = bs" by simp
  with snoc.prems show ?case
    by (simp add: drop_bit_be_word_snoc ucast_be_word_snoc)
qed

subsection \<open>Go maps\<close>

text \<open>
  A Go map is an association list with distinct keys. Reading a key, assigning to it and
  \<open>delete\<close> are the association-list operations; \<open>len\<close> is the length. The order in which
  \<open>range\<close> visits the entries is unspecified in Go: an operation that ranges over a map
  takes the order as an argument, a function that permutes the entries.
\<close>

type_synonym ('k, 'v) gomap = "('k \<times> 'v) list"

definition is_gomap :: "('k, 'v) gomap \<Rightarrow> bool" where
  "is_gomap m \<longleftrightarrow> distinct (map fst m)"

definition m_get :: "('k, 'v) gomap \<Rightarrow> 'k \<Rightarrow> 'v option" where
  "m_get m k = map_of m k"

definition m_set :: "'k \<Rightarrow> 'v \<Rightarrow> ('k, 'v) gomap \<Rightarrow> ('k, 'v) gomap" where
  "m_set k v m = AList.update k v m"

definition m_del :: "'k \<Rightarrow> ('k, 'v) gomap \<Rightarrow> ('k, 'v) gomap" where
  "m_del k m = AList.delete k m"

definition m_keys :: "('k, 'v) gomap \<Rightarrow> 'k set" where
  "m_keys m = fst ` set m"

definition is_order :: "('a list \<Rightarrow> 'a list) \<Rightarrow> bool" where
  "is_order f \<longleftrightarrow> (\<forall>xs. mset (f xs) = mset xs)"

lemma is_order_id [simp]: "is_order (\<lambda>xs. xs)"
  by (simp add: is_order_def)

lemma is_order_rev [simp]: "is_order rev"
  by (simp add: is_order_def)

lemma is_order_mset: "is_order f \<Longrightarrow> mset (f xs) = mset xs"
  by (simp add: is_order_def)

lemma is_order_set: "is_order f \<Longrightarrow> set (f xs) = set xs"
  by (metis is_order_def set_mset_mset)

lemma is_order_length: "is_order f \<Longrightarrow> length (f xs) = length xs"
  by (metis is_order_def size_mset)

lemma is_order_distinct: "is_order f \<Longrightarrow> distinct (f xs) = distinct xs"
  by (metis is_order_def mset_eq_imp_distinct_iff)

lemma m_get_empty [simp]: "m_get [] k = None"
  by (simp add: m_get_def)

lemma m_keys_empty [simp]: "m_keys [] = {}"
  by (simp add: m_keys_def)

lemma m_get_set [simp]: "m_get (m_set k v m) k' = (if k = k' then Some v else m_get m k')"
  by (simp add: m_get_def m_set_def update_conv')

lemma m_get_del [simp]: "m_get (m_del k m) k' = (if k = k' then None else m_get m k')"
  by (simp add: m_get_def m_del_def delete_conv')

lemma m_get_None: "m_get m k = None \<longleftrightarrow> k \<notin> m_keys m"
  by (simp add: m_get_def m_keys_def map_of_eq_None_iff)

lemma m_get_Some_key: "m_get m k = Some v \<Longrightarrow> k \<in> m_keys m"
  by (metis m_get_None option.distinct(1))

lemma m_get_Some_in: "m_get m k = Some v \<Longrightarrow> (k, v) \<in> set m"
  by (simp add: m_get_def map_of_SomeD)

lemma m_get_in: "is_gomap m \<Longrightarrow> (k, v) \<in> set m \<Longrightarrow> m_get m k = Some v"
  by (simp add: is_gomap_def m_get_def)

lemma m_keys_set [simp]: "m_keys (m_set k v m) = insert k (m_keys m)"
  by (simp add: m_keys_def m_set_def dom_update)

lemma m_keys_del [simp]: "m_keys (m_del k m) = m_keys m - {k}"
  unfolding m_keys_def m_del_def by (metis delete_keys list.set_map set_removeAll)

lemma is_gomap_Nil [simp, map_inv]: "is_gomap []"
  by (simp add: is_gomap_def)

lemma is_gomap_set [simp, map_inv]: "is_gomap m \<Longrightarrow> is_gomap (m_set k v m)"
  by (simp add: is_gomap_def m_set_def distinct_update)

lemma is_gomap_del [simp, map_inv]: "is_gomap m \<Longrightarrow> is_gomap (m_del k m)"
  by (simp add: is_gomap_def m_del_def distinct_delete)

lemma card_m_keys: "is_gomap m \<Longrightarrow> card (m_keys m) = length m"
  unfolding is_gomap_def m_keys_def
  by (metis distinct_card length_map list.set_map)

lemma finite_m_keys [simp]: "finite (m_keys m)"
  by (simp add: m_keys_def)

lemma length_m_set [map_inv]:
  assumes "is_gomap m"
  shows "length (m_set k v m) = (if k \<in> m_keys m then length m else Suc (length m))"
  using card_m_keys [OF is_gomap_set [OF assms, of k v]] card_m_keys [OF assms]
  by (auto simp: insert_absorb)

lemma length_m_del [map_inv]:
  assumes "is_gomap m"
  shows "length (m_del k m) = (if k \<in> m_keys m then length m - 1 else length m)"
  using card_m_keys [OF is_gomap_del [OF assms, of k]] card_m_keys [OF assms]
  by (auto split: if_splits)

subsection \<open>Sums over the values of a map\<close>

definition m_sum :: "('v \<Rightarrow> 'a::ab_group_add) \<Rightarrow> ('k, 'v) gomap \<Rightarrow> 'a" where
  "m_sum g m = sum_list (map (\<lambda>(k, v). g v) m)"

lemma m_sum_Nil [simp]: "m_sum g [] = 0"
  by (simp add: m_sum_def)

lemma m_sum_set:
  "m_sum g (m_set k v m) = m_sum g m - (case m_get m k of None \<Rightarrow> 0 | Some v0 \<Rightarrow> g v0) + g v"
  by (induction m) (auto simp: m_sum_def m_set_def m_get_def algebra_simps split: option.splits)

lemma m_keys_iff: "k \<in> m_keys m \<longleftrightarrow> (\<exists>v. m_get m k = Some v)"
  using m_get_None [of m k] by auto

lemma m_del_notin: "k \<notin> m_keys m \<Longrightarrow> m_del k m = m"
  by (induction m) (auto simp: m_del_def m_keys_def)

lemma m_sum_del:
  "is_gomap m \<Longrightarrow>
     m_sum g (m_del k m) = m_sum g m - (case m_get m k of None \<Rightarrow> 0 | Some v0 \<Rightarrow> g v0)"
proof (induction m)
  case Nil
  then show ?case by (simp add: m_del_def)
next
  case (Cons a m)
  obtain k' v' where a: "a = (k', v')" by (cases a)
  have d: "is_gomap m" "k' \<notin> m_keys m" using Cons.prems a by (auto simp: is_gomap_def m_keys_def)
  show ?case
  proof (cases "k' = k")
    case True
    then have "m_del k (a # m) = m_del k m" by (simp add: m_del_def a)
    then show ?thesis using True d a m_del_notin [of k m] by (simp add: m_get_def m_sum_def)
  next
    case False
    then have "m_del k (a # m) = a # m_del k m" by (simp add: m_del_def a)
    then show ?thesis using False d a Cons.IH by (simp add: m_get_def m_sum_def algebra_simps)
  qed
qed

lemma m_set_set [simp]: "m_set k v (m_set k v' m) = m_set k v m"
  by (induction m) (auto simp: m_set_def)

lemma set_m_set: "is_gomap m \<Longrightarrow> (k', v') \<in> set (m_set k v m) \<Longrightarrow> k' = k \<and> v' = v \<or> k' \<noteq> k \<and> (k', v') \<in> set m"
  by (metis is_gomap_set m_get_Some_in m_get_in m_get_set option.inject)

lemma set_m_del: "is_gomap m \<Longrightarrow> (k', v') \<in> set (m_del k m) \<Longrightarrow> k' \<noteq> k \<and> (k', v') \<in> set m"
  by (metis is_gomap_del m_get_Some_in m_get_in m_get_del option.distinct(1))

lemma m_del_None: "m_get m k = None \<Longrightarrow> m_del k m = m"
  by (simp add: m_del_notin m_get_None)


end
