(* ===== verification/Netip.thy ===== *)
theory Netip
  imports Prelude
begin

unbundle bit_operations_syntax

section \<open>IP addresses: the part of \<open>net/netip\<close> the tracker uses\<close>

text \<open>
  \<open>netip.Addr\<close> is the zero (invalid) address, a 32-bit IPv4 address or a 128-bit IPv6
  address with a zone (empty when there is none). The predicates follow the documented
  behaviour of Go 1.22 (release 1.22.4 and later, where the classification of an
  IPv4-mapped IPv6 address is that of the IPv4 address it holds).
\<close>

datatype addr = AddrZero | AddrV4 u32 | AddrV6 "128 word" bytes

definition v4_byte :: "u32 \<Rightarrow> nat \<Rightarrow> byte" where
  "v4_byte a i = ucast (drop_bit (8 * (3 - i)) a)"

definition v6_byte :: "128 word \<Rightarrow> nat \<Rightarrow> byte" where
  "v6_byte a i = ucast (drop_bit (8 * (15 - i)) a)"

fun addr_IsValid :: "addr \<Rightarrow> bool" where
  "addr_IsValid AddrZero = False"
| "addr_IsValid _ = True"

fun Is4 :: "addr \<Rightarrow> bool" where
  "Is4 (AddrV4 _) = True"
| "Is4 _ = False"

fun Is6 :: "addr \<Rightarrow> bool" where
  "Is6 (AddrV6 _ _) = True"
| "Is6 _ = False"

fun Is4In6 :: "addr \<Rightarrow> bool" where
  "Is4In6 (AddrV6 a _) = (drop_bit 32 a = 0xFFFF)"
| "Is4In6 _ = False"

fun Unmap :: "addr \<Rightarrow> addr" where
  "Unmap (AddrV6 a z) = (if drop_bit 32 a = 0xFFFF then AddrV4 (ucast a) else AddrV6 a z)"
| "Unmap a = a"

definition IsUnspecified :: "addr \<Rightarrow> bool" where
  "IsUnspecified a \<longleftrightarrow> a = AddrV4 0 \<or> a = AddrV6 0 []"

fun is_loopback :: "addr \<Rightarrow> bool" where
  "is_loopback AddrZero = False"
| "is_loopback (AddrV4 a) = (v4_byte a 0 = 127)"
| "is_loopback (AddrV6 a _) = (a = 1)"

definition IsLoopback :: "addr \<Rightarrow> bool" where
  "IsLoopback a = is_loopback (Unmap a)"

fun is_multicast :: "addr \<Rightarrow> bool" where
  "is_multicast AddrZero = False"
| "is_multicast (AddrV4 a) = (v4_byte a 0 AND 0xF0 = 0xE0)"
| "is_multicast (AddrV6 a _) = (v6_byte a 0 = 0xFF)"

definition IsMulticast :: "addr \<Rightarrow> bool" where
  "IsMulticast a = is_multicast (Unmap a)"

fun is_link_local_unicast :: "addr \<Rightarrow> bool" where
  "is_link_local_unicast AddrZero = False"
| "is_link_local_unicast (AddrV4 a) = (v4_byte a 0 = 169 \<and> v4_byte a 1 = 254)"
| "is_link_local_unicast (AddrV6 a _) = ((ucast (drop_bit 112 a) :: u16) AND 0xFFC0 = 0xFE80)"

definition IsLinkLocalUnicast :: "addr \<Rightarrow> bool" where
  "IsLinkLocalUnicast a = is_link_local_unicast (Unmap a)"

fun is_private :: "addr \<Rightarrow> bool" where
  "is_private AddrZero = False"
| "is_private (AddrV4 a) =
     (v4_byte a 0 = 10 \<or> (v4_byte a 0 = 172 \<and> v4_byte a 1 AND 0xF0 = 16) \<or>
      (v4_byte a 0 = 192 \<and> v4_byte a 1 = 168))"
| "is_private (AddrV6 a _) = (v6_byte a 0 AND 0xFE = 0xFC)"

definition IsPrivate :: "addr \<Rightarrow> bool" where
  "IsPrivate a = is_private (Unmap a)"

definition broadcast4 :: addr where
  "broadcast4 = AddrV4 0xFFFFFFFF"

definition IsGlobalUnicast :: "addr \<Rightarrow> bool" where
  "IsGlobalUnicast a \<longleftrightarrow> a \<noteq> AddrZero \<and> Unmap a \<noteq> AddrV4 0 \<and> Unmap a \<noteq> broadcast4 \<and>
     Unmap a \<noteq> AddrV6 0 [] \<and> \<not> IsLoopback a \<and> \<not> IsMulticast a \<and> \<not> IsLinkLocalUnicast a"

fun AsSlice :: "addr \<Rightarrow> bytes" where
  "AsSlice AddrZero = []"
| "AsSlice (AddrV4 a) = be_bytes 4 a"
| "AsSlice (AddrV6 a _) = be_bytes 16 a"

fun BitLen :: "addr \<Rightarrow> nat" where
  "BitLen AddrZero = 0"
| "BitLen (AddrV4 _) = 32"
| "BitLen (AddrV6 _ _) = 128"

definition AddrFromSlice :: "bytes \<Rightarrow> addr option" where
  "AddrFromSlice b =
     (if length b = 4 then Some (AddrV4 (be_word b))
      else if length b = 16 then Some (AddrV6 (be_word b) []) else None)"

record addrport =
  ap_addr :: addr
  ap_port :: u16

fun zone :: "addr \<Rightarrow> bytes" where
  "zone (AddrV6 _ z) = z"
| "zone _ = []"

lemma Unmap_not_4In6 [simp]: "\<not> Is4In6 (Unmap a)"
  by (cases a) auto

lemma Unmap_id [simp]: "\<not> Is4In6 a \<Longrightarrow> Unmap a = a"
  by (cases a) auto

lemma Unmap_Unmap [simp]: "Unmap (Unmap a) = Unmap a"
  by simp

lemma addr_IsValid_Unmap [simp]: "addr_IsValid (Unmap a) = addr_IsValid a"
  by (cases a) auto

lemma addr_IsValid_iff: "addr_IsValid a \<longleftrightarrow> Is4 a \<or> Is6 a"
  by (cases a) auto

lemma Is4_not_Is6: "Is4 a \<Longrightarrow> \<not> Is6 a"
  by (cases a) auto

lemma length_AsSlice [simp]: "length (AsSlice a) = BitLen a div 8"
  by (cases a) auto

text \<open>A valid address without a zone is recovered from its bytes, and conversely.\<close>

lemma AddrFromSlice_AsSlice:
  "addr_IsValid a \<Longrightarrow> zone a = [] \<Longrightarrow> AddrFromSlice (AsSlice a) = Some a"
  by (cases a) (auto simp: AddrFromSlice_def be_word_be_bytes_full)

lemma AsSlice_AddrFromSlice: "AddrFromSlice b = Some a \<Longrightarrow> AsSlice a = b"
  using be_bytes_be_word [of b, where 'a = 32] be_bytes_be_word [of b, where 'a = 128]
  by (auto simp: AddrFromSlice_def split: if_splits)

lemma AddrFromSlice_Some_iff: "(\<exists>a. AddrFromSlice b = Some a) \<longleftrightarrow> length b = 4 \<or> length b = 16"
  by (auto simp: AddrFromSlice_def)

lemma AddrFromSlice_valid: "AddrFromSlice b = Some a \<Longrightarrow> addr_IsValid a \<and> zone a = []"
  by (auto simp: AddrFromSlice_def split: if_splits)

end
