(* ===== verification/GoText.thy ===== *)
theory GoText
  imports Prelude
begin

unbundle bit_operations_syntax

section \<open>Text: the parts of \<open>strings\<close>, \<open>bytes\<close>, \<open>encoding/hex\<close> and \<open>net/url\<close> the tracker uses\<close>

subsection \<open>Case folding\<close>

text \<open>
  \<open>strings.ToLower\<close> and \<open>strings.ToUpper\<close> map an ASCII string byte by byte. For a string with a
  byte above 127 they go through the Unicode tables; that mapping is the argument \<open>uni\<close>.
\<close>

definition is_ascii :: "bytes \<Rightarrow> bool" where
  "is_ascii s = list_all (\<lambda>b. b < 128) s"

definition lower_byte :: "byte \<Rightarrow> byte" where
  "lower_byte b = (if 65 \<le> b \<and> b \<le> 90 then b + 32 else b)"

definition ToLower :: "(bytes \<Rightarrow> bytes) \<Rightarrow> bytes \<Rightarrow> bytes" where
  "ToLower uni s = (if is_ascii s then map lower_byte s else uni s)"

lemma lower_byte_idem [simp]: "lower_byte (lower_byte b) = lower_byte b"
proof -
  have "\<not> (65 \<le> b + 32 \<and> b + 32 \<le> 90)" if "65 \<le> b" "b \<le> 90"
    using that by (auto simp: word_le_nat_alt unat_word_ariths)
  then show ?thesis by (auto simp: lower_byte_def)
qed

lemma is_ascii_lower: "is_ascii s \<Longrightarrow> is_ascii (map lower_byte s)"
proof (induction s)
  case Nil
  then show ?case by simp
next
  case (Cons b s)
  have "lower_byte b < 128" if "b < 128"
    using that by (auto simp: lower_byte_def word_less_nat_alt word_le_nat_alt unat_word_ariths)
  with Cons show ?case by (simp add: is_ascii_def)
qed

lemma ToLower_ascii_idem: "is_ascii s \<Longrightarrow> ToLower uni (ToLower uni s) = ToLower uni s"
  by (simp add: ToLower_def is_ascii_lower)

definition upper_byte :: "byte \<Rightarrow> byte" where
  "upper_byte b = (if 97 \<le> b \<and> b \<le> 122 then b - 32 else b)"

definition ToUpper :: "(bytes \<Rightarrow> bytes) \<Rightarrow> bytes \<Rightarrow> bytes" where
  "ToUpper uni s = (if is_ascii s then map upper_byte s else uni s)"

subsection \<open>Messages\<close>

fun err_text :: "goerror \<Rightarrow> string" where
  "err_text (ClientError m) = m"
| "err_text Canceled = ''context canceled''"
| "err_text (OtherError m) = m"

fun strings_Join :: "string list \<Rightarrow> string \<Rightarrow> string" where
  "strings_Join [] sep = []"
| "strings_Join [a] sep = a"
| "strings_Join (a # b # as) sep = a @ sep @ strings_Join (b # as) sep"

subsection \<open>White space\<close>

text \<open>
  \<open>strings.TrimSpace\<close> and \<open>bytes.TrimSpace\<close> work byte by byte until they meet a byte above 127
  at an end; then they go through the Unicode tables, the argument \<open>trim\<close>.
\<close>

definition is_space :: "byte \<Rightarrow> bool" where
  "is_space b \<longleftrightarrow> b \<in> {9, 10, 11, 12, 13, 32}"

definition TrimSpace :: "(bytes \<Rightarrow> bytes) \<Rightarrow> bytes \<Rightarrow> bytes" where
  "TrimSpace trim s =
     (let s1 = dropWhile is_space s in
      if s1 \<noteq> [] \<and> hd s1 \<ge> 128 then trim s1
      else let s2 = rev (dropWhile is_space (rev s1))
           in if s2 \<noteq> [] \<and> last s2 \<ge> 128 then trim s2 else s2)"

subsection \<open>Hexadecimal\<close>

definition hex_digit :: "byte \<Rightarrow> byte" where
  "hex_digit n = (if n < 10 then 48 + n else 87 + n)"

fun hex_EncodeToString :: "bytes \<Rightarrow> bytes" where
  "hex_EncodeToString [] = []"
| "hex_EncodeToString (b # bs) =
     hex_digit (drop_bit 4 b) # hex_digit (b AND 15) # hex_EncodeToString bs"

definition fromHexChar :: "byte \<Rightarrow> byte option" where
  "fromHexChar c =
     (if 48 \<le> c \<and> c \<le> 57 then Some (c - 48)
      else if 97 \<le> c \<and> c \<le> 102 then Some (c - 97 + 10)
      else if 65 \<le> c \<and> c \<le> 70 then Some (c - 65 + 10)
      else None)"

text \<open>
  \<open>hex.Decode\<close>: pairs of digits; the first byte that is no digit is an
  \<open>InvalidByteError\<close>, an odd number of digits is \<open>ErrLength\<close>.
\<close>

fun hex_Decode :: "bytes \<Rightarrow> goerror + bytes" where
  "hex_Decode [] = Inr []"
| "hex_Decode [c] =
     (case fromHexChar c of None \<Rightarrow> Inl (OtherError ''encoding/hex: invalid byte'')
      | Some _ \<Rightarrow> Inl (OtherError ''encoding/hex: odd length hex string''))"
| "hex_Decode (p # q # r) =
     (case fromHexChar p of None \<Rightarrow> Inl (OtherError ''encoding/hex: invalid byte'')
      | Some a \<Rightarrow>
     (case fromHexChar q of None \<Rightarrow> Inl (OtherError ''encoding/hex: invalid byte'')
      | Some b \<Rightarrow>
     (case hex_Decode r of Inl e \<Rightarrow> Inl e | Inr bs \<Rightarrow> Inr ((push_bit 4 a OR b) # bs))))"

lemma length_hex_EncodeToString [simp]: "length (hex_EncodeToString bs) = 2 * length bs"
  by (induction bs) auto

lemma fromHexChar_hex_digit: "n < 16 \<Longrightarrow> fromHexChar (hex_digit n) = Some n"
proof -
  assume "n < 16"
  then have "unat n < 16" by (simp add: word_less_nat_alt)
  then consider "unat n < 10" | "10 \<le> unat n" "unat n < 16" by linarith
  then show ?thesis
  proof cases
    case 1
    then have "n < 10" by (simp add: word_less_nat_alt)
    with 1 show ?thesis
      by (auto simp: fromHexChar_def hex_digit_def word_le_nat_alt unat_word_ariths)
  next
    case 2
    then have "\<not> n < 10" by (simp add: word_less_nat_alt)
    with 2 show ?thesis
      by (auto simp: fromHexChar_def hex_digit_def word_le_nat_alt unat_word_ariths)
  qed
qed

lemma and_15_take_bit: "(b :: byte) AND 15 = take_bit 4 b"
  by (simp add: take_bit_eq_mask mask_eq_exp_minus_1)

lemma nibble_bounds:
  fixes b :: byte
  shows "drop_bit 4 b < 16" "b AND 15 < 16"
proof -
  have "unat b < 256" using unsigned_less [of b] by simp
  then show "drop_bit 4 b < 16"
    by (simp add: word_less_nat_alt drop_bit_eq_div unat_div_distrib)
  show "b AND 15 < 16"
    by (simp add: and_15_take_bit word_less_nat_alt take_bit_eq_mod unat_mod_distrib)
qed

lemma nibbles_join:
  fixes b :: byte
  shows "push_bit 4 (drop_bit 4 b) OR (b AND 15) = b"
  by (rule bit_word_eqI) (auto simp: and_15_take_bit bit_simps)

lemma hex_Decode_Encode [simp]: "hex_Decode (hex_EncodeToString bs) = Inr bs"
  by (induction bs) (simp_all add: fromHexChar_hex_digit nibble_bounds nibbles_join)

lemma length_hex_Decode: "hex_Decode s = Inr bs \<Longrightarrow> length s = 2 * length bs"
  by (induction s arbitrary: bs rule: hex_Decode.induct) (auto split: option.splits sum.splits)

subsection \<open>Query strings\<close>

text \<open>
  \<open>url.QueryUnescape\<close>: a percent sign must be followed by two hexadecimal digits, a plus
  sign is a space. \<open>url.QueryEscape\<close> is its counterpart on the side of a client.
\<close>

fun QueryUnescape :: "bytes \<Rightarrow> goerror + bytes" where
  "QueryUnescape [] = Inr []"
| "QueryUnescape (c # s) =
     (if c = 37 then
        (case s of
           p # q # r \<Rightarrow>
             (case fromHexChar p of None \<Rightarrow> Inl (OtherError ''invalid URL escape'')
              | Some a \<Rightarrow>
             (case fromHexChar q of None \<Rightarrow> Inl (OtherError ''invalid URL escape'')
              | Some b \<Rightarrow>
             (case QueryUnescape r of Inl e \<Rightarrow> Inl e | Inr t \<Rightarrow> Inr ((push_bit 4 a OR b) # t))))
         | _ \<Rightarrow> Inl (OtherError ''invalid URL escape''))
      else
        (case QueryUnescape s of Inl e \<Rightarrow> Inl e
         | Inr t \<Rightarrow> Inr ((if c = 43 then 32 else c) # t)))"

definition unreserved :: "byte \<Rightarrow> bool" where
  "unreserved b \<longleftrightarrow> (48 \<le> b \<and> b \<le> 57) \<or> (65 \<le> b \<and> b \<le> 90) \<or> (97 \<le> b \<and> b \<le> 122) \<or>
     b = 45 \<or> b = 95 \<or> b = 46 \<or> b = 126"

definition upper_hex :: "byte \<Rightarrow> byte" where
  "upper_hex n = (if n < 10 then 48 + n else 55 + n)"

fun QueryEscape :: "bytes \<Rightarrow> bytes" where
  "QueryEscape [] = []"
| "QueryEscape (b # s) =
     (if b = 32 then 43 # QueryEscape s
      else if unreserved b then b # QueryEscape s
      else 37 # upper_hex (drop_bit 4 b) # upper_hex (b AND 15) # QueryEscape s)"

lemma fromHexChar_upper_hex: "n < 16 \<Longrightarrow> fromHexChar (upper_hex n) = Some n"
proof -
  assume "n < 16"
  then have "unat n < 16" by (simp add: word_less_nat_alt)
  then consider "unat n < 10" | "10 \<le> unat n" "unat n < 16" by linarith
  then show ?thesis
  proof cases
    case 1
    then have "n < 10" by (simp add: word_less_nat_alt)
    with 1 show ?thesis
      by (auto simp: fromHexChar_def upper_hex_def word_le_nat_alt unat_word_ariths)
  next
    case 2
    then have "\<not> n < 10" by (simp add: word_less_nat_alt)
    with 2 show ?thesis
      by (auto simp: fromHexChar_def upper_hex_def word_le_nat_alt unat_word_ariths)
  qed
qed

lemma unreserved_plain: "unreserved b \<Longrightarrow> b \<noteq> 37 \<and> b \<noteq> 43"
  by (auto simp: unreserved_def)

lemma QueryUnescape_Escape [simp]: "QueryUnescape (QueryEscape s) = Inr s"
  by (induction s) (auto simp: unreserved_plain fromHexChar_upper_hex nibble_bounds nibbles_join)

definition delimiters :: "byte set" where
  "delimiters = {38, 59, 61, 63}"

lemma upper_hex_unreserved: "n < 16 \<Longrightarrow> unreserved (upper_hex n)"
  by (auto simp: unreserved_def upper_hex_def word_less_nat_alt word_le_nat_alt unat_word_ariths)

lemma unreserved_delimiter: "unreserved b \<Longrightarrow> b \<notin> delimiters"
  by (auto simp: unreserved_def delimiters_def)

lemma QueryEscape_delimiters: "b \<in> set (QueryEscape s) \<Longrightarrow> b \<notin> delimiters"
proof (induction s)
  case (Cons c s)
  then show ?case
    using upper_hex_unreserved nibble_bounds unreserved_delimiter
    by (auto simp: delimiters_def split: if_splits)
qed simp

lemma QueryEscape_Nil [simp]: "QueryEscape s = [] \<longleftrightarrow> s = []"
  by (cases s) auto

end
