(* ===== verification/Bittorrent.thy ===== *)
theory Bittorrent
  imports Netip GoText
begin

section \<open>Package \<open>bittorrent\<close>: events, identifiers, requests, sanitizing\<close>

text \<open>
  The types every other component exchanges (\<open>bittorrent/event.go\<close>, \<open>peer.go\<close>,
  \<open>params.go\<close>, \<open>request.go\<close>) and the sanitizing of a parsed request
  (\<open>bittorrent/sanitize.go\<close>).
\<close>

subsection \<open>Events\<close>

text \<open>\<open>Event\<close> is a \<open>uint8\<close> with four named values; \<open>EvUnknown\<close> is any other value.\<close>

datatype Event = EvNone | EvStarted | EvStopped | EvCompleted | EvUnknown byte

definition ErrUnknownEvent :: goerror where
  "ErrUnknownEvent = ClientError ''unknown event''"

definition NewEvent :: "(bytes \<Rightarrow> bytes) \<Rightarrow> bytes \<Rightarrow> Event \<times> err" where
  "NewEvent uni eventStr =
     (let s = ToLower uni eventStr in
      if s = str ''none'' \<or> s = [] then (EvNone, None)
      else if s = str ''started'' then (EvStarted, None)
      else if s = str ''stopped'' then (EvStopped, None)
      else if s = str ''completed'' then (EvCompleted, None)
      else (EvNone, Some ErrUnknownEvent))"

fun Event_String :: "Event \<Rightarrow> bytes" where
  "Event_String EvNone = str ''none''"
| "Event_String EvStarted = str ''started''"
| "Event_String EvStopped = str ''stopped''"
| "Event_String EvCompleted = str ''completed''"
| "Event_String (EvUnknown _) = str ''<unknown>''"

subsection \<open>Peer identifiers and info hashes\<close>

type_synonym peerid = bytes
type_synonym infohash = bytes

definition PeerIDLen :: nat where "PeerIDLen = 20"
definition InfoHashV1Len :: nat where "InfoHashV1Len = 20"
definition InfoHashV2Len :: nat where "InfoHashV2Len = 32"

lemmas len_defs = PeerIDLen_def InfoHashV1Len_def InfoHashV2Len_def

definition ErrInvalidPeerIDSize :: goerror where
  "ErrInvalidPeerIDSize = OtherError ''peer ID must be 20 bytes''"

definition NewPeerID :: "bytes \<Rightarrow> goerror + peerid" where
  "NewPeerID b = (if length b \<noteq> PeerIDLen then Inl ErrInvalidPeerIDSize else Inr b)"

definition ErrInvalidHashSize :: goerror where
  "ErrInvalidHashSize = OtherError ''info hash must be either 20 (for torrent V1) or 32 (V2) bytes or same sizes x2 (if HEX encoded)''"

definition NewInfoHash :: "bytes \<Rightarrow> goerror + infohash" where
  "NewInfoHash data =
     (let l = length data in
      if l = InfoHashV1Len \<or> l = InfoHashV2Len then Inr data
      else if l = InfoHashV1Len * 2 \<or> l = InfoHashV2Len * 2 then hex_Decode data
      else Inl ErrInvalidHashSize)"

definition TruncateV1 :: "infohash \<Rightarrow> infohash" where
  "TruncateV1 i = (if length i = InfoHashV2Len then take InfoHashV1Len i else i)"

definition InfoHash_String :: "infohash \<Rightarrow> bytes" where
  "InfoHash_String i = hex_EncodeToString i"

text \<open>The info hashes that \<open>NewInfoHash\<close> makes: 20 bytes (V1) or 32 bytes (V2).\<close>

definition is_infohash :: "infohash \<Rightarrow> bool" where
  "is_infohash i \<longleftrightarrow> length i = InfoHashV1Len \<or> length i = InfoHashV2Len"

lemma NewInfoHash_is_infohash: "NewInfoHash b = Inr i \<Longrightarrow> is_infohash i"
  using length_hex_Decode [of b i]
  by (auto simp: NewInfoHash_def is_infohash_def Let_def len_defs split: if_splits)

lemma length_TruncateV1 [simp]: "is_infohash i \<Longrightarrow> length (TruncateV1 i) = InfoHashV1Len"
  by (auto simp: TruncateV1_def is_infohash_def len_defs)

lemma is_infohash_TruncateV1 [simp]: "is_infohash i \<Longrightarrow> is_infohash (TruncateV1 i)"
  using length_TruncateV1 [of i] by (simp add: is_infohash_def)

lemma TruncateV1_V1 [simp]: "length i = InfoHashV1Len \<Longrightarrow> TruncateV1 i = i"
  by (simp add: TruncateV1_def len_defs)

lemma TruncateV1_idem [simp]: "is_infohash i \<Longrightarrow> TruncateV1 (TruncateV1 i) = TruncateV1 i"
  by simp

subsection \<open>Peers\<close>

record Peer =
  peer_ID :: peerid
  peer_AddrPort :: addrport

definition Peer_Addr :: "Peer \<Rightarrow> addr" where
  "Peer_Addr p = Unmap (ap_addr (peer_AddrPort p))"

definition Peer_Port :: "Peer \<Rightarrow> u16" where
  "Peer_Port p = ap_port (peer_AddrPort p)"

subsection \<open>Request addresses\<close>

record RequestAddress =
  ra_Addr :: addr
  ra_Provided :: bool

type_synonym RequestAddresses = "RequestAddress list"

definition RequestAddress_IsValid :: "RequestAddress \<Rightarrow> bool" where
  "RequestAddress_IsValid a \<longleftrightarrow> addr_IsValid (ra_Addr a) \<and>
     \<not> (IsUnspecified (ra_Addr a) \<or> IsMulticast (ra_Addr a) \<or> ra_Addr a = broadcast4)"

definition RequestAddresses_Less :: "RequestAddress \<Rightarrow> RequestAddress \<Rightarrow> bool" where
  "RequestAddresses_Less a b \<longleftrightarrow> ra_Provided a \<and> \<not> ra_Provided b"

definition RequestAddresses_Add :: "RequestAddresses \<Rightarrow> RequestAddress \<Rightarrow> RequestAddresses" where
  "RequestAddresses_Add aa a =
     (if RequestAddress_IsValid a then aa @ [a\<lparr>ra_Addr := Unmap (ra_Addr a)\<rparr>] else aa)"

text \<open>
  \<open>Sanitize\<close>: the map \<open>uniqueAddresses\<close> from the address to the provided flag is filled in
  the order of the slice, then read back in the order \<open>ord\<close> of a map iteration and sorted
  with \<open>Less\<close>. \<open>sort.Sort\<close> is not stable; a stable sort of an arbitrary permutation has the
  same possible results.
\<close>

definition usable_address :: "bool \<Rightarrow> RequestAddress \<Rightarrow> bool" where
  "usable_address ignorePrivate a \<longleftrightarrow> RequestAddress_IsValid a \<and>
     (\<not> ignorePrivate \<or> IsGlobalUnicast (ra_Addr a) \<and> \<not> IsPrivate (ra_Addr a))"

fun unique_addresses ::
  "bool \<Rightarrow> (addr, bool) gomap \<Rightarrow> RequestAddresses \<Rightarrow> (addr, bool) gomap" where
  "unique_addresses ignorePrivate m [] = m"
| "unique_addresses ignorePrivate m (a # aa) =
     unique_addresses ignorePrivate
       (if usable_address ignorePrivate a
        then (case m_get m (ra_Addr a) of
                None \<Rightarrow> m_set (ra_Addr a) (ra_Provided a) m
              | Some provided \<Rightarrow>
                  if \<not> provided \<and> ra_Provided a then m_set (ra_Addr a) (ra_Provided a) m else m)
        else m) aa"

fun insert_address :: "RequestAddress \<Rightarrow> RequestAddresses \<Rightarrow> RequestAddresses" where
  "insert_address a [] = [a]"
| "insert_address a (b # bs) =
     (if RequestAddresses_Less b a then b # insert_address a bs else a # b # bs)"

fun sort_addresses :: "RequestAddresses \<Rightarrow> RequestAddresses" where
  "sort_addresses [] = []"
| "sort_addresses (a # aa) = insert_address a (sort_addresses aa)"

definition Sanitize ::
  "((addr \<times> bool) list \<Rightarrow> (addr \<times> bool) list) \<Rightarrow> RequestAddresses \<Rightarrow> bool
     \<Rightarrow> bool \<times> RequestAddresses" where
  "Sanitize ord aa ignorePrivate =
     (if aa = [] then (False, aa)
      else
        let uniqueAddresses = unique_addresses ignorePrivate [] aa;
            aa' = map (\<lambda>(a, p). \<lparr>ra_Addr = a, ra_Provided = p\<rparr>) (ord uniqueAddresses);
            aa'' = (if length aa' > 1 then sort_addresses aa' else aa')
        in (length uniqueAddresses > 0, aa''))"

definition GetFirst :: "RequestAddresses \<Rightarrow> addr" where
  "GetFirst aa = (case aa of [] \<Rightarrow> AddrZero | a # _ \<Rightarrow> ra_Addr a)"

subsection \<open>Requests and responses\<close>

record RequestPeer =
  rp_ID :: peerid
  rp_Port :: u16
  rp_RequestAddresses :: RequestAddresses

definition RequestPeer_Peers :: "RequestPeer \<Rightarrow> Peer list" where
  "RequestPeer_Peers rp =
     map (\<lambda>a. \<lparr>peer_ID = rp_ID rp, peer_AddrPort = \<lparr>ap_addr = ra_Addr a, ap_port = rp_Port rp\<rparr>\<rparr>)
       (rp_RequestAddresses rp)"

text \<open>\<open>Params\<close>: the method \<open>GetString\<close> of the interface value, \<open>None\<close> for a nil interface.\<close>

type_synonym Params = "(bytes \<Rightarrow> bytes option) option"

record AnnounceRequest =
  areq_Event :: Event
  areq_InfoHash :: infohash
  areq_EventProvided :: bool
  areq_NumWantProvided :: bool
  areq_NumWant :: u32
  areq_Left :: u64
  areq_Downloaded :: u64
  areq_Uploaded :: u64
  areq_RequestPeer :: RequestPeer
  areq_Params :: Params

text \<open>Durations are \<open>int64\<close> counts of nanoseconds; \<open>wrap64\<close> is the wrap-around of \<open>int64\<close>.\<close>

type_synonym duration = int

definition wrap64 :: "int \<Rightarrow> int" where
  "wrap64 x = (x + 2 ^ 63) mod 2 ^ 64 - 2 ^ 63"

lemma wrap64_id: "- (2 ^ 63) \<le> x \<Longrightarrow> x < 2 ^ 63 \<Longrightarrow> wrap64 x = x"
  by (simp add: wrap64_def)

definition second :: duration where
  "second = 1000000000"

record AnnounceResponse =
  aresp_Complete :: u32
  aresp_Incomplete :: u32
  aresp_Interval :: duration
  aresp_MinInterval :: duration
  aresp_IPv4Peers :: "Peer list"
  aresp_IPv6Peers :: "Peer list"

record ScrapeRequest =
  sreq_RequestAddresses :: RequestAddresses
  sreq_InfoHashes :: "infohash list"
  sreq_Params :: Params

record Scrape =
  scr_InfoHash :: infohash
  scr_Snatches :: u32
  scr_Complete :: u32
  scr_Incomplete :: u32

record ScrapeResponse =
  sresp_Data :: "Scrape list"

subsection \<open>Route parameters in a context\<close>

record RouteParam =
  rpar_Key :: bytes
  rpar_Value :: bytes

fun ByName :: "RouteParam list \<Rightarrow> bytes \<Rightarrow> bytes" where
  "ByName [] name = []"
| "ByName (p # rp) name = (if rpar_Key p = name then rpar_Value p else ByName rp name)"

text \<open>
  The values the tracker keeps in a \<open>context.Context\<close>, and the context's own error:
  the route parameters, the two keys that skip a hook (\<open>middleware/hooks.go\<close>).
\<close>

record ctx =
  ctx_RouteParams :: "RouteParam list option"
  ctx_SkipSwarmInteraction :: bool
  ctx_SkipResponseHook :: bool
  ctx_Err :: err

definition Background :: ctx where
  "Background = \<lparr>ctx_RouteParams = None, ctx_SkipSwarmInteraction = False,
                 ctx_SkipResponseHook = False, ctx_Err = None\<rparr>"

definition InjectRouteParamsToContext :: "ctx \<Rightarrow> RouteParam list option \<Rightarrow> ctx" where
  "InjectRouteParamsToContext c rp =
     c\<lparr>ctx_RouteParams := Some (case rp of None \<Rightarrow> [] | Some r \<Rightarrow> r)\<rparr>"

definition RemapRouteParamsToBgContext :: "ctx \<Rightarrow> ctx" where
  "RemapRouteParamsToBgContext inCtx =
     Background\<lparr>ctx_RouteParams :=
       Some (case ctx_RouteParams inCtx of None \<Rightarrow> [] | Some rp \<Rightarrow> rp)\<rparr>"

subsection \<open>Sanitizing requests\<close>

definition ErrInvalidIP :: goerror where
  "ErrInvalidIP = ClientError ''invalid IP''"

definition ErrInvalidPort :: goerror where
  "ErrInvalidPort = ClientError ''invalid port''"

definition SanitizeAnnounce ::
  "((addr \<times> bool) list \<Rightarrow> (addr \<times> bool) list) \<Rightarrow> AnnounceRequest \<Rightarrow> u32 \<Rightarrow> u32 \<Rightarrow> bool
     \<Rightarrow> goerror + AnnounceRequest" where
  "SanitizeAnnounce ord r maxNumWant defaultNumWant filterPrivate =
     (let rp = areq_RequestPeer r in
      if rp_Port rp = 0 then Inl ErrInvalidPort
      else
        let (ok, aa) = Sanitize ord (rp_RequestAddresses rp) filterPrivate;
            r' = r\<lparr>areq_RequestPeer := rp\<lparr>rp_RequestAddresses := aa\<rparr>\<rparr>
        in
        if \<not> ok then Inl ErrInvalidIP
        else if \<not> areq_NumWantProvided r' then Inr (r'\<lparr>areq_NumWant := defaultNumWant\<rparr>)
        else if areq_NumWant r' > maxNumWant then Inr (r'\<lparr>areq_NumWant := maxNumWant\<rparr>)
        else Inr r')"

definition SanitizeScrape ::
  "((addr \<times> bool) list \<Rightarrow> (addr \<times> bool) list) \<Rightarrow> ScrapeRequest \<Rightarrow> u32 \<Rightarrow> bool
     \<Rightarrow> goerror + ScrapeRequest" where
  "SanitizeScrape ord r maxScrapeInfoHashes filterPrivate =
     (let r1 = (if length (sreq_InfoHashes r) > unat maxScrapeInfoHashes
                then r\<lparr>sreq_InfoHashes := take (unat maxScrapeInfoHashes) (sreq_InfoHashes r)\<rparr>
                else r);
          (ok, aa) = Sanitize ord (sreq_RequestAddresses r1) filterPrivate;
          r2 = r1\<lparr>sreq_RequestAddresses := aa\<rparr>
      in if \<not> ok then Inl ErrInvalidIP else Inr r2)"

subsection \<open>What sanitizing guarantees\<close>

lemma is_gomap_unique_addresses:
  "is_gomap m \<Longrightarrow> is_gomap (unique_addresses ip m aa)"
  by (induction ip m aa rule: unique_addresses.induct) (auto split: option.splits)

lemma m_keys_unique_addresses:
  "m_keys (unique_addresses ip m aa) = m_keys m \<union> ra_Addr ` {a \<in> set aa. usable_address ip a}"
proof (induction ip m aa rule: unique_addresses.induct)
  case (1 ip m)
  then show ?case by simp
next
  case (2 ip m a aa)
  then show ?case
    by (auto split: option.splits if_splits dest: m_get_Some_key)
qed

lemma provided_unique_addresses:
  "m_get (unique_addresses ip m aa) x = Some True \<longleftrightarrow>
     m_get m x = Some True \<or> (\<exists>a\<in>set aa. usable_address ip a \<and> ra_Addr a = x \<and> ra_Provided a)"
proof (induction ip m aa rule: unique_addresses.induct)
  case (1 ip m)
  then show ?case by simp
next
  case (2 ip m a aa)
  then show ?case
    by (auto split: option.splits if_splits)
qed

lemma mset_insert_address: "mset (insert_address a aa) = {#a#} + mset aa"
  by (induction aa) auto

lemma mset_sort_addresses: "mset (sort_addresses aa) = mset aa"
  by (induction aa) (auto simp: mset_insert_address)

lemma set_sort_addresses: "set (sort_addresses aa) = set aa"
  by (metis mset_sort_addresses set_mset_mset)

definition provided_first :: "RequestAddresses \<Rightarrow> bool" where
  "provided_first aa \<longleftrightarrow> sorted_wrt (\<lambda>a b. \<not> RequestAddresses_Less b a) aa"

lemma provided_first_insert: "provided_first aa \<Longrightarrow> provided_first (insert_address a aa)"
proof (induction aa)
  case Nil
  then show ?case by (simp add: provided_first_def)
next
  case (Cons b bs)
  have "set (insert_address a bs) = insert a (set bs)"
    by (metis mset_insert_address set_mset_mset set_mset_add_mset_insert add_mset_add_single add.commute)
  with Cons show ?case
    by (auto simp: provided_first_def RequestAddresses_Less_def)
qed

lemma provided_first_sort: "provided_first (sort_addresses aa)"
  by (induction aa) (simp_all add: provided_first_insert, simp add: provided_first_def)

text \<open>The addresses a sanitized slice is made of: each usable address of the input once.\<close>

lemma Sanitize_entries:
  assumes ord: "is_order ord" and eq: "Sanitize ord aa ip = (ok, aa')"
  shows "mset (map (\<lambda>a. (ra_Addr a, ra_Provided a)) aa') = mset (unique_addresses ip [] aa)"
    and "ok \<longleftrightarrow> unique_addresses ip [] aa \<noteq> []"
    and "provided_first aa'"
proof -
  define U where "U = unique_addresses ip [] aa"
  define xs where "xs = map (\<lambda>(a, p). \<lparr>ra_Addr = a, ra_Provided = p\<rparr>) (ord U)"
  have inv_xs: "map (\<lambda>a. (ra_Addr a, ra_Provided a)) xs = ord U"
    by (simp add: xs_def case_prod_beta comp_def)
  have len: "length xs = length U" by (simp add: xs_def is_order_length [OF ord])
  have res: "(ok, aa') = (if aa = [] then (False, []) else
      (U \<noteq> [], if length xs > 1 then sort_addresses xs else xs))"
    unfolding eq [symmetric] Sanitize_def Let_def U_def xs_def by simp
  have nil: "aa = [] \<Longrightarrow> U = []" by (simp add: U_def)
  have "mset aa' = mset xs"
    using res nil len by (auto simp: mset_sort_addresses split: if_splits)
  then show "mset (map (\<lambda>a. (ra_Addr a, ra_Provided a)) aa') = mset (unique_addresses ip [] aa)"
    using inv_xs is_order_mset [OF ord, of U] by (metis U_def mset_map)
  show "ok \<longleftrightarrow> unique_addresses ip [] aa \<noteq> []"
    using res nil by (auto simp: U_def split: if_splits)
  have "provided_first xs" if "length xs \<le> 1"
    using that by (cases xs) (auto simp: provided_first_def)
  moreover have "provided_first []" by (simp add: provided_first_def)
  ultimately show "provided_first aa'"
    using res provided_first_sort [of xs] by (auto split: if_splits)
qed

lemma Sanitize_addresses:
  assumes ord: "is_order ord" and eq: "Sanitize ord aa ip = (ok, aa')"
  shows "ok \<longleftrightarrow> aa' \<noteq> []"
    and "ra_Addr ` set aa' = ra_Addr ` {a \<in> set aa. usable_address ip a}"
    and "distinct (map ra_Addr aa')"
    and "\<And>b. b \<in> set aa' \<Longrightarrow> ra_Provided b \<longleftrightarrow>
          (\<exists>a\<in>set aa. usable_address ip a \<and> ra_Addr a = ra_Addr b \<and> ra_Provided a)"
proof -
  let ?U = "unique_addresses ip [] aa"
  let ?e = "map (\<lambda>a. (ra_Addr a, ra_Provided a)) aa'"
  have ms: "mset ?e = mset ?U" and ok: "ok \<longleftrightarrow> ?U \<noteq> []"
    using Sanitize_entries [OF ord eq] by auto
  have gU: "is_gomap ?U" by (simp add: is_gomap_unique_addresses)
  have st: "set ?e = set ?U" using ms by (metis set_mset_mset)
  show "ok \<longleftrightarrow> aa' \<noteq> []" using ok st by fastforce
  have fst: "map fst ?e = map ra_Addr aa'" by simp
  have "mset (map fst ?e) = mset (map fst ?U)" using ms by (metis mset_map)
  then show "distinct (map ra_Addr aa')"
    using gU unfolding fst by (metis is_gomap_def mset_eq_imp_distinct_iff)
  have "ra_Addr ` set aa' = fst ` set ?e" by (simp add: image_image)
  then have "ra_Addr ` set aa' = fst ` set ?U" unfolding st .
  then show "ra_Addr ` set aa' = ra_Addr ` {a \<in> set aa. usable_address ip a}"
    using m_keys_unique_addresses [of ip "[]" aa] by (simp add: m_keys_def)
  fix b
  assume "b \<in> set aa'"
  then have "(ra_Addr b, ra_Provided b) \<in> set ?U" using st by auto
  then have "m_get ?U (ra_Addr b) = Some (ra_Provided b)" using gU by (simp add: m_get_in)
  then show "ra_Provided b \<longleftrightarrow>
      (\<exists>a\<in>set aa. usable_address ip a \<and> ra_Addr a = ra_Addr b \<and> ra_Provided a)"
    using provided_unique_addresses [of ip "[]" aa "ra_Addr b"] by simp
qed

lemma usable_address_cong: "ra_Addr a = ra_Addr b \<Longrightarrow> usable_address ip a = usable_address ip b"
  by (simp add: usable_address_def RequestAddress_IsValid_def)

lemma Sanitize_usable:
  assumes "is_order ord" and "Sanitize ord aa ip = (ok, aa')" and "b \<in> set aa'"
  shows "usable_address ip b"
proof -
  from assms have "ra_Addr b \<in> ra_Addr ` {a \<in> set aa. usable_address ip a}"
    using Sanitize_addresses(2) by blast
  then show ?thesis using usable_address_cong by blast
qed

lemma SanitizeAnnounce_result:
  assumes ord: "is_order ord"
  shows "case SanitizeAnnounce ord r maxNumWant defaultNumWant fp of
      Inl e \<Rightarrow>
        (rp_Port (areq_RequestPeer r) = 0 \<and> e = ErrInvalidPort) \<or>
        (rp_Port (areq_RequestPeer r) \<noteq> 0 \<and> e = ErrInvalidIP \<and>
         \<not> (\<exists>a\<in>set (rp_RequestAddresses (areq_RequestPeer r)). usable_address fp a))
    | Inr r' \<Rightarrow>
        (let rp = areq_RequestPeer r; aa = rp_RequestAddresses rp;
             aa' = rp_RequestAddresses (areq_RequestPeer r')
         in rp_Port rp \<noteq> 0 \<and> aa' \<noteq> [] \<and> distinct (map ra_Addr aa') \<and> provided_first aa' \<and>
            ra_Addr ` set aa' = ra_Addr ` {a \<in> set aa. usable_address fp a} \<and>
            (\<forall>b. b \<in> set aa' \<longrightarrow> (ra_Provided b \<longleftrightarrow>
               (\<exists>a\<in>set aa. usable_address fp a \<and> ra_Addr a = ra_Addr b \<and> ra_Provided a))) \<and>
            r' = r\<lparr>areq_NumWant := (if areq_NumWantProvided r
                                    then min (areq_NumWant r) maxNumWant else defaultNumWant),
                  areq_RequestPeer := rp\<lparr>rp_RequestAddresses := aa'\<rparr>\<rparr>)"
proof -
  obtain ok aa' where eq: "Sanitize ord (rp_RequestAddresses (areq_RequestPeer r)) fp = (ok, aa')"
    by fastforce
  note props = Sanitize_addresses [OF ord eq] Sanitize_entries(3) [OF ord eq]
  have empty: "aa' = [] \<Longrightarrow>
      \<not> (\<exists>a\<in>set (rp_RequestAddresses (areq_RequestPeer r)). usable_address fp a)"
    using props(2) by auto
  show ?thesis
    using props empty
    by (auto simp: SanitizeAnnounce_def eq Let_def min_def)
qed

lemma SanitizeAnnounce_fields:
  assumes "is_order ord" and "SanitizeAnnounce ord r m d fp = Inr r'"
  shows "areq_InfoHash r' = areq_InfoHash r" "areq_Left r' = areq_Left r" "areq_Downloaded r' = areq_Downloaded r"
    "areq_Uploaded r' = areq_Uploaded r" "areq_NumWantProvided r' = areq_NumWantProvided r"
    "areq_NumWant r' = (if areq_NumWantProvided r then min (areq_NumWant r) m else d)"
    "rp_ID (areq_RequestPeer r') = rp_ID (areq_RequestPeer r)" "rp_Port (areq_RequestPeer r') = rp_Port (areq_RequestPeer r)"
    "rp_Port (areq_RequestPeer r) \<noteq> 0" "rp_RequestAddresses (areq_RequestPeer r') \<noteq> []"
    "distinct (map ra_Addr (rp_RequestAddresses (areq_RequestPeer r')))"
    "ra_Addr ` set (rp_RequestAddresses (areq_RequestPeer r')) =
       ra_Addr ` {a \<in> set (rp_RequestAddresses (areq_RequestPeer r)). usable_address fp a}"
    "areq_Event r' = areq_Event r" "areq_EventProvided r' = areq_EventProvided r"
proof -
  note res = SanitizeAnnounce_result [OF assms(1), where r = r and maxNumWant = m and defaultNumWant = d and fp = fp, unfolded assms(2) sum.case Let_def]
  show "rp_Port (areq_RequestPeer r) \<noteq> 0" "rp_RequestAddresses (areq_RequestPeer r') \<noteq> []"
    "distinct (map ra_Addr (rp_RequestAddresses (areq_RequestPeer r')))"
    "ra_Addr ` set (rp_RequestAddresses (areq_RequestPeer r')) =
       ra_Addr ` {a \<in> set (rp_RequestAddresses (areq_RequestPeer r)). usable_address fp a}"
    using res by simp_all
  define aa where "aa = rp_RequestAddresses (areq_RequestPeer r')"
  have "r' = r\<lparr>areq_NumWant := (if areq_NumWantProvided r then min (areq_NumWant r) m else d),
      areq_RequestPeer := (areq_RequestPeer r)\<lparr>rp_RequestAddresses := aa\<rparr>\<rparr>"
    using res unfolding aa_def by blast
  then show "areq_InfoHash r' = areq_InfoHash r" "areq_Left r' = areq_Left r" "areq_Downloaded r' = areq_Downloaded r"
    "areq_Uploaded r' = areq_Uploaded r" "areq_NumWantProvided r' = areq_NumWantProvided r"
    "areq_NumWant r' = (if areq_NumWantProvided r then min (areq_NumWant r) m else d)"
    "rp_ID (areq_RequestPeer r') = rp_ID (areq_RequestPeer r)" "rp_Port (areq_RequestPeer r') = rp_Port (areq_RequestPeer r)"
    "areq_Event r' = areq_Event r" "areq_EventProvided r' = areq_EventProvided r"
    by simp_all
qed

text \<open>
  C12: sanitizing an announce. It fails with \<open>ErrInvalidPort\<close> exactly when the port is 0, and
  otherwise with \<open>ErrInvalidIP\<close> exactly when no address of the request is usable (valid,
  not unspecified, not multicast, not broadcast and, when private addresses are filtered,
  global and not private). On success the request keeps every other field; its addresses
  are the usable ones, each once, marked provided when one of its occurrences was, with the
  provided ones first; \<open>NumWant\<close> is the default when the client gave none and is cut to the
  maximum otherwise.
\<close>

theorem SanitizeAnnounce_correct:
  assumes ord: "is_order ord"
  shows "case SanitizeAnnounce ord r maxNumWant defaultNumWant fp of
      Inl e \<Rightarrow>
        (rp_Port (areq_RequestPeer r) = 0 \<and> e = ErrInvalidPort) \<or>
        (rp_Port (areq_RequestPeer r) \<noteq> 0 \<and> e = ErrInvalidIP \<and>
         \<not> (\<exists>a\<in>set (rp_RequestAddresses (areq_RequestPeer r)). usable_address fp a))
    | Inr r' \<Rightarrow>
        (let rp = areq_RequestPeer r; aa = rp_RequestAddresses rp;
             aa' = rp_RequestAddresses (areq_RequestPeer r')
         in rp_Port rp \<noteq> 0 \<and> aa' \<noteq> [] \<and> distinct (map ra_Addr aa') \<and> provided_first aa' \<and>
            ra_Addr ` set aa' = ra_Addr ` {a \<in> set aa. usable_address fp a} \<and>
            (\<forall>b. b \<in> set aa' \<longrightarrow> (ra_Provided b \<longleftrightarrow>
               (\<exists>a\<in>set aa. usable_address fp a \<and> ra_Addr a = ra_Addr b \<and> ra_Provided a))) \<and>
            r' = r\<lparr>areq_NumWant := (if areq_NumWantProvided r
                                    then min (areq_NumWant r) maxNumWant else defaultNumWant),
                  areq_RequestPeer := rp\<lparr>rp_RequestAddresses := aa'\<rparr>\<rparr>)"
  using ord by (rule SanitizeAnnounce_result)

definition example_announce :: AnnounceRequest where
  "example_announce =
     \<lparr>areq_Event = EvStarted, areq_InfoHash = replicate 20 1, areq_EventProvided = True,
      areq_NumWantProvided = True, areq_NumWant = 1000, areq_Left = 5, areq_Downloaded = 0,
      areq_Uploaded = 0,
      areq_RequestPeer = \<lparr>rp_ID = replicate 20 7, rp_Port = 6881,
        rp_RequestAddresses = [\<lparr>ra_Addr = AddrV4 0x01020304, ra_Provided = False\<rparr>,
                               \<lparr>ra_Addr = AddrV4 0x05060708, ra_Provided = True\<rparr>]\<rparr>,
      areq_Params = None\<rparr>"

lemma example_Sanitize:
  "Sanitize (\<lambda>xs. xs) [\<lparr>ra_Addr = AddrV4 0x01020304, ra_Provided = False\<rparr>,
                       \<lparr>ra_Addr = AddrV4 0x05060708, ra_Provided = True\<rparr>] True =
     (True, [\<lparr>ra_Addr = AddrV4 0x05060708, ra_Provided = True\<rparr>,
             \<lparr>ra_Addr = AddrV4 0x01020304, ra_Provided = False\<rparr>])"
  by code_simp

lemma example_sanitized:
  "SanitizeAnnounce (\<lambda>xs. xs) example_announce 100 50 True =
     Inr (example_announce\<lparr>areq_NumWant := 100,
       areq_RequestPeer := areq_RequestPeer example_announce
         \<lparr>rp_RequestAddresses := [\<lparr>ra_Addr = AddrV4 0x05060708, ra_Provided = True\<rparr>,
                                  \<lparr>ra_Addr = AddrV4 0x01020304, ra_Provided = False\<rparr>]\<rparr>\<rparr>)"
  by (simp add: SanitizeAnnounce_def example_announce_def example_Sanitize)

theorem SanitizeAnnounce_correct_witness:
  "is_order (\<lambda>xs :: (addr \<times> bool) list. xs) \<and>
   (case SanitizeAnnounce (\<lambda>xs. xs) example_announce 100 50 True of
      Inl e \<Rightarrow> False
    | Inr r' \<Rightarrow> provided_first (rp_RequestAddresses (areq_RequestPeer r')) \<and> areq_NumWant r' = 100)"
  using SanitizeAnnounce_correct [where ord = "\<lambda>xs. xs" and r = example_announce
    and maxNumWant = 100 and defaultNumWant = 50 and fp = True]
  unfolding example_sanitized by (simp add: Let_def example_announce_def)

text \<open>
  info hashes. A raw hash of 20 or 32 bytes and its hexadecimal rendering both give the
  hash back; what is accepted is a hash of 20 or 32 bytes; input of any other length than
  20, 32, 40 and 64 is rejected with \<open>ErrInvalidHashSize\<close>.
\<close>

theorem NewInfoHash_roundtrip:
  "(is_infohash i \<longrightarrow> NewInfoHash i = Inr i \<and> NewInfoHash (InfoHash_String i) = Inr i) \<and>
   (NewInfoHash b = Inr i \<longrightarrow> is_infohash i) \<and>
   (length b \<notin> {20, 32, 40, 64} \<longrightarrow> NewInfoHash b = Inl ErrInvalidHashSize)"
proof (intro conjI impI)
  show "is_infohash i" if "NewInfoHash b = Inr i"
    using that by (rule NewInfoHash_is_infohash)
qed (auto simp: NewInfoHash_def is_infohash_def InfoHash_String_def len_defs Let_def)

theorem NewInfoHash_roundtrip_witness:
  "is_infohash (replicate 32 (0xAB :: byte)) \<and>
   NewInfoHash (InfoHash_String (replicate 32 0xAB)) = Inr (replicate 32 0xAB)"
  using NewInfoHash_roundtrip [of "replicate 32 0xAB" "[]"]
  by (simp add: is_infohash_def len_defs)

text \<open>
  events. When the Unicode lower-casing of a string that is not ASCII never gives one of
  the event names, a string is accepted exactly when it is empty or, ignoring ASCII case, one
  of the four names, with the named event; anything else is \<open>ErrUnknownEvent\<close>. Printing an
  event and reading it back gives the event.
\<close>

theorem NewEvent_correct:
  assumes uni: "\<And>s. \<not> is_ascii s \<Longrightarrow>
    uni s \<notin> {[], str ''none'', str ''started'', str ''stopped'', str ''completed''}"
    and e: "e \<in> {EvNone, EvStarted, EvStopped, EvCompleted}"
  shows "(NewEvent uni s = (e, None) \<longleftrightarrow>
      is_ascii s \<and> (map lower_byte s = Event_String e \<or> s = [] \<and> e = EvNone)) \<and>
    (snd (NewEvent uni s) \<noteq> None \<longrightarrow> NewEvent uni s = (EvNone, Some ErrUnknownEvent)) \<and>
    NewEvent uni (Event_String e) = (e, None)"
proof -
  have "is_ascii (Event_String e) \<and> map lower_byte (Event_String e) = Event_String e"
    using e by (auto simp: is_ascii_def lower_byte_def word_less_nat_alt word_le_nat_alt)
  then have "NewEvent uni (Event_String e) = (e, None)"
    using e by (auto simp: NewEvent_def ToLower_def)
  moreover have "NewEvent uni s = (e, None) \<longleftrightarrow>
      is_ascii s \<and> (map lower_byte s = Event_String e \<or> s = [] \<and> e = EvNone)"
    using e uni [of s] by (auto simp: NewEvent_def ToLower_def Let_def)
  moreover have "snd (NewEvent uni s) \<noteq> None \<longrightarrow> NewEvent uni s = (EvNone, Some ErrUnknownEvent)"
    by (simp add: NewEvent_def Let_def)
  ultimately show ?thesis by blast
qed

theorem NewEvent_correct_witness:
  "NewEvent (\<lambda>s. s) (str ''StArTeD'') = (EvStarted, None) \<and>
   NewEvent (\<lambda>s. s) (Event_String EvStopped) = (EvStopped, None)"
proof -
  have u: "s \<notin> {[], str ''none'', str ''started'', str ''stopped'', str ''completed''}"
    if "\<not> is_ascii s" for s
    using that by (auto simp: is_ascii_def word_less_nat_alt)
  have "is_ascii (str ''StArTeD'') \<and> map lower_byte (str ''StArTeD'') = Event_String EvStarted"
    by code_simp
  with NewEvent_correct [where uni = "\<lambda>s. s" and e = EvStarted and s = "str ''StArTeD''", OF u]
    NewEvent_correct [where uni = "\<lambda>s. s" and e = EvStopped and s = "[]", OF u]
  show ?thesis by simp
qed

end
