(* ===== verification/Frontend.thy ===== *)
theory Frontend
  imports Bittorrent
begin

section \<open>Package \<open>frontend\<close>: options, registry, closing\<close>

text \<open>
  \<open>frontend/options.go\<close> (defaults of the listen and parse options, opening a listener) and
  \<open>frontend/frontend.go\<close> (registry of frontend builders, closing a group of resources).
\<close>

subsection \<open>Options\<close>

definition DefaultListenAddress :: bytes where
  "DefaultListenAddress = str '':6969''"

record ListenOptions =
  lo_Addr :: bytes
  lo_ReusePort :: bool
  lo_Workers :: nat
  lo_EnableRequestTiming :: bool

definition ListenOptions_Validate :: "ListenOptions \<Rightarrow> ListenOptions" where
  "ListenOptions_Validate lo =
     (if length (lo_Addr lo) = 0 then lo\<lparr>lo_Addr := DefaultListenAddress\<rparr> else lo)"

definition errUnexpectedListenerType :: goerror where
  "errUnexpectedListenerType = OtherError ''unexpected listener type''"

text \<open>
  Opening a listener: the operating system and \<open>go-reuseport\<close> are the parameters. \<open>reuse\<close>
  is \<open>reuseport.Listen\<close> or \<open>ListenPacket\<close>, with \<open>cast\<close> the checked conversion of what it
  returns; \<open>resolve\<close> and \<open>listen\<close> are the plain way.
\<close>

definition open_listener ::
  "bool \<Rightarrow> (bytes \<Rightarrow> goerror + 'l) \<Rightarrow> ('l \<Rightarrow> 'c option) \<Rightarrow> (bytes \<Rightarrow> goerror + 'a) \<Rightarrow> ('a \<Rightarrow> goerror + 'c)
     \<Rightarrow> ListenOptions \<Rightarrow> goerror + 'c" where
  "open_listener available reuse cast resolve listen lo =
     (if lo_ReusePort lo \<and> available
      then (case reuse (lo_Addr lo) of Inl e \<Rightarrow> Inl e
            | Inr ln \<Rightarrow> (case cast ln of None \<Rightarrow> Inl errUnexpectedListenerType | Some c \<Rightarrow> Inr c))
      else (case resolve (lo_Addr lo) of Inl e \<Rightarrow> Inl e | Inr a \<Rightarrow> listen a))"

definition ListenTCP ::
  "bool \<Rightarrow> (bytes \<Rightarrow> goerror + 'l) \<Rightarrow> ('l \<Rightarrow> 'c option) \<Rightarrow> (bytes \<Rightarrow> goerror + 'a) \<Rightarrow> ('a \<Rightarrow> goerror + 'c)
     \<Rightarrow> ListenOptions \<Rightarrow> goerror + 'c" where
  "ListenTCP = open_listener"

definition ListenUDP ::
  "bool \<Rightarrow> (bytes \<Rightarrow> goerror + 'l) \<Rightarrow> ('l \<Rightarrow> 'c option) \<Rightarrow> (bytes \<Rightarrow> goerror + 'a) \<Rightarrow> ('a \<Rightarrow> goerror + 'c)
     \<Rightarrow> ListenOptions \<Rightarrow> goerror + 'c" where
  "ListenUDP = open_listener"

record ParseOptions =
  po_AllowIPSpoofing :: bool
  po_FilterPrivateIPs :: bool
  po_MaxNumWant :: u32
  po_DefaultNumWant :: u32
  po_MaxScrapeInfoHashes :: u32

definition defaultMaxNumWant :: u32 where "defaultMaxNumWant = 100"
definition defaultDefaultNumWant :: u32 where "defaultDefaultNumWant = 50"
definition defaultMaxScrapeInfoHashes :: u32 where "defaultMaxScrapeInfoHashes = 50"

definition ParseOptions_Validate :: "ParseOptions \<Rightarrow> ParseOptions" where
  "ParseOptions_Validate opt =
     (let v1 = (if po_MaxNumWant opt \<le> 0 then opt\<lparr>po_MaxNumWant := defaultMaxNumWant\<rparr> else opt);
          v2 = (if po_DefaultNumWant opt \<le> 0 then v1\<lparr>po_DefaultNumWant := defaultDefaultNumWant\<rparr> else v1);
          v3 = (if po_MaxScrapeInfoHashes opt \<le> 0
                then v2\<lparr>po_MaxScrapeInfoHashes := defaultMaxScrapeInfoHashes\<rparr> else v2)
      in v3)"

definition parse_options_ok :: "ParseOptions \<Rightarrow> bool" where
  "parse_options_ok opt \<longleftrightarrow> 0 < po_MaxNumWant opt \<and> 0 < po_DefaultNumWant opt \<and> 0 < po_MaxScrapeInfoHashes opt"

lemma ParseOptions_Validate_ok: "parse_options_ok (ParseOptions_Validate opts)"
  by (auto simp: ParseOptions_Validate_def parse_options_ok_def Let_def defaultMaxNumWant_def
      defaultDefaultNumWant_def defaultMaxScrapeInfoHashes_def word_gt_0)

text \<open>
  C40: Validation replaces each limit that is zero by its default, 100 peers at most, 50 by default
  and 50 info hashes, keeps each limit that was given whatever the others are, and keeps both
  flags; so no limit is zero afterwards, and validating again changes nothing.
\<close>

theorem ParseOptions_Validate_correct:
  "po_MaxNumWant (ParseOptions_Validate opt) = (if po_MaxNumWant opt = 0 then 100 else po_MaxNumWant opt) \<and>
   po_DefaultNumWant (ParseOptions_Validate opt) = (if po_DefaultNumWant opt = 0 then 50 else po_DefaultNumWant opt) \<and>
   po_MaxScrapeInfoHashes (ParseOptions_Validate opt) =
     (if po_MaxScrapeInfoHashes opt = 0 then 50 else po_MaxScrapeInfoHashes opt) \<and>
   po_AllowIPSpoofing (ParseOptions_Validate opt) = po_AllowIPSpoofing opt \<and>
   po_FilterPrivateIPs (ParseOptions_Validate opt) = po_FilterPrivateIPs opt \<and>
   parse_options_ok (ParseOptions_Validate opt) \<and>
   ParseOptions_Validate (ParseOptions_Validate opt) = ParseOptions_Validate opt"
  by (auto simp: ParseOptions_Validate_def parse_options_ok_def Let_def defaultMaxNumWant_def
      defaultDefaultNumWant_def defaultMaxScrapeInfoHashes_def word_gt_0)

definition example_options :: ParseOptions where
  "example_options = \<lparr>po_AllowIPSpoofing = True, po_FilterPrivateIPs = False, po_MaxNumWant = 100,
     po_DefaultNumWant = 50, po_MaxScrapeInfoHashes = 50\<rparr>"

theorem ParseOptions_Validate_correct_witness:
  "po_MaxNumWant (ParseOptions_Validate (example_options\<lparr>po_MaxNumWant := 30, po_DefaultNumWant := 0\<rparr>)) = 30 \<and>
   po_DefaultNumWant (ParseOptions_Validate (example_options\<lparr>po_MaxNumWant := 30, po_DefaultNumWant := 0\<rparr>)) = 50"
  using ParseOptions_Validate_correct [of "example_options\<lparr>po_MaxNumWant := 30, po_DefaultNumWant := 0\<rparr>"]
  by (simp add: example_options_def)

subsection \<open>The registry of frontends\<close>

definition RegisterFrontend ::
  "(bytes, 'b) gomap \<Rightarrow> bytes \<Rightarrow> 'b option \<Rightarrow> (bytes, 'b) gomap go" where
  "RegisterFrontend builders name b =
     (if name = [] then Panic ''frontend: could not register Builder with an empty name''
      else case b of
        None \<Rightarrow> Panic ''frontend: could not register a nil Builder''
      | Some f \<Rightarrow>
          (case m_get builders name of
             Some _ \<Rightarrow> Panic ''frontend: RegisterBuilder called twice''
           | None \<Rightarrow> Ret (m_set name f builders)))"

fun NewFrontends ::
  "(bytes, 'c \<Rightarrow> 'l \<Rightarrow> goerror + 'f) gomap \<Rightarrow> (bytes \<times> 'c) list \<Rightarrow> 'l \<Rightarrow> 'f list \<times> err" where
  "NewFrontends builders [] logic = ([], None)"
| "NewFrontends builders ((name, cfg) # configs) logic =
     (case m_get builders name of
        None \<Rightarrow> ([], Some (OtherError ''hook with that name does not exists''))
      | Some newFrontend \<Rightarrow>
          (case newFrontend cfg logic of
             Inl e \<Rightarrow> ([], Some e)
           | Inr f \<Rightarrow> (let (fs, e) = NewFrontends builders configs logic in (f # fs, e))))"

subsection \<open>Closing a group\<close>

text \<open>
  \<open>CloseGroup\<close> adds the number of closers to a wait group, starts a goroutine that calls
  \<open>Done\<close> for each that is not nil, and waits. A closer is \<open>None\<close> when nil, otherwise what its
  \<open>Close\<close> returns. The result \<open>None\<close> is that the wait never ends.
\<close>

definition pending_done :: "err option list \<Rightarrow> nat" where
  "pending_done cls = length cls - length (filter (\<lambda>c. c \<noteq> None) cls)"

definition CloseGroup :: "err option list \<Rightarrow> err option" where
  "CloseGroup cls =
     (if pending_done cls > 0 then None
      else let errs = map (\<lambda>c. case c of None \<Rightarrow> None | Some e \<Rightarrow> e) cls;
               sb = concat (map (\<lambda>e. case e of None \<Rightarrow> [] | Some x \<Rightarrow> err_text x @ ''; '') errs)
           in Some (if length sb > 0 then Some (OtherError sb) else None))"

lemma CloseGroup_result:
  "(CloseGroup cls = None \<longleftrightarrow> None \<in> set cls) \<and>
   (CloseGroup cls = Some None \<longleftrightarrow> set cls \<subseteq> {Some None}) \<and>
   (CloseGroup cls = Some (Some e) \<longrightarrow> Some (Some x) \<in> set cls \<longrightarrow>
      (\<exists>pre suf. e = OtherError (pre @ err_text x @ suf)))"
proof -
  have pend: "pending_done cls > 0 \<longleftrightarrow> None \<in> set cls"
  proof -
    have "length cls - length (filter (\<lambda>c. c \<noteq> None) cls) = length (filter (\<lambda>c. c = None) cls)"
      using sum_length_filter_compl [of "\<lambda>c. c = None" cls] by simp
    then show ?thesis by (auto simp: pending_done_def filter_empty_conv)
  qed
  have piece: "\<exists>pre suf. concat (map f cls) = pre @ f c @ suf" if "c \<in> set cls" for f :: "err option \<Rightarrow> string" and c
  proof -
    from split_list [OF that] obtain ys zs where "cls = ys @ c # zs" by blast
    then have "concat (map f cls) = concat (map f ys) @ f c @ concat (map f zs)" by simp
    then show ?thesis by blast
  qed
  show ?thesis
  proof (cases "None \<in> set cls")
    case True
    then show ?thesis using pend by (auto simp: CloseGroup_def)
  next
    case False
    let ?f = "\<lambda>c. case (case c of None \<Rightarrow> None | Some e \<Rightarrow> e) of None \<Rightarrow> [] | Some x \<Rightarrow> err_text x @ ''; ''"
    have eq: "CloseGroup cls = Some (if length (concat (map ?f cls)) > 0
        then Some (OtherError (concat (map ?f cls))) else None)"
      using False pend by (simp add: CloseGroup_def Let_def comp_def)
    have nil: "concat (map ?f cls) = [] \<longleftrightarrow> set cls \<subseteq> {Some None}"
    proof -
      have "?f c = [] \<longleftrightarrow> c = Some None" if "c \<in> set cls" for c
      proof -
        have "c \<noteq> None" using that False by metis
        then show ?thesis by (auto split: option.splits)
      qed
      then show ?thesis by auto
    qed
    have "\<exists>pre suf. concat (map ?f cls) = pre @ err_text x @ suf" if "Some (Some x) \<in> set cls" for x
      using piece [OF that, of ?f] by auto
    then show ?thesis using eq nil False by auto
  qed
qed

text \<open>
  C39: Closing a group returns exactly when no closer of it is nil; a nil one makes it wait
  forever. When it returns, the result is an error exactly when closing one of them failed,
  and its text contains the texts of all failures.
\<close>

theorem CloseGroup_correct:
  "(CloseGroup cls = None \<longleftrightarrow> None \<in> set cls) \<and>
   (CloseGroup cls = Some None \<longleftrightarrow> set cls \<subseteq> {Some None}) \<and>
   (CloseGroup cls = Some (Some e) \<longrightarrow> Some (Some x) \<in> set cls \<longrightarrow>
      (\<exists>pre suf. e = OtherError (pre @ err_text x @ suf)))"
  by (rule CloseGroup_result)

theorem CloseGroup_correct_witness:
  "CloseGroup [Some None, Some (Some (OtherError ''x''))] = Some (Some (OtherError ''x; '')) \<and>
   (\<exists>pre suf. OtherError ''x; '' = OtherError (pre @ ''x'' @ suf)) \<and> CloseGroup [None, Some None] = None"
proof -
  have c: "CloseGroup [Some None, Some (Some (OtherError ''x''))] = Some (Some (OtherError ''x; ''))"
    by (simp add: CloseGroup_def pending_done_def)
  then show ?thesis
    using CloseGroup_correct [of "[Some None, Some (Some (OtherError ''x''))]" "OtherError ''x; ''" "OtherError ''x''"]
      CloseGroup_correct [of "[None, Some None]"] by auto
qed

end
