(* ===== verification/Bencode.thy ===== *)
theory Bencode
  imports GoText
begin

section \<open>Decimal numbers and bencoding\<close>

text \<open>
  Decimal text as \<open>strconv\<close> writes and reads it, and the reference for what HTTP clients
  read: the bencoded values of BEP 3, their encoding and a decoder, with the round trip. The
  response writer of the HTTP frontend is compared with this encoding.
\<close>

subsection \<open>Decimal text\<close>

fun Itoa :: "nat \<Rightarrow> bytes" where
  "Itoa n = (if n < 10 then [48 + of_nat n] else Itoa (n div 10) @ [48 + of_nat (n mod 10)])"

declare Itoa.simps [simp del]

definition is_digit :: "byte \<Rightarrow> bool" where
  "is_digit b \<longleftrightarrow> 48 \<le> b \<and> b \<le> 57"

definition dec_value :: "bytes \<Rightarrow> nat" where
  "dec_value ds = foldl (\<lambda>a d. a * 10 + (unat d - 48)) 0 ds"

lemma unat_digit: "n < 10 \<Longrightarrow> unat (48 + of_nat n :: byte) = 48 + n"
  by (simp add: unat_word_ariths take_bit_nat_eq_self unat_of_nat)

lemma is_digit_of_nat: "n < 10 \<Longrightarrow> is_digit (48 + of_nat n)"
  using unat_digit [of n] by (simp add: is_digit_def word_le_nat_alt)

lemma Itoa_digits: "list_all is_digit (Itoa n)"
  by (induction n rule: Itoa.induct) (subst Itoa.simps, simp add: is_digit_of_nat)

lemma Itoa_ne [simp]: "Itoa n \<noteq> []"
  by (subst Itoa.simps) simp

lemma dec_value_Itoa [simp]: "dec_value (Itoa n) = n"
proof (induction n rule: Itoa.induct)
  case (1 n)
  then show ?case by (subst Itoa.simps) (simp add: dec_value_def unat_digit)
qed

lemma Itoa_inj: "Itoa m = Itoa n \<longleftrightarrow> m = n"
  by (metis dec_value_Itoa)

lemma takeWhile_digits:
  "\<not> is_digit c \<Longrightarrow> takeWhile is_digit (Itoa n @ c # r) = Itoa n"
  "\<not> is_digit c \<Longrightarrow> dropWhile is_digit (Itoa n @ c # r) = c # r"
  using Itoa_digits [of n] by (simp_all add: takeWhile_append dropWhile_append list_all_iff)

text \<open>\<open>strconv.ParseUint\<close> in base 10 for a number of \<open>w\<close> bits.\<close>

definition ParseUint :: "nat \<Rightarrow> bytes \<Rightarrow> nat option" where
  "ParseUint w s = (if s = [] \<or> \<not> list_all is_digit s \<or> dec_value s \<ge> 2 ^ w then None else Some (dec_value s))"

lemma ParseUint_Itoa: "n < 2 ^ w \<Longrightarrow> ParseUint w (Itoa n) = Some n"
  by (simp add: ParseUint_def Itoa_digits)

text \<open>\<open>strconv.FormatInt\<close> and \<open>strconv.ParseInt\<close> in base 10, for \<open>int64\<close>.\<close>

definition FormatInt :: "int \<Rightarrow> bytes" where
  "FormatInt i = (if i < 0 then 45 # Itoa (nat (- i)) else Itoa (nat i))"

definition ParseInt :: "bytes \<Rightarrow> int option" where
  "ParseInt s =
     (let neg = (s \<noteq> [] \<and> hd s = 45);
          ds = (if s \<noteq> [] \<and> (hd s = 45 \<or> hd s = 43) then tl s else s)
      in case ParseUint 64 ds of None \<Rightarrow> None
         | Some n \<Rightarrow> if \<not> neg \<and> n \<ge> 2 ^ 63 \<or> neg \<and> n > 2 ^ 63 then None
                     else Some (if neg then - int n else int n))"

lemma not_sign_digit: "is_digit d \<Longrightarrow> d \<noteq> 45 \<and> d \<noteq> 43"
  by (auto simp: is_digit_def)

lemma ParseInt_FormatInt:
  assumes "- (2 ^ 63) \<le> i" and "i < 2 ^ 63"
  shows "ParseInt (FormatInt i) = Some i"
proof (cases "i < 0")
  case True
  then have "nat (- i) < 2 ^ 64" "nat (- i) \<le> 2 ^ 63" using assms(1) by (simp_all add: nat_less_iff nat_le_iff)
  then show ?thesis using True by (simp add: ParseInt_def FormatInt_def ParseUint_Itoa Let_def)
next
  case False
  then have n: "nat i < 2 ^ 64" "nat i < 2 ^ 63" using assms(2) by (simp_all add: nat_less_iff)
  obtain d ds where d: "Itoa (nat i) = d # ds" "is_digit d"
    using Itoa_digits [of "nat i"] Itoa_ne [of "nat i"] by (cases "Itoa (nat i)") auto
  have "ParseUint 64 (d # ds) = Some (nat i)" using ParseUint_Itoa [OF n(1)] d(1) by simp
  then show ?thesis using False n not_sign_digit [OF d(2)] by (simp add: ParseInt_def FormatInt_def d(1) Let_def)
qed

lemma FormatInt_inj: "FormatInt i = FormatInt j \<longleftrightarrow> i = j"
proof -
  have "45 # Itoa m \<noteq> Itoa n" "Itoa n \<noteq> 45 # Itoa m" for m n
    using Itoa_digits [of n] by (auto simp: is_digit_def dest: sym)
  then show ?thesis by (auto simp: FormatInt_def Itoa_inj)
qed

subsection \<open>Bencoded values\<close>

datatype bval = BInt int | BStr bytes | BList "bval list" | BDict "(bytes \<times> bval) list"

definition benc_int :: "int \<Rightarrow> bytes" where
  "benc_int i = str ''i'' @ (if i < 0 then str ''-'' else []) @ Itoa (nat \<bar>i\<bar>) @ str ''e''"

definition benc_str :: "bytes \<Rightarrow> bytes" where
  "benc_str s = Itoa (length s) @ str '':'' @ s"

primrec benc :: "bval \<Rightarrow> bytes" where
  "benc (BInt i) = benc_int i"
| "benc (BStr s) = benc_str s"
| "benc (BList vs) = str ''l'' @ concat (map benc vs) @ str ''e''"
| "benc (BDict kvs) = str ''d'' @ concat (map (\<lambda>(k, b). benc_str k @ b) (map (map_prod id benc) kvs)) @ str ''e''"

subsection \<open>A decoder\<close>

definition bdec_num :: "bytes \<Rightarrow> (nat \<times> bytes) option" where
  "bdec_num bs = (let ds = takeWhile is_digit bs in if ds = [] then None else Some (dec_value ds, dropWhile is_digit bs))"

definition bdec_int :: "bytes \<Rightarrow> (int \<times> bytes) option" where
  "bdec_int bs =
     (let neg = (case bs of b # _ \<Rightarrow> b = 45 | [] \<Rightarrow> False) in
      case bdec_num (if neg then tl bs else bs) of
        Some (n, e # r) \<Rightarrow> if e = 101 then Some (if neg then - int n else int n, r) else None
      | _ \<Rightarrow> None)"

definition bdec_str :: "bytes \<Rightarrow> (bytes \<times> bytes) option" where
  "bdec_str bs =
     (case bdec_num bs of
        Some (n, c # r) \<Rightarrow> if c = 58 \<and> n \<le> length r then Some (take n r, drop n r) else None
      | _ \<Rightarrow> None)"

text \<open>The decoder takes its recursion depth as an argument; the length of the input is enough.\<close>

fun bdec :: "nat \<Rightarrow> bytes \<Rightarrow> (bval \<times> bytes) option"
  and bdec_items :: "nat \<Rightarrow> bytes \<Rightarrow> (bval list \<times> bytes) option"
  and bdec_pairs :: "nat \<Rightarrow> bytes \<Rightarrow> ((bytes \<times> bval) list \<times> bytes) option" where
  "bdec 0 bs = None"
| "bdec (Suc n) bs =
     (case bs of [] \<Rightarrow> None
      | b # r \<Rightarrow>
          if b = 105 then map_option (map_prod BInt id) (bdec_int r)
          else if b = 108 then map_option (map_prod BList id) (bdec_items n r)
          else if b = 100 then map_option (map_prod BDict id) (bdec_pairs n r)
          else map_option (map_prod BStr id) (bdec_str bs))"
| "bdec_items 0 bs = None"
| "bdec_items (Suc n) bs =
     (case bs of [] \<Rightarrow> None
      | b # r \<Rightarrow>
          if b = 101 then Some ([], r)
          else case bdec n bs of None \<Rightarrow> None
               | Some (v, r') \<Rightarrow> map_option (map_prod ((#) v) id) (bdec_items n r'))"
| "bdec_pairs 0 bs = None"
| "bdec_pairs (Suc n) bs =
     (case bs of [] \<Rightarrow> None
      | b # r \<Rightarrow>
          if b = 101 then Some ([], r)
          else case bdec_str bs of None \<Rightarrow> None
               | Some (k, r') \<Rightarrow>
                   (case bdec n r' of None \<Rightarrow> None
                    | Some (v, r'') \<Rightarrow> map_option (map_prod ((#) (k, v)) id) (bdec_pairs n r'')))"

definition bdecode :: "bytes \<Rightarrow> bval option" where
  "bdecode bs = (case bdec (Suc (length bs)) bs of Some (v, []) \<Rightarrow> Some v | _ \<Rightarrow> None)"

subsection \<open>Round trip\<close>

lemma bdec_num_Itoa: "\<not> is_digit c \<Longrightarrow> bdec_num (Itoa n @ c # r) = Some (n, c # r)"
  by (simp add: bdec_num_def Let_def takeWhile_digits)

lemma not_digit [simp]: "\<not> is_digit 58" "\<not> is_digit 101" "\<not> is_digit 45"
  by (simp_all add: is_digit_def)

lemma bdec_str_benc [simp]: "bdec_str (benc_str s @ r) = Some (s, r)"
  using bdec_num_Itoa [of 58 "length s" "s @ r"] by (simp add: bdec_str_def benc_str_def of_char_def)

lemma hd_Itoa: "\<exists>d ds. Itoa n = d # ds \<and> is_digit d"
  using Itoa_digits [of n] by (cases "Itoa n") auto

lemma bdec_int_benc: "bdec_int (tl (benc_int i @ r)) = Some (i, r)"
proof -
  obtain d ds where d: "Itoa (nat \<bar>i\<bar>) = d # ds" "is_digit d" using hd_Itoa by blast
  then have "d \<noteq> 45" by (auto simp: is_digit_def)
  then show ?thesis
    using bdec_num_Itoa [of 101 "nat \<bar>i\<bar>" r] d
    by (simp add: bdec_int_def benc_int_def of_char_def Let_def)
qed

lemma hd_benc_str: "\<exists>d ds. benc_str s = d # ds \<and> is_digit d"
  using hd_Itoa [of "length s"] by (auto simp: benc_str_def)

lemma digit_tags: "is_digit d \<Longrightarrow> d \<noteq> 105 \<and> d \<noteq> 108 \<and> d \<noteq> 100 \<and> d \<noteq> 101"
  by (auto simp: is_digit_def)

lemma benc_ne: "1 \<le> length (benc v)" "hd (benc v) \<noteq> 101"
proof -
  have "1 \<le> length (benc v) \<and> hd (benc v) \<noteq> 101"
  proof (cases v)
    case (BStr s)
    obtain b bs where "benc_str s = b # bs" "is_digit b" using hd_benc_str by blast
    then show ?thesis using BStr digit_tags by simp
  qed (simp_all add: benc_int_def of_char_def)
  then show "1 \<le> length (benc v)" "hd (benc v) \<noteq> 101" by simp_all
qed

lemma bdec_items_benc:
  assumes "\<And>v n r. v \<in> set vs \<Longrightarrow> length (benc v) \<le> n \<Longrightarrow> bdec n (benc v @ r) = Some (v, r)"
  shows "length (concat (map benc vs)) < n \<Longrightarrow> bdec_items n (concat (map benc vs) @ 101 # r) = Some (vs, r)"
  using assms
proof (induction vs arbitrary: n)
  case Nil
  then show ?case by (cases n) simp_all
next
  case (Cons v vs)
  obtain k where n: "n = Suc k" using Cons.prems(1) by (cases n) simp_all
  obtain b bs where b: "benc v = b # bs" "b \<noteq> 101" using benc_ne [of v] by (cases "benc v") simp_all
  have 1: "bdec k (benc v @ concat (map benc vs) @ 101 # r) = Some (v, concat (map benc vs) @ 101 # r)"
    using Cons.prems n by (intro Cons.prems(2)) simp_all
  have 2: "bdec_items k (concat (map benc vs) @ 101 # r) = Some (vs, r)"
    using Cons.prems n benc_ne(1) [of v] by (intro Cons.IH) (auto simp del: One_nat_def)
  show ?case using 1 2 b n by simp
qed

lemma bdec_pairs_benc:
  assumes "\<And>k v n r. (k, v) \<in> set kvs \<Longrightarrow> length (benc v) \<le> n \<Longrightarrow> bdec n (benc v @ r) = Some (v, r)"
  shows "length (concat (map (\<lambda>(k, v). benc_str k @ benc v) kvs)) < n \<Longrightarrow>
    bdec_pairs n (concat (map (\<lambda>(k, v). benc_str k @ benc v) kvs) @ 101 # r) = Some (kvs, r)"
  using assms
proof (induction kvs arbitrary: n)
  case Nil
  then show ?case by (cases n) simp_all
next
  case (Cons kv kvs)
  obtain k v where kv: "kv = (k, v)" by (cases kv)
  obtain m where n: "n = Suc m" using Cons.prems(1) by (cases n) simp_all
  obtain b bs where b: "benc_str k = b # bs" "b \<noteq> 101" using hd_benc_str digit_tags by blast
  let ?rest = "concat (map (\<lambda>(k, v). benc_str k @ benc v) kvs) @ 101 # r"
  have 0: "bdec_str (benc_str k @ benc v @ ?rest) = Some (k, benc v @ ?rest)" by simp
  have 1: "bdec m (benc v @ ?rest) = Some (v, ?rest)"
    using Cons.prems n kv by (intro Cons.prems(2) [of k]) simp_all
  have 2: "bdec_pairs m ?rest = Some (kvs, r)"
    using Cons.prems n benc_ne(1) [of v] kv by (intro Cons.IH) (auto simp del: One_nat_def)
  show ?case using 0 1 2 b n kv by simp
qed

lemma benc_BDict: "benc (BDict kvs) = str ''d'' @ concat (map (\<lambda>(k, v). benc_str k @ benc v) kvs) @ str ''e''"
  by (simp add: case_prod_unfold comp_def map_prod_def)

lemma bdec_benc: "length (benc v) \<le> n \<Longrightarrow> bdec n (benc v @ r) = Some (v, r)"
proof (induction v arbitrary: n r)
  case (BInt i)
  then obtain k where "n = Suc k" using benc_ne(1) [of "BInt i"] by (cases n) simp_all
  then show ?case using bdec_int_benc [of i r] by (simp add: benc_int_def of_char_def)
next
  case (BStr s)
  then obtain k where n: "n = Suc k" using benc_ne(1) [of "BStr s"] by (cases n) simp_all
  obtain b bs where b: "benc_str s = b # bs" "is_digit b" using hd_benc_str by blast
  show ?case using n b digit_tags [OF b(2)] bdec_str_benc [of s r] by simp
next
  case (BList vs)
  then obtain k where n: "n = Suc k" using benc_ne(1) [of "BList vs"] by (cases n) simp_all
  then have "bdec_items k (concat (map benc vs) @ 101 # r) = Some (vs, r)"
    using BList by (intro bdec_items_benc) simp_all
  then show ?case using n by (simp add: of_char_def)
next
  case (BDict kvs)
  then obtain k where n: "n = Suc k" using benc_ne(1) [of "BDict kvs"] by (cases n) simp_all
  have "length (concat (map (\<lambda>(k, v). benc_str k @ benc v) kvs)) < k"
    using BDict.prems n unfolding benc_BDict by simp
  then have "bdec_pairs k (concat (map (\<lambda>(k, v). benc_str k @ benc v) kvs) @ 101 # r) = Some (kvs, r)"
    using BDict.IH by (intro bdec_pairs_benc) (auto intro: BDict.IH)
  then show ?case using n unfolding benc_BDict by (simp add: of_char_def)
qed

lemma bdecode_benc [simp]: "bdecode (benc v) = Some v"
  using bdec_benc [of v "Suc (length (benc v))" "[]"] by (simp add: bdecode_def)

lemma benc_inj: "benc v = benc w \<longleftrightarrow> v = w"
  by (metis bdecode_benc option.inject)

end
