(* ===== verification/NetipText.thy ===== *)
theory NetipText
  imports Netip Bencode
begin

section \<open>Addresses as text: \<open>net/netip\<close> parsing and printing\<close>

text \<open>
  \<open>netip.ParseAddr\<close>, \<open>netip.ParseAddrPort\<close> and \<open>Addr.String\<close>, as the standard library has
  them. The tracker never looks at the text of a parse error, so failing is \<open>None\<close>.
\<close>

subsection \<open>Dotted IPv4\<close>

text \<open>
  The loop of \<open>parseIPv4Fields\<close>: the byte before the current one, the value and the number of
  digits of the current field, and the fields before it.
\<close>

fun ipv4_fields :: "bytes \<Rightarrow> byte option \<Rightarrow> nat \<Rightarrow> nat \<Rightarrow> bytes \<Rightarrow> bytes option" where
  "ipv4_fields [] prev val digLen fs = (if length fs < 3 then None else Some (fs @ [of_nat val]))"
| "ipv4_fields (c # cs) prev val digLen fs =
     (if is_digit c
      then if digLen = 1 \<and> val = 0 then None
           else let val' = val * 10 + (unat c - 48)
                in if val' > 255 then None else ipv4_fields cs (Some c) val' (digLen + 1) fs
      else if c = 46
      then if prev = None \<or> cs = [] \<or> prev = Some 46 then None
           else if length fs = 3 then None
           else ipv4_fields cs (Some c) 0 0 (fs @ [of_nat val])
      else None)"

definition parseIPv4 :: "bytes \<Rightarrow> addr option" where
  "parseIPv4 s = map_option (\<lambda>f. AddrV4 (be_word f)) (ipv4_fields s None 0 0 [])"

definition string4 :: "u32 \<Rightarrow> bytes" where
  "string4 w = Itoa (unat (v4_byte w 0)) @ [46] @ Itoa (unat (v4_byte w 1)) @ [46] @
     Itoa (unat (v4_byte w 2)) @ [46] @ Itoa (unat (v4_byte w 3))"

subsection \<open>IPv6\<close>

fun hex_group :: "bytes \<Rightarrow> nat \<Rightarrow> nat \<Rightarrow> (nat \<times> nat \<times> bytes) option" where
  "hex_group [] off acc = Some (off, acc, [])"
| "hex_group (c # cs) off acc =
     (case fromHexChar c of
        None \<Rightarrow> Some (off, acc, c # cs)
      | Some d \<Rightarrow>
          if off > 3 then None
          else if acc * 16 + unat d > 0xFFFF then None
          else hex_group cs (off + 1) (acc * 16 + unat d))"

text \<open>
  The loop of \<open>parseIPv6\<close> over colon-separated groups: the rest of the text, the bytes so far
  and the position of the ellipsis.
\<close>

function ipv6_loop :: "bytes \<Rightarrow> bytes \<Rightarrow> nat option \<Rightarrow> (bytes \<times> bytes \<times> nat option) option" where
  "ipv6_loop s ip ellipsis =
     (if length ip \<ge> 16 then Some (s, ip, ellipsis)
      else case hex_group s 0 0 of None \<Rightarrow> None
      | Some (off, acc, rest) \<Rightarrow>
          if off = 0 then None
          else if rest \<noteq> [] \<and> hd rest = 46
          then if ellipsis = None \<and> length ip \<noteq> 12 then None
               else if length ip + 4 > 16 then None
               else (case ipv4_fields s None 0 0 [] of None \<Rightarrow> None | Some f \<Rightarrow> Some ([], ip @ f, ellipsis))
          else
            let ip' = ip @ be_bytes 2 (of_nat acc :: u16) in
            case rest of [] \<Rightarrow> Some ([], ip', ellipsis)
            | c # r \<Rightarrow>
                if c \<noteq> 58 then None
                else if r = [] then None
                else if hd r = 58
                then if ellipsis \<noteq> None then None
                     else if tl r = [] then Some ([], ip', Some (length ip'))
                     else ipv6_loop (tl r) ip' (Some (length ip'))
                else ipv6_loop r ip' ellipsis)"
  by auto
termination by (relation "measure (\<lambda>(s, ip, e). 16 - length ip)") auto

declare ipv6_loop.simps [simp del]

definition parseIPv6_body :: "bytes \<Rightarrow> bytes \<Rightarrow> addr option" where
  "parseIPv6_body s zn =
     (let lead = (take 2 s = [58, 58]);
          s' = (if lead then drop 2 s else s)
      in if lead \<and> s' = [] then Some (AddrV6 0 zn)
      else case ipv6_loop s' [] (if lead then Some 0 else None) of None \<Rightarrow> None
           | Some (r, ip, ellipsis) \<Rightarrow>
               if r \<noteq> [] then None
               else if length ip < 16
               then (case ellipsis of None \<Rightarrow> None
                     | Some e \<Rightarrow> Some (AddrV6 (be_word (take e ip @ replicate (16 - length ip) 0 @ drop e ip)) zn))
               else if ellipsis \<noteq> None then None
               else Some (AddrV6 (be_word ip) zn))"

definition parseIPv6 :: "bytes \<Rightarrow> addr option" where
  "parseIPv6 s =
     (if 37 \<in> set s
      then let zn = tl (dropWhile (\<lambda>b. b \<noteq> 37) s)
           in if zn = [] then None else parseIPv6_body (takeWhile (\<lambda>b. b \<noteq> 37) s) zn
      else parseIPv6_body s [])"

fun ParseAddr_scan :: "bytes \<Rightarrow> bytes \<Rightarrow> addr option" where
  "ParseAddr_scan s [] = None"
| "ParseAddr_scan s (c # cs) =
     (if c = 46 then parseIPv4 s
      else if c = 58 then parseIPv6 s
      else if c = 37 then None
      else ParseAddr_scan s cs)"

definition ParseAddr :: "bytes \<Rightarrow> addr option" where
  "ParseAddr s = ParseAddr_scan s s"

definition groups6 :: "128 word \<Rightarrow> u16 list" where
  "groups6 w = map (\<lambda>i. ucast (drop_bit (112 - 16 * i) w)) [0..<8]"

definition appendHex :: "u16 \<Rightarrow> bytes" where
  "appendHex x =
     (let d = (\<lambda>k. hex_digit (ucast (drop_bit (4 * k) x AND 15))) in
      (if x \<ge> 0x1000 then [d 3] else []) @ (if x \<ge> 0x100 then [d 2] else []) @
      (if x \<ge> 0x10 then [d 1] else []) @ [d 0])"

text \<open>The longest run of at least two zero groups, the first of them.\<close>

fun zero_run :: "u16 list \<Rightarrow> nat list \<Rightarrow> nat \<times> nat \<Rightarrow> nat \<times> nat" where
  "zero_run gs [] (zs, ze) = (zs, ze)"
| "zero_run gs (i # is) (zs, ze) =
     (let j = i + length (takeWhile (\<lambda>g. g = 0) (drop i gs)) in
      zero_run gs is (if j - i \<ge> 2 \<and> j - i > ze - zs then (i, j) else (zs, ze)))"

function string6_loop :: "u16 list \<Rightarrow> nat \<Rightarrow> nat \<Rightarrow> nat \<Rightarrow> bytes" where
  "string6_loop gs zs ze i =
     (if i \<ge> 8 then []
      else if i = zs
      then [58, 58] @ (if ze \<ge> 8 \<or> ze < zs then [] else appendHex (gs ! ze) @ string6_loop gs zs ze (ze + 1))
      else (if i > 0 then [58] else []) @ appendHex (gs ! i) @ string6_loop gs zs ze (i + 1))"
  by auto
termination by (relation "measure (\<lambda>(gs, zs, ze, i). 8 - i)") auto

declare string6_loop.simps [simp del]

definition with_zone :: "bytes \<Rightarrow> bytes" where
  "with_zone z = (if z = [] then [] else 37 # z)"

fun Addr_String :: "addr \<Rightarrow> bytes" where
  "Addr_String AddrZero = str ''invalid IP''"
| "Addr_String (AddrV4 w) = string4 w"
| "Addr_String (AddrV6 w z) =
     (if Is4In6 (AddrV6 w z) then str ''::ffff:'' @ string4 (ucast w) @ with_zone z
      else let (zs, ze) = zero_run (groups6 w) [0..<8] (255, 255)
           in string6_loop (groups6 w) zs ze 0 @ with_zone z)"

subsection \<open>Address and port\<close>

definition split_last_colon :: "bytes \<Rightarrow> (bytes \<times> bytes) option" where
  "split_last_colon s =
     (if 58 \<in> set s
      then Some (rev (tl (dropWhile (\<lambda>b. b \<noteq> 58) (rev s))), rev (takeWhile (\<lambda>b. b \<noteq> 58) (rev s)))
      else None)"

definition ParseAddrPort :: "bytes \<Rightarrow> addrport option" where
  "ParseAddrPort s =
     (case split_last_colon s of None \<Rightarrow> None
      | Some (ip, port) \<Rightarrow>
          if ip = [] \<or> port = [] then None
          else
            let v6 = (hd ip = 91) in
            if v6 \<and> (length ip < 2 \<or> last ip \<noteq> 93) then None
            else
              (case ParseUint 16 port of None \<Rightarrow> None
               | Some p \<Rightarrow>
                   (case ParseAddr (if v6 then butlast (tl ip) else ip) of None \<Rightarrow> None
                    | Some a \<Rightarrow> if v6 \<and> Is4 a \<or> \<not> v6 \<and> Is6 a then None
                                else Some \<lparr>ap_addr = a, ap_port = of_nat p\<rparr>)))"

text \<open>\<open>AddrPort{}\<close>, the value next to an error.\<close>

definition AddrPort_zero :: addrport where
  "AddrPort_zero = \<lparr>ap_addr = AddrZero, ap_port = 0\<rparr>"

subsection \<open>Round trip\<close>

lemma ipv4_field_digit:
  assumes "n < 10" and "\<not> (k = 1 \<and> v = 0)" and "v * 10 + n \<le> 255"
  shows "ipv4_fields ((48 + of_nat n) # cs) prev v k fs = ipv4_fields cs (Some (48 + of_nat n)) (v * 10 + n) (Suc k) fs"
  using assms by (auto simp: is_digit_of_nat unat_digit Let_def)

lemma ipv4_field_Itoa:
  assumes "n < 256"
  shows "\<exists>d k. is_digit d \<and> ipv4_fields (Itoa n @ r) prev 0 0 fs = ipv4_fields r (Some d) n k fs"
proof -
  consider "n < 10" | "10 \<le> n" "n < 100" | "100 \<le> n" by linarith
  then show ?thesis
  proof cases
    case 1
    then show ?thesis using ipv4_field_digit [of n 0 0] is_digit_of_nat [of n] by (subst Itoa.simps) fastforce
  next
    case 2
    then have "Itoa n = [48 + of_nat (n div 10), 48 + of_nat (n mod 10)]"
      by (subst Itoa.simps, subst Itoa.simps) simp
    moreover have "n div 10 < 10" "n div 10 \<noteq> 0" "n mod 10 < 10" "n div 10 * 10 + n mod 10 = n" using 2 by auto
    ultimately have "ipv4_fields (Itoa n @ r) prev 0 0 fs = ipv4_fields r (Some (48 + of_nat (n mod 10))) n (Suc (Suc 0)) fs"
      using assms ipv4_field_digit [of "n div 10" 0 0] ipv4_field_digit [of "n mod 10" "Suc 0" "n div 10"]
      by (simp del: ipv4_fields.simps)
    then show ?thesis using is_digit_of_nat [of "n mod 10"] by fastforce
  next
    case 3
    then have "\<not> n div 10 < 10" "n div 10 div 10 < 10" "\<not> n < 10" using assms by auto
    then have "Itoa n = [48 + of_nat (n div 10 div 10), 48 + of_nat (n div 10 mod 10), 48 + of_nat (n mod 10)]"
      by (subst Itoa.simps, subst Itoa.simps, subst Itoa.simps) simp
    moreover have "n div 10 div 10 < 10" "n div 10 div 10 \<noteq> 0" "n div 10 mod 10 < 10" "n mod 10 < 10"
      "n div 10 div 10 * 10 + n div 10 mod 10 = n div 10" "n div 10 * 10 + n mod 10 = n"
      using 3 assms by auto
    ultimately have "ipv4_fields (Itoa n @ r) prev 0 0 fs =
        ipv4_fields r (Some (48 + of_nat (n mod 10))) n (Suc (Suc (Suc 0))) fs"
      using assms ipv4_field_digit [of "n div 10 div 10" 0 0]
        ipv4_field_digit [of "n div 10 mod 10" "Suc 0" "n div 10 div 10"]
        ipv4_field_digit [of "n mod 10" "Suc (Suc 0)" "n div 10"]
      by (simp del: ipv4_fields.simps)
    then show ?thesis using is_digit_of_nat [of "n mod 10"] by fastforce
  qed
qed

lemma ipv4_field_dot:
  assumes "n < 256" and "cs \<noteq> []" and "length fs < 3"
  shows "ipv4_fields (Itoa n @ 46 # cs) prev 0 0 fs = ipv4_fields cs (Some 46) 0 0 (fs @ [of_nat n])"
proof -
  obtain d k where d: "is_digit d" "ipv4_fields (Itoa n @ 46 # cs) prev 0 0 fs = ipv4_fields (46 # cs) (Some d) n k fs"
    using ipv4_field_Itoa [OF assms(1)] by blast
  then have "d \<noteq> 46" by (auto simp: is_digit_def)
  then show ?thesis using d assms by (simp add: is_digit_def)
qed

lemma ipv4_field_end:
  assumes "n < 256" and "length fs = 3"
  shows "ipv4_fields (Itoa n) prev 0 0 fs = Some (fs @ [of_nat n])"
proof -
  obtain d k where "ipv4_fields (Itoa n @ []) prev 0 0 fs = ipv4_fields [] (Some d) n k fs"
    using ipv4_field_Itoa [OF assms(1)] by blast
  then show ?thesis using assms by simp
qed

lemma ipv4_fields_string4: "ipv4_fields (string4 w) None 0 0 [] = Some (be_bytes 4 w)"
proof -
  have b: "unat (v4_byte w i) < 256" for i using unsigned_less [of "v4_byte w i"] by simp
  have "be_bytes 4 w = map (v4_byte w) [0, 1, 2, 3]"
    by (simp add: v4_byte_def numeral_eq_Suc)
  then show ?thesis
    by (simp add: string4_def ipv4_field_dot ipv4_field_end b del: ipv4_fields.simps)
qed

lemma parseIPv4_string4: "parseIPv4 (string4 w) = Some (AddrV4 w)"
  by (simp add: parseIPv4_def ipv4_fields_string4 be_word_be_bytes_full)

lemma ParseAddr_scan_digits: "list_all is_digit ds \<Longrightarrow> ParseAddr_scan s (ds @ r) = ParseAddr_scan s r"
  by (induction ds) (auto simp: is_digit_def)

lemma ParseAddr_string4: "ParseAddr (string4 w) = Some (AddrV4 w)"
proof -
  have "ParseAddr_scan s (string4 w) = parseIPv4 s" for s
    unfolding string4_def by (simp add: ParseAddr_scan_digits [OF Itoa_digits])
  then show ?thesis by (simp add: ParseAddr_def parseIPv4_string4)
qed

definition is_hex :: "byte \<Rightarrow> bool" where
  "is_hex b \<longleftrightarrow> fromHexChar b \<noteq> None"

lemma not_hex [simp]: "\<not> is_hex 58" "\<not> is_hex 46" "\<not> is_hex 37"
  by (simp_all add: is_hex_def fromHexChar_def)

lemma unat_nibble: "unat (ucast (drop_bit (4 * k) (x :: u16) AND 15) :: byte) = unat x div 16 ^ k mod 16"
proof -
  have "drop_bit (4 * k) x AND 15 = take_bit 4 (drop_bit (4 * k) x)"
    using take_bit_eq_mask [of 4 "drop_bit (4 * k) x"] by (simp add: mask_eq_exp_minus_1)
  moreover have "unat x mod 65536 = unat x" using unsigned_less [of x, where ?'a = nat] by simp
  ultimately have a: "unat (drop_bit (4 * k) x AND 15) = unat x div 16 ^ k mod 16"
    by (simp only: unsigned_take_bit_eq unsigned_drop_bit_eq) (simp add: take_bit_eq_mod drop_bit_eq_div power_mult)
  then have "unat (drop_bit (4 * k) x AND 15) < 256" by simp
  then have "unat (ucast (drop_bit (4 * k) x AND 15) :: byte) = unat (drop_bit (4 * k) x AND 15)"
    by (simp add: unsigned_ucast_eq take_bit_nat_eq_self)
  with a show ?thesis by simp
qed

lemma fromHexChar_nibble:
  "fromHexChar (hex_digit (ucast (drop_bit (4 * k) (x :: u16) AND 15))) = Some (ucast (drop_bit (4 * k) x AND 15))"
  using unat_nibble [of k x] by (intro fromHexChar_hex_digit) (simp add: word_less_nat_alt)

lemma appendHex_hex: "list_all is_hex (appendHex x)" "appendHex x \<noteq> []"
  using fromHexChar_nibble [of 0 x] fromHexChar_nibble [of 1 x] fromHexChar_nibble [of 2 x] fromHexChar_nibble [of 3 x]
  by (auto simp: appendHex_def Let_def is_hex_def)

lemma hex_group_end: "r = [] \<or> \<not> is_hex (hd r) \<Longrightarrow> hex_group r off acc = Some (off, acc, r)"
  by (cases r) (auto simp: is_hex_def split: option.splits)

lemma hex_group_digit:
  assumes "off \<le> 3" and "acc * 16 + unat x div 16 ^ k mod 16 \<le> 0xFFFF"
  shows "hex_group (hex_digit (ucast (drop_bit (4 * k) (x :: u16) AND 15)) # cs) off acc =
    hex_group cs (Suc off) (acc * 16 + unat x div 16 ^ k mod 16)"
  using assms by (simp add: fromHexChar_nibble unat_nibble)

lemma hex_group_appendHex:
  assumes "r = [] \<or> \<not> is_hex (hd r)"
  shows "hex_group (appendHex x @ r) 0 0 = Some (length (appendHex x), unat x, r)"
proof -
  define a where "a = unat x"
  have a: "a < 65536" unfolding a_def using unsigned_less [of x] by simp
  note hd = hex_group_digit [where x = x, folded a_def]
  have d: "a div 16 ^ 3 mod 16 = a div 4096" "a div 16 ^ 2 mod 16 = a div 256 mod 16" "a div 16 ^ 1 mod 16 = a div 16 mod 16"
    "a div 16 ^ 0 mod 16 = a mod 16" using a by simp_all
  have sums: "a div 4096 * 16 + a div 256 mod 16 = a div 256" "a div 256 * 16 + a div 16 mod 16 = a div 16"
    "a div 16 * 16 + a mod 16 = a"
    using div_mult_mod_eq [of "a div 256" 16] div_mult_mod_eq [of "a div 16" 16] div_mult_mod_eq [of a 16]
    by (simp_all add: div_mult2_eq [symmetric])
  have le: "a div 4096 \<le> 15" "a div 256 \<le> 255" "a div 16 \<le> 4095" using a by auto
  have ge: "x \<ge> 0x1000 \<longleftrightarrow> a \<ge> 4096" "x \<ge> 0x100 \<longleftrightarrow> a \<ge> 256" "x \<ge> 0x10 \<longleftrightarrow> a \<ge> 16"
    by (simp_all add: word_le_nat_alt a_def)
  consider "a \<ge> 4096" | "a < 4096" "a \<ge> 256" | "a < 256" "a \<ge> 16" | "a < 16" by linarith
  then show ?thesis
  proof cases
    case 1
    then show ?thesis
      using hd [of 0 0 3] hd [of "Suc 0" "a div 4096" 2] hd [of "Suc (Suc 0)" "a div 256" 1] hd [of "Suc (Suc (Suc 0))" "a div 16" 0] a d sums le
        hex_group_end [OF assms]
      unfolding appendHex_def Let_def ge a_def [symmetric] by (simp del: hex_group.simps)
  next
    case 2
    then have "a div 4096 = 0" by simp
    then show ?thesis
      using 2 hd [of 0 0 2] hd [of "Suc 0" "a div 256" 1] hd [of "Suc (Suc 0)" "a div 16" 0] a d sums le hex_group_end [OF assms]
      unfolding appendHex_def Let_def ge a_def [symmetric] by (simp del: hex_group.simps)
  next
    case 3
    then have "a div 256 = 0" by simp
    then show ?thesis
      using 3 hd [of 0 0 1] hd [of "Suc 0" "a div 16" 0] a d sums le hex_group_end [OF assms]
      unfolding appendHex_def Let_def ge a_def [symmetric] by (simp del: hex_group.simps)
  next
    case 4
    then have "a div 16 = 0" by simp
    then show ?thesis
      using 4 hd [of 0 0 0] a d sums le hex_group_end [OF assms]
      unfolding appendHex_def Let_def ge a_def [symmetric] by (simp del: hex_group.simps)
  qed
qed

fun join6 :: "u16 list \<Rightarrow> bytes" where
  "join6 [] = []"
| "join6 [g] = appendHex g"
| "join6 (g # h # gs) = appendHex g @ 58 # join6 (h # gs)"

lemma join6_Cons: "hs \<noteq> [] \<Longrightarrow> join6 (g # hs) = appendHex g @ 58 # join6 hs"
  by (cases hs) simp_all

definition gbytes :: "u16 list \<Rightarrow> bytes" where
  "gbytes gs = concat (map (be_bytes 2) gs)"

lemma gbytes_simps [simp]:
  "gbytes [] = []" "gbytes (g # gs) = be_bytes 2 g @ gbytes gs" "gbytes (gs @ hs) = gbytes gs @ gbytes hs"
  by (simp_all add: gbytes_def)

lemma length_gbytes [simp]: "length (gbytes gs) = 2 * length gs"
  by (induction gs) simp_all

lemma hd_appendHex: "\<exists>c cs. appendHex g = c # cs \<and> is_hex c"
  using appendHex_hex [of g] by (cases "appendHex g") auto

lemma hd_join6: "gs \<noteq> [] \<Longrightarrow> \<exists>c cs. join6 gs = c # cs \<and> is_hex c"
proof -
  assume "gs \<noteq> []"
  then obtain g hs where g: "gs = g # hs" by (cases gs) auto
  obtain c cs where "appendHex g = c # cs" "is_hex c" using hd_appendHex by blast
  then show ?thesis unfolding g by (cases hs) auto
qed

lemma is_hex_58: "is_hex c \<Longrightarrow> c \<noteq> 58"
  by auto

lemma ipv6_loop_join6:
  "gs \<noteq> [] \<Longrightarrow> length ip + 2 * length gs \<le> 16 \<Longrightarrow> ipv6_loop (join6 gs) ip e = Some ([], ip @ gbytes gs, e)"
proof (induction gs arbitrary: ip rule: join6.induct)
  case (2 g)
  then show ?case
    using hex_group_appendHex [of "[]" g] appendHex_hex(2) [of g]
    by (subst ipv6_loop.simps) (simp add: Let_def)
next
  case (3 g h gs)
  obtain c cs where c: "join6 (h # gs) = c # cs" "is_hex c" using hd_join6 [of "h # gs"] by auto
  have "ipv6_loop (join6 (h # gs)) (ip @ be_bytes 2 g) e = Some ([], (ip @ be_bytes 2 g) @ gbytes (h # gs), e)"
    using 3 by (intro 3(1)) simp_all
  then show ?case
    using 3 hex_group_appendHex [of "58 # join6 (h # gs)" g] appendHex_hex(2) [of g] c is_hex_58 [OF c(2)]
    by (subst ipv6_loop.simps) (simp add: Let_def)
qed simp

lemma ipv6_loop_ellipsis:
  "gs \<noteq> [] \<Longrightarrow> length ip + 2 * length gs \<le> 16 \<Longrightarrow>
   ipv6_loop (join6 gs @ 58 # 58 # r) ip None =
     (if r = [] then Some ([], ip @ gbytes gs, Some (length ip + 2 * length gs))
      else ipv6_loop r (ip @ gbytes gs) (Some (length ip + 2 * length gs)))"
proof (induction gs arbitrary: ip rule: join6.induct)
  case (2 g)
  then show ?case
    using hex_group_appendHex [of "58 # 58 # r" g] appendHex_hex(2) [of g]
    by (subst ipv6_loop.simps) (simp add: Let_def)
next
  case (3 g h gs)
  obtain c cs where c: "join6 (h # gs) = c # cs" "is_hex c" using hd_join6 [of "h # gs"] by auto
  note IH = 3(1) [of "ip @ be_bytes 2 g"]
  show ?case
    using 3(3) IH hex_group_appendHex [of "58 # join6 (h # gs) @ 58 # 58 # r" g] appendHex_hex(2) [of g] c is_hex_58 [OF c(2)]
    by (subst ipv6_loop.simps) (simp add: Let_def)
qed simp

lemma groups6_length [simp]: "length (groups6 w) = 8"
  by (simp add: groups6_def)

lemma be_bytes_step2: "be_bytes (n + 2) (w :: 128 word) = be_bytes n (drop_bit 16 w) @ be_bytes 2 (ucast w :: u16)"
proof -
  have "(ucast (drop_bit 8 (ucast w :: u16)) :: byte) = ucast (drop_bit 8 w)" "(ucast (ucast w :: u16) :: byte) = ucast w"
    by (auto intro!: bit_word_eqI simp: bit_simps)
  then show ?thesis by (simp add: numeral_2_eq_2)
qed

lemma be_bytes_groups:
  "be_bytes (2 * k) (w :: 128 word) = gbytes (map (\<lambda>i. ucast (drop_bit (16 * (k - 1 - i)) w)) [0..<k])"
proof (induction k arbitrary: w)
  case (Suc k)
  have m: "map (\<lambda>i. ucast (drop_bit (16 * (k - 1 - i)) (drop_bit 16 w)) :: u16) [0..<k] =
      map (\<lambda>i. ucast (drop_bit (16 * (k - i)) w)) [0..<k]"
  proof (rule map_cong [OF refl])
    fix i assume "i \<in> set [0..<k]"
    then have "16 * (k - 1 - i) + 16 = 16 * (k - i)" by auto
    then show "(ucast (drop_bit (16 * (k - 1 - i)) (drop_bit 16 w)) :: u16) = ucast (drop_bit (16 * (k - i)) w)"
      by (simp only: drop_bit_drop_bit)
  qed
  have "2 * Suc k = 2 * k + 2" by simp
  then have "be_bytes (2 * Suc k) w = be_bytes (2 * k) (drop_bit 16 w) @ be_bytes 2 (ucast w :: u16)"
    by (simp only: be_bytes_step2)
  then show ?case unfolding Suc m by simp
qed simp

lemma gbytes_groups6: "gbytes (groups6 w) = be_bytes 16 w"
proof -
  have "groups6 w = map (\<lambda>i. ucast (drop_bit (16 * (8 - 1 - i)) w)) [0..<8]"
    unfolding groups6_def by (rule map_cong [OF refl]) (simp add: diff_mult_distrib2)
  then show ?thesis using be_bytes_groups [of 8 w] by simp
qed

lemma string6_loop_join6:
  assumes "length gs = 8" and "zs \<ge> 8 \<or> zs < i"
  shows "string6_loop gs zs ze i = (if i < 8 then (if i > 0 then [58] else []) @ join6 (drop i gs) else [])"
  using assms
proof (induction gs zs ze i rule: string6_loop.induct)
  case (1 gs zs ze i)
  show ?case
  proof (cases "i < 8")
    case True
    have step: "string6_loop gs zs ze (i + 1) = (if i + 1 < 8 then [58] @ join6 (drop (i + 1) gs) else [])"
      using 1 True by (cases "i = zs") auto
    have d: "drop i gs = gs ! i # drop (i + 1) gs" using True 1(3) by (simp add: Cons_nth_drop_Suc)
    show ?thesis
    proof (cases "i + 1 < 8")
      case True
      then have "drop (i + 1) gs \<noteq> []" using 1(3) by simp
      then show ?thesis using \<open>i < 8\<close> True step 1(4) by (subst string6_loop.simps) (auto simp: d join6_Cons)
    next
      case False
      then have "drop (i + 1) gs = []" using 1(3) by simp
      then show ?thesis using \<open>i < 8\<close> False step 1(4) by (subst string6_loop.simps) (auto simp: d)
    qed
  qed (subst string6_loop.simps, simp)
qed

lemma string6_loop_run:
  assumes "length gs = 8" and "zs < ze" and "ze \<le> 8"
  shows "i \<le> zs \<Longrightarrow> string6_loop gs zs ze i =
     (if i < zs then (if i > 0 then [58] else []) @ join6 (take (zs - i) (drop i gs)) else []) @ [58, 58] @ join6 (drop ze gs)"
proof (induction "zs - i" arbitrary: i)
  case 0
  then have i: "i = zs" by simp
  show ?case
  proof (cases "ze < 8")
    case True
    have d: "drop ze gs = gs ! ze # drop (ze + 1) gs" using True assms(1) by (simp add: Cons_nth_drop_Suc)
    have s: "string6_loop gs zs ze (ze + 1) = (if ze + 1 < 8 then [58] @ join6 (drop (ze + 1) gs) else [])"
      using string6_loop_join6 [OF assms(1), of zs "ze + 1" ze] assms(2) by simp
    show ?thesis
    proof (cases "ze + 1 < 8")
      case True
      then have "drop (ze + 1) gs \<noteq> []" using assms(1) by simp
      then show ?thesis unfolding i using True \<open>ze < 8\<close> s assms by (subst string6_loop.simps) (auto simp: d join6_Cons)
    next
      case False
      then have "drop (ze + 1) gs = []" using assms(1) by simp
      then show ?thesis unfolding i using False \<open>ze < 8\<close> s assms by (subst string6_loop.simps) (auto simp: d)
    qed
  next
    case False
    then show ?thesis unfolding i using assms by (subst string6_loop.simps) auto
  qed
next
  case (Suc n)
  then have lt: "i < zs" "zs < 8" "i < 8" using assms by simp_all
  have d: "drop i gs = gs ! i # drop (i + 1) gs" using lt assms(1) by (simp add: Cons_nth_drop_Suc)
  have t: "zs - i = Suc (zs - (i + 1))" using lt by simp
  have IH: "string6_loop gs zs ze (i + 1) =
     (if i + 1 < zs then [58] @ join6 (take (zs - (i + 1)) (drop (i + 1) gs)) else []) @ [58, 58] @ join6 (drop ze gs)"
    using Suc lt by (subst Suc(1)) auto
  show ?case
  proof (cases "i + 1 < zs")
    case True
    have "take (zs - (i + 1)) (drop (i + 1) gs) \<noteq> []" using lt True assms(1) by simp
    then show ?thesis using lt IH True unfolding t d by (subst string6_loop.simps) (auto simp: join6_Cons)
  next
    case False
    then have "zs - (i + 1) = 0" by simp
    then show ?thesis using lt IH False unfolding t d by (subst string6_loop.simps) auto
  qed
qed

definition run_ok :: "u16 list \<Rightarrow> nat \<times> nat \<Rightarrow> bool" where
  "run_ok gs r \<longleftrightarrow> r = (255, 255) \<or> (fst r < snd r \<and> snd r \<le> length gs \<and>
     take (snd r - fst r) (drop (fst r) gs) = replicate (snd r - fst r) 0)"

lemma zero_run_ok: "run_ok gs r \<Longrightarrow> list_all (\<lambda>i. i \<le> length gs) is \<Longrightarrow> run_ok gs (zero_run gs is r)"
proof (induction gs "is" r rule: zero_run.induct)
  case (2 gs i "is" zs ze)
  let ?t = "takeWhile (\<lambda>g. g = 0) (drop i gs)"
  have l: "length ?t \<le> length gs - i" using length_takeWhile_le [of _ "drop i gs"] by simp
  have z: "take (length ?t) (drop i gs) = replicate (length ?t) 0"
  proof -
    have "take (length ?t) (drop i gs) = ?t" by (metis takeWhile_eq_take)
    moreover have "\<forall>g \<in> set ?t. g = 0" by (auto dest: set_takeWhileD)
    ultimately show ?thesis by (simp add: replicate_eqI)
  qed
  have "run_ok gs (i, i + length ?t)" if "length ?t \<ge> 2"
    using that l z 2(3) by (auto simp: run_ok_def)
  then show ?case using 2 by (auto simp: Let_def)
qed simp

lemma hex_not_sep: "is_hex c \<Longrightarrow> c \<noteq> 58 \<and> c \<noteq> 46 \<and> c \<noteq> 37"
  by auto

lemma hd_join6_lead: "gs \<noteq> [] \<Longrightarrow> take 2 (join6 gs @ r) \<noteq> [58, 58] \<and> join6 gs @ r \<noteq> []"
  using hd_join6 [of gs] hex_not_sep by auto

lemma be_word_zeros [simp]: "be_word (replicate n 0) = (0 :: 'a::len word)"
proof (induction n)
  case (Suc n)
  have "replicate (Suc n) (0 :: byte) = replicate n 0 @ [0]" by (simp add: replicate_append_same)
  then show ?case using Suc by (simp only: be_word_snoc) simp
qed simp

lemma parse_full: "length gs = 8 \<Longrightarrow> parseIPv6_body (join6 gs) z = Some (AddrV6 (be_word (gbytes gs)) z)"
  using hd_join6_lead [of gs "[]"] ipv6_loop_join6 [of gs "[]" None]
  by (cases "gs = []") (simp_all add: parseIPv6_body_def Let_def)

lemma parse_run:
  assumes "length gs + length hs < 8"
  shows "parseIPv6_body (join6 gs @ 58 # 58 # join6 hs) z =
    Some (AddrV6 (be_word (gbytes gs @ replicate (16 - 2 * (length gs + length hs)) 0 @ gbytes hs)) z)"
proof (cases "gs = []")
  case True
  show ?thesis
  proof (cases "hs = []")
    case False
    then have "join6 hs \<noteq> []" using hd_join6_lead [of hs "[]"] by simp
    then show ?thesis
      using True False assms ipv6_loop_join6 [of hs "[]" "Some 0"] by (simp add: parseIPv6_body_def Let_def)
  qed (simp add: True parseIPv6_body_def Let_def)
next
  case False
  note lead = hd_join6_lead [OF False, of "58 # 58 # join6 hs"]
  show ?thesis
  proof (cases "hs = []")
    case True
    then show ?thesis
      using False assms lead ipv6_loop_ellipsis [of gs "[]" "[]"] by (simp add: parseIPv6_body_def Let_def)
  next
    case hs: False
    then have "join6 hs \<noteq> []" using hd_join6_lead [of hs "[]"] by simp
    then show ?thesis
      using hs False assms lead ipv6_loop_ellipsis [of gs "[]" "join6 hs"]
        ipv6_loop_join6 [of hs "gbytes gs" "Some (2 * length gs)"]
      by (simp add: parseIPv6_body_def Let_def)
  qed
qed

lemma gbytes_zeros [simp]: "gbytes (replicate n 0) = replicate (2 * n) 0"
  by (induction n) (simp_all add: numeral_2_eq_2)

text \<open>The text of an IPv6 address without its zone parses back.\<close>

lemma string6_parses:
  fixes w
  defines "s \<equiv> (let (zs, ze) = zero_run (groups6 w) [0..<8] (255, 255) in string6_loop (groups6 w) zs ze 0)"
  shows "parseIPv6_body s z = Some (AddrV6 w z) \<and> 37 \<notin> set s \<and> (\<exists>p r. s = p @ 58 # r \<and> list_all is_hex p)"
proof -
  let ?g = "groups6 w"
  have w: "be_word (gbytes ?g) = w" by (simp add: gbytes_groups6 be_word_be_bytes_full)
  have hexs: "list_all (\<lambda>c. is_hex c \<or> c = 58) (join6 gs)" for gs
  proof (induction gs rule: join6.induct)
    case (2 g) then show ?case using appendHex_hex(1) [of g] by (auto simp: list_all_iff)
  next
    case (3 g h gs) then show ?case using appendHex_hex(1) [of g] by (auto simp: list_all_iff)
  qed simp
  have first: "\<exists>p r'. join6 gs @ 58 # 58 # r = p @ 58 # r' \<and> list_all is_hex p" for gs r
  proof (cases gs rule: join6.cases)
    case 1
    then have "join6 gs @ 58 # 58 # r = [] @ 58 # 58 # r" "list_all is_hex []" by simp_all
    then show ?thesis by blast
  next
    case (2 g) then show ?thesis using appendHex_hex(1) [of g] by auto
  next
    case (3 g h hs)
    then have "join6 gs @ 58 # 58 # r = appendHex g @ 58 # join6 (h # hs) @ 58 # 58 # r" by simp
    then show ?thesis using appendHex_hex(1) [of g] by blast
  qed
  obtain zs ze where r: "zero_run ?g [0..<8] (255, 255) = (zs, ze)" by (cases "zero_run ?g [0..<8] (255, 255)")
  have "run_ok ?g (zs, ze)"
    unfolding r [symmetric] by (rule zero_run_ok) (auto simp: run_ok_def list_all_iff)
  then consider "zs = 255" "ze = 255" |
    "zs < ze" "ze \<le> 8" "take (ze - zs) (drop zs ?g) = replicate (ze - zs) 0"
    by (auto simp: run_ok_def)
  then show ?thesis
  proof cases
    case 1
    then have s: "s = join6 ?g" using string6_loop_join6 [of ?g 255 0 255] by (simp add: s_def r)
    obtain a b hs where abc: "?g = a # b # hs" by (cases ?g rule: join6.cases) (use groups6_length [of w] in auto)
    have "\<exists>p r. s = p @ 58 # r \<and> list_all is_hex p"
      unfolding s abc using appendHex_hex(1) [of a] by auto
    moreover have "37 \<notin> set s" unfolding s using hexs [of ?g] by (auto simp: list_all_iff)
    ultimately show ?thesis unfolding s using parse_full [of ?g z] w by simp
  next
    case 2
    have s: "s = join6 (take zs ?g) @ 58 # 58 # join6 (drop ze ?g)"
      using string6_loop_run [of ?g zs ze 0] 2 by (cases "zs = 0") (simp_all add: s_def r)
    have parts: "take zs ?g @ replicate (ze - zs) 0 @ drop ze ?g = ?g"
    proof -
      have "drop (ze - zs) (drop zs ?g) = drop ze ?g" using 2 by simp
      then show ?thesis using 2(3) by (metis append_take_drop_id)
    qed
    have "16 - 2 * (min 8 zs + (8 - ze)) = 2 * (ze - zs)" using 2 by auto
    then have "gbytes (take zs ?g) @ replicate (16 - 2 * (length (take zs ?g) + length (drop ze ?g))) 0 @ gbytes (drop ze ?g) =
        gbytes (take zs ?g @ replicate (ze - zs) 0 @ drop ze ?g)"
      by simp
    then have "parseIPv6_body s z = Some (AddrV6 w z)"
      unfolding s using parse_run [of "take zs ?g" "drop ze ?g" z] 2(1,2) w by (simp add: parts min_def)
    moreover have "37 \<notin> set s" unfolding s using hexs [of "take zs ?g"] hexs [of "drop ze ?g"] by (auto simp: list_all_iff)
    ultimately show ?thesis using first unfolding s by blast
  qed
qed

lemma ParseAddr_scan_hex: "list_all is_hex p \<Longrightarrow> ParseAddr_scan s (p @ 58 # r) = parseIPv6 s"
  using hex_not_sep by (induction p) auto

lemma parseIPv6_with_zone: "37 \<notin> set s \<Longrightarrow> parseIPv6 (s @ with_zone z) = parseIPv6_body s z"
  by (auto simp: parseIPv6_def with_zone_def Let_def takeWhile_append dropWhile_append takeWhile_eq_all_conv
      split: if_splits)

text \<open>An IPv4-mapped address is printed with its dotted tail.\<close>

lemma mapped_bytes:
  assumes "drop_bit 32 w = (0xFFFF :: 128 word)"
  shows "be_bytes 16 w = replicate 10 0 @ [255, 255] @ be_bytes 4 (ucast w :: u32)"
proof -
  have u: "(ucast (drop_bit n (ucast w :: u32)) :: byte) = ucast (drop_bit n w)" if "n \<le> 24" for n
    using that by (intro bit_word_eqI) (auto simp: bit_simps)
  have four: "be_bytes (n + 4) v = be_bytes n (drop_bit 32 v) @ [ucast (drop_bit 24 v), ucast (drop_bit 16 v), ucast (drop_bit 8 v), ucast v]"
    for n and v :: "'a::len word"
  proof -
    have "n + 4 = Suc (Suc (Suc (Suc n)))" by simp
    then show ?thesis by (simp only: be_bytes.simps drop_bit_drop_bit) simp
  qed
  have "be_bytes (12 + 4) w = be_bytes 12 (drop_bit 32 w) @ be_bytes (0 + 4) (ucast w :: u32)"
    unfolding four using u [of 0] u [of 8] u [of 16] u [of 24] by simp
  moreover have "be_bytes 12 (0xFFFF :: 128 word) = replicate 10 0 @ [255, 255]"
  proof -
    have "be_bytes n (0 :: 128 word) = replicate n 0" for n by (induction n) (simp_all add: replicate_append_same)
    moreover have "12 = Suc (Suc 10)" by simp
    ultimately show ?thesis by (simp only: be_bytes.simps) (simp add: drop_bit_eq_div)
  qed
  ultimately show ?thesis unfolding assms by simp
qed

lemma hex_group_dec:
  assumes "n < 10" and "off \<le> 3" and "acc * 16 + n \<le> 0xFFFF"
  shows "hex_group ((48 + of_nat n) # cs) off acc = hex_group cs (Suc off) (acc * 16 + n)"
proof -
  have "is_digit (48 + of_nat n)" using assms(1) by (rule is_digit_of_nat)
  then have "fromHexChar (48 + of_nat n) = Some (of_nat n)" by (simp add: fromHexChar_def is_digit_def)
  then show ?thesis using assms by (simp add: unat_of_nat)
qed

lemma hex_group_digits:
  assumes "n < 256" and "r = [] \<or> \<not> is_hex (hd r)"
  shows "\<exists>off acc. hex_group (Itoa n @ r) 0 0 = Some (Suc off, acc, r)"
proof -
  note fin = hex_group_end [OF assms(2)]
  consider "n < 10" | "10 \<le> n" "n < 100" | "100 \<le> n" by linarith
  then show ?thesis
  proof cases
    case 1
    then show ?thesis using hex_group_dec [of n 0 0] fin by (subst Itoa.simps) (simp del: hex_group.simps)
  next
    case 2
    then have b: "n div 10 < 10" "n mod 10 < 10" by auto
    then have "Itoa n = [48 + of_nat (n div 10), 48 + of_nat (n mod 10)]"
      using 2 by (subst Itoa.simps, subst Itoa.simps) simp
    then show ?thesis
      using b hex_group_dec [of "n div 10" 0 0] hex_group_dec [of "n mod 10" "Suc 0" "n div 10"] fin
      by (simp del: hex_group.simps)
  next
    case 3
    then have b: "\<not> n div 10 < 10" "n div 10 div 10 < 10" "\<not> n < 10" "n div 10 mod 10 < 10" "n mod 10 < 10"
      using assms(1) by auto
    then have "Itoa n = [48 + of_nat (n div 10 div 10), 48 + of_nat (n div 10 mod 10), 48 + of_nat (n mod 10)]"
      by (subst Itoa.simps, subst Itoa.simps, subst Itoa.simps) simp
    then show ?thesis
      using b hex_group_dec [of "n div 10 div 10" 0 0] fin
        hex_group_dec [of "n div 10 mod 10" "Suc 0" "n div 10 div 10"]
        hex_group_dec [of "n mod 10" "Suc (Suc 0)" "n div 10 div 10 * 16 + n div 10 mod 10"]
      by (simp del: hex_group.simps)
  qed
qed

lemma parse_mapped:
  assumes "drop_bit 32 w = (0xFFFF :: 128 word)"
  shows "parseIPv6_body (str ''::ffff:'' @ string4 (ucast w)) z = Some (AddrV6 w z)"
proof -
  let ?t = "string4 (ucast w)"
  obtain off acc where g: "hex_group ?t 0 0 = Some (Suc off, acc, 46 # drop (Suc (length (Itoa (unat (v4_byte (ucast w) 0))))) ?t)"
    using hex_group_digits [of "unat (v4_byte (ucast w) 0)"
        "46 # drop (Suc (length (Itoa (unat (v4_byte (ucast w) 0))))) ?t"]
      unsigned_less [of "v4_byte (ucast w) 0", where ?'a = nat]
    by (auto simp: string4_def)
  have h: "\<exists>c cs. ?t = c # cs \<and> is_digit c" using hd_Itoa [of "unat (v4_byte (ucast w) 0)"] by (auto simp: string4_def)
  then have h': "?t \<noteq> []" "hd ?t \<noteq> 58" by (auto simp: is_digit_def)
  have 1: "hex_group (str ''ffff:'' @ ?t) 0 0 = Some (4, 0xFFFF, 58 # ?t)"
    by (simp add: of_char_def fromHexChar_def)
  have 2: "ipv6_loop ?t [255, 255] (Some 0) = Some ([], [255, 255] @ be_bytes 4 (ucast w :: u32), Some 0)"
    using g ipv4_fields_string4 [of "ucast w"] by (subst ipv6_loop.simps) simp
  have ff': "be_bytes (Suc (Suc 0)) (0xFFFF :: u16) = [255, 255]" by (simp add: drop_bit_eq_div)
  have ff: "be_bytes 2 (of_nat 0xFFFF :: u16) = [255, 255]"
    unfolding numeral_2_eq_2 of_nat_numeral by (rule ff')
  have 3: "ipv6_loop (str ''ffff:'' @ ?t) [] (Some 0) = Some ([], [255, 255] @ be_bytes 4 (ucast w :: u32), Some 0)"
    unfolding ipv6_loop.simps [of "str ''ffff:'' @ ?t" "[]" "Some 0"] 1 Let_def option.case prod.case ff
    using 2 h' by simp
  have "be_word (replicate 10 0 @ [255, 255] @ be_bytes 4 (ucast w :: u32)) = w"
    unfolding mapped_bytes [OF assms, symmetric] by (simp add: be_word_be_bytes_full)
  then show ?thesis using 3 by (simp add: parseIPv6_body_def Let_def of_char_def)
qed

text \<open>Every valid address, with its zone, is read back from its text.\<close>

lemma ParseAddr_String:
  assumes "addr_IsValid a"
  shows "ParseAddr (Addr_String a) = Some a"
proof (cases a)
  case (AddrV4 w)
  then show ?thesis by (simp add: ParseAddr_string4)
next
  case (AddrV6 w z)
  show ?thesis
  proof (cases "drop_bit 32 w = 0xFFFF")
    case True
    let ?s = "str ''::ffff:'' @ string4 (ucast w)"
    have "37 \<notin> set (Itoa n)" for n using Itoa_digits [of n] by (auto simp: list_all_iff is_digit_def)
    then have "37 \<notin> set ?s" by (simp add: string4_def of_char_def)
    then have "parseIPv6 (?s @ with_zone z) = Some (AddrV6 w z)"
      using parse_mapped [OF True, of z] parseIPv6_with_zone [of ?s z] by (simp del: append_assoc)
    moreover have "ParseAddr_scan t (?s @ with_zone z) = parseIPv6 t" for t by (simp add: of_char_def)
    ultimately show ?thesis using True by (simp add: AddrV6 ParseAddr_def)
  next
    case False
    obtain zs ze where r: "zero_run (groups6 w) [0..<8] (255, 255) = (zs, ze)"
      by (cases "zero_run (groups6 w) [0..<8] (255, 255)")
    let ?s = "string6_loop (groups6 w) zs ze 0"
    have s: "parseIPv6_body ?s z = Some (AddrV6 w z)" "37 \<notin> set ?s" "\<exists>p r. ?s = p @ 58 # r \<and> list_all is_hex p"
      using string6_parses [of w z] by (simp_all add: r)
    then obtain p q where p: "?s = p @ 58 # q" "list_all is_hex p" by blast
    have "ParseAddr_scan t (?s @ with_zone z) = parseIPv6 t" for t
      unfolding p(1) using ParseAddr_scan_hex [OF p(2)] by simp
    then show ?thesis using False r s parseIPv6_with_zone [OF s(2)] by (simp add: AddrV6 ParseAddr_def)
  qed
qed (use assms in simp)

end
