(* ===== verification/HttpParser.thy ===== *)
theory HttpParser
  imports Frontend NetipText
begin

section \<open>Parsing HTTP requests, \<open>frontend/http/params.go\<close> and \<open>parser.go\<close>\<close>

text \<open>
  The HTTP server is the package \<open>fasthttp\<close>, which is not part of the sources: what a
  request gives to the parser are the fields of the record \<open>HttpRequest\<close>, one per method of
  \<open>fasthttp\<close> that is called. \<open>Peek\<close> returns \<open>None\<close> for a nil slice. \<open>GetUint\<close> returns a
  number and an error. The parser is a function of these.
\<close>

subsection \<open>The request\<close>

datatype uint_error = ErrNoArgValue | UintError

record HttpRequest =
  hr_Peek :: "bytes \<Rightarrow> bytes option"
  hr_PeekMulti :: "bytes \<Rightarrow> bytes list"
  hr_GetUint :: "bytes \<Rightarrow> int \<times> uint_error option"
  hr_GetBool :: "bytes \<Rightarrow> bool"
  hr_HeaderPeekAll :: "bytes \<Rightarrow> bytes list"
  hr_RemoteAddr :: bytes
  hr_Path :: bytes

text \<open>\<open>GetUint\<close> is documented to return an unsigned number; \<open>int\<close> has 64 bits.\<close>

definition http_request_ok :: "HttpRequest \<Rightarrow> bool" where
  "http_request_ok r \<longleftrightarrow> (\<forall>k. snd (hr_GetUint r k) = None \<longrightarrow>
     0 \<le> fst (hr_GetUint r k) \<and> fst (hr_GetUint r k) < 2 ^ 63)"

definition http_GetString :: "HttpRequest \<Rightarrow> bytes \<Rightarrow> bytes option" where
  "http_GetString r key = hr_Peek r key"

fun infohashes_of :: "bytes list \<Rightarrow> infohash list" where
  "infohashes_of [] = []"
| "infohashes_of (bb # bs) =
     (case NewInfoHash bb of Inl e \<Rightarrow> infohashes_of bs | Inr ih \<Rightarrow> ih # infohashes_of bs)"

definition http_InfoHashes :: "HttpRequest \<Rightarrow> infohash list" where
  "http_InfoHashes r = infohashes_of (hr_PeekMulti r (str ''info_hash''))"

subsection \<open>Options and errors\<close>

record HttpParseOptions =
  hpo_ParseOptions :: ParseOptions
  hpo_RealIPHeader :: bytes

definition errNoInfoHash :: goerror where
  "errNoInfoHash = ClientError ''no info hash supplied''"
definition errMultipleInfoHashes :: goerror where
  "errMultipleInfoHashes = ClientError ''multiple info hashes supplied''"
definition http_errInvalidPeerID :: goerror where
  "http_errInvalidPeerID = ClientError ''peer ID invalid or not provided''"
definition errInvalidParameterLeft :: goerror where
  "errInvalidParameterLeft = ClientError (''parameter '' @ [CHR 0x27] @ ''left'' @ [CHR 0x27] @ '' invalid or not provided'')"
definition errInvalidParameterDownloaded :: goerror where
  "errInvalidParameterDownloaded =
     ClientError (''parameter '' @ [CHR 0x27] @ ''downloaded'' @ [CHR 0x27] @ '' invalid or not provided'')"
definition errInvalidParameterUploaded :: goerror where
  "errInvalidParameterUploaded =
     ClientError (''parameter '' @ [CHR 0x27] @ ''uploaded'' @ [CHR 0x27] @ '' invalid or not provided'')"
definition errInvalidParameterNumWant :: goerror where
  "errInvalidParameterNumWant =
     ClientError (''parameter '' @ [CHR 0x27] @ ''num want'' @ [CHR 0x27] @ '' invalid or not provided'')"

subsection \<open>Addresses\<close>

definition parseRequestAddress :: "bytes \<Rightarrow> bool \<Rightarrow> RequestAddress" where
  "parseRequestAddress s provided =
     (case ParseAddr s of
        Some a \<Rightarrow> \<lparr>ra_Addr = a, ra_Provided = provided\<rparr>
      | None \<Rightarrow> \<lparr>ra_Addr = AddrZero, ra_Provided = False\<rparr>)"

text \<open>
  \<open>bytes.Split\<close> at a byte. The argument \<open>trim\<close> of the following operations is the Unicode part
  of \<open>bytes.TrimSpace\<close>.
\<close>

fun bytes_Split :: "byte \<Rightarrow> bytes \<Rightarrow> bytes list" where
  "bytes_Split sep [] = [[]]"
| "bytes_Split sep (b # bs) =
     (if b = sep then [] # bytes_Split sep bs
      else (b # hd (bytes_Split sep bs)) # tl (bytes_Split sep bs))"

definition spoofed_ips :: "HttpRequest \<Rightarrow> RequestAddresses" where
  "spoofed_ips r = foldl (\<lambda>aa f. case http_GetString r f of
       None \<Rightarrow> aa | Some ipStr \<Rightarrow> RequestAddresses_Add aa (parseRequestAddress ipStr True))
     [] [str ''ip'', str ''ipv4'', str ''ipv6'']"

definition header_ips :: "(bytes \<Rightarrow> bytes) \<Rightarrow> bytes list \<Rightarrow> RequestAddresses \<Rightarrow> RequestAddresses" where
  "header_ips trim ipValues addresses =
     foldl (\<lambda>aa ipStr. let s = TrimSpace trim ipStr in
         if length s > 0 then RequestAddresses_Add aa (parseRequestAddress s False) else aa)
       addresses (concat (map (bytes_Split 44) ipValues))"

definition requestedIPs :: "(bytes \<Rightarrow> bytes) \<Rightarrow> HttpRequest \<Rightarrow> HttpParseOptions \<Rightarrow> RequestAddresses" where
  "requestedIPs trim r opts =
     (let addresses = (if po_AllowIPSpoofing (hpo_ParseOptions opts) then spoofed_ips r else []);
          ipValues = hr_HeaderPeekAll r (hpo_RealIPHeader opts)
      in if length ipValues > 0 \<and> hpo_RealIPHeader opts \<noteq> []
         then header_ips trim ipValues addresses
         else let addrPort = (case ParseAddrPort (hr_RemoteAddr r) of None \<Rightarrow> AddrPort_zero | Some a \<Rightarrow> a)
              in RequestAddresses_Add addresses \<lparr>ra_Addr = ap_addr addrPort, ra_Provided = False\<rparr>)"

subsection \<open>Announce and scrape\<close>

text \<open>The conversions of the source wrap around: \<open>uint64(n)\<close>, \<open>uint32(n)\<close>, \<open>uint16(n)\<close>.\<close>

definition http_parseAnnounce ::
  "(bytes \<Rightarrow> bytes) \<Rightarrow> (bytes \<Rightarrow> bytes) \<Rightarrow> ((addr \<times> bool) list \<Rightarrow> (addr \<times> bool) list) \<Rightarrow>
   HttpRequest \<Rightarrow> HttpParseOptions \<Rightarrow> goerror + AnnounceRequest" where
  "http_parseAnnounce uni trim ord r opts =
     (let evs = http_GetString r (str ''event'');
          (event, everr) = (case evs of None \<Rightarrow> (EvNone, None) | Some s \<Rightarrow> NewEvent uni s) in
      if everr \<noteq> None then Inl (the everr)
      else let infoHashes = http_InfoHashes r in
      if length infoHashes < 1 then Inl errNoInfoHash
      else if length infoHashes > 1 then Inl errMultipleInfoHashes
      else case NewPeerID (case hr_Peek r (str ''peer_id'') of None \<Rightarrow> [] | Some b \<Rightarrow> b) of
        Inl e \<Rightarrow> Inl http_errInvalidPeerID
      | Inr pid \<Rightarrow>
          let (left, e1) = hr_GetUint r (str ''left'') in
          if e1 \<noteq> None then Inl errInvalidParameterLeft
          else let (downloaded, e2) = hr_GetUint r (str ''downloaded'') in
          if e2 \<noteq> None then Inl errInvalidParameterDownloaded
          else let (uploaded, e3) = hr_GetUint r (str ''uploaded'') in
          if e3 \<noteq> None then Inl errInvalidParameterUploaded
          else let (numwant, e4) = hr_GetUint r (str ''numwant'') in
          if e4 \<noteq> None \<and> e4 \<noteq> Some ErrNoArgValue then Inl errInvalidParameterNumWant
          else let (port, e5) = hr_GetUint r (str ''port'') in
          if e5 \<noteq> None then Inl ErrInvalidPort
          else SanitizeAnnounce ord
            \<lparr>areq_Event = event, areq_InfoHash = hd infoHashes, areq_EventProvided = (evs \<noteq> None),
             areq_NumWantProvided = (e4 = None), areq_NumWant = word_of_int numwant,
             areq_Left = word_of_int left, areq_Downloaded = word_of_int downloaded,
             areq_Uploaded = word_of_int uploaded,
             areq_RequestPeer = \<lparr>rp_ID = pid, rp_Port = word_of_int port,
                                 rp_RequestAddresses = requestedIPs trim r opts\<rparr>,
             areq_Params = Some (http_GetString r)\<rparr>
            (po_MaxNumWant (hpo_ParseOptions opts)) (po_DefaultNumWant (hpo_ParseOptions opts))
            (po_FilterPrivateIPs (hpo_ParseOptions opts)))"

definition http_parseScrape ::
  "(bytes \<Rightarrow> bytes) \<Rightarrow> ((addr \<times> bool) list \<Rightarrow> (addr \<times> bool) list) \<Rightarrow>
   HttpRequest \<Rightarrow> HttpParseOptions \<Rightarrow> goerror + ScrapeRequest" where
  "http_parseScrape trim ord r opts =
     (let infoHashes = http_InfoHashes r in
      if length infoHashes < 1 then Inl errNoInfoHash
      else SanitizeScrape ord
        \<lparr>sreq_RequestAddresses = requestedIPs trim r opts, sreq_InfoHashes = infoHashes,
         sreq_Params = Some (http_GetString r)\<rparr>
        (po_MaxScrapeInfoHashes (hpo_ParseOptions opts)) (po_FilterPrivateIPs (hpo_ParseOptions opts)))"

end
