(* ===== verification/HttpWriter.thy ===== *)
theory HttpWriter
  imports Bittorrent NetipText "HOL-Library.Signed_Division" "HOL-Library.List_Lexorder"
begin

section \<open>Writing HTTP responses, \<open>frontend/http/writer.go\<close>\<close>

text \<open>
  The bytes of the response bodies. \<open>fasthttp.AppendUint\<close>, which is not part of the sources,
  is the argument \<open>au\<close>; it is documented to append the decimal text of a number that is not
  negative, \<open>append_uint_ok\<close>. The writers change the response they are given, and the source
  hands the changed one to the post hooks, so it is a result as well.
\<close>

subsection \<open>Operations\<close>

type_synonym append_uint = "int \<Rightarrow> bytes go"

definition append_uint_ok :: "append_uint \<Rightarrow> bool" where
  "append_uint_ok au \<longleftrightarrow> (\<forall>n. 0 \<le> n \<longrightarrow> au n = Ret (Itoa (nat n)))"

definition error_message :: "goerror \<Rightarrow> bytes" where
  "error_message e = (case e of ClientError m \<Rightarrow> str m | _ \<Rightarrow> str ''mochi internal error'')"

definition http_writeErrorResponse :: "goerror \<Rightarrow> bytes" where
  "http_writeErrorResponse e =
     (let message = error_message e
      in str ''d14:failure reason'' @ Itoa (length message) @ str '':'' @ message @ str ''e'')"

definition port_bytes :: "u16 \<Rightarrow> bytes" where
  "port_bytes port = [ucast (drop_bit 8 port), ucast port]"

definition compactAddresses :: "append_uint \<Rightarrow> Peer list \<Rightarrow> bool \<Rightarrow> bytes go" where
  "compactAddresses au peers v6 =
     (let l = length peers in
      if l > 0
      then let (key, al) = (if v6 then (str ''6:peers6'', 16) else (str ''5:peers'', 4)) in
           bind_go (au ((al + 2) * int l)) (\<lambda>n.
             Ret (key @ n @ str '':'' @
                  concat (map (\<lambda>p. AsSlice (Peer_Addr p) @ port_bytes (Peer_Port p)) peers)))
      else Ret [])"

definition dictAddress :: "append_uint \<Rightarrow> Peer \<Rightarrow> bool \<Rightarrow> bytes go" where
  "dictAddress au peer includePeerID =
     (let addr = Addr_String (Peer_Addr peer) in
      bind_go (au (int (length addr))) (\<lambda>n.
        Ret (str ''d2:ip'' @ n @ str '':'' @ addr @
             (if includePeerID then str ''7:peer id20:'' @ peer_ID peer else []) @
             str ''4:porti'' @ port_bytes (Peer_Port peer) @ str ''ee'')))"

fun dict_addresses :: "append_uint \<Rightarrow> bool \<Rightarrow> Peer list \<Rightarrow> bytes go" where
  "dict_addresses au includePeerID [] = Ret []"
| "dict_addresses au includePeerID (p # ps) =
     bind_go (dictAddress au p includePeerID) (\<lambda>b.
       bind_go (dict_addresses au includePeerID ps) (\<lambda>bs. Ret (b @ bs)))"

text \<open>The second test looks at the interval, not at the minimal one, as in the source.\<close>

definition whole_seconds :: "AnnounceResponse \<Rightarrow> AnnounceResponse" where
  "whole_seconds resp =
     (let r1 = (if aresp_Interval resp > 0
                then resp\<lparr>aresp_Interval := aresp_Interval resp sdiv second\<rparr> else resp)
      in if aresp_Interval r1 > 0
         then r1\<lparr>aresp_MinInterval := aresp_MinInterval r1 sdiv second\<rparr> else r1)"

definition http_writeAnnounceResponse ::
  "append_uint \<Rightarrow> AnnounceResponse \<Rightarrow> bool \<Rightarrow> bool \<Rightarrow> (bytes \<times> AnnounceResponse) go" where
  "http_writeAnnounceResponse au resp0 compact includePeerID =
     (let resp = whole_seconds resp0 in
      bind_go (au (uint (aresp_Complete resp))) (\<lambda>complete.
      bind_go (au (uint (aresp_Incomplete resp))) (\<lambda>incomplete.
      bind_go (au (aresp_Interval resp)) (\<lambda>interval.
      bind_go (au (aresp_MinInterval resp)) (\<lambda>minInterval.
      bind_go
        (if compact
         then bind_go (compactAddresses au (aresp_IPv4Peers resp) False) (\<lambda>v4.
                bind_go (compactAddresses au (aresp_IPv6Peers resp) True) (\<lambda>v6. Ret (v4 @ v6)))
         else bind_go (dict_addresses au includePeerID (aresp_IPv4Peers resp)) (\<lambda>v4.
                bind_go (dict_addresses au includePeerID (aresp_IPv6Peers resp)) (\<lambda>v6.
                  Ret (str ''5:peersl'' @ v4 @ v6 @ str ''e''))))
        (\<lambda>peers.
          Ret (str ''d8:completei'' @ complete @ str ''e10:incompletei'' @ incomplete @
               str ''e8:intervali'' @ interval @ str ''e12:min intervali'' @ minInterval @ str ''e'' @
               peers @ str ''e'', resp)))))))"

definition write_scrape :: "append_uint \<Rightarrow> Scrape \<Rightarrow> bytes go" where
  "write_scrape au scrape =
     bind_go (au (int (length (scr_InfoHash scrape)))) (\<lambda>n.
     bind_go (au (uint (scr_Complete scrape))) (\<lambda>complete.
     bind_go (au (uint (scr_Snatches scrape))) (\<lambda>snatches.
     bind_go (au (uint (scr_Incomplete scrape))) (\<lambda>incomplete.
       Ret (n @ str '':'' @ scr_InfoHash scrape @ str ''d8:completei'' @ complete @
            str ''e10:downloadedi'' @ snatches @ str ''e10:incompletei'' @ incomplete @ str ''ee'')))))"

fun write_scrapes :: "append_uint \<Rightarrow> Scrape list \<Rightarrow> bytes go" where
  "write_scrapes au [] = Ret []"
| "write_scrapes au (s # ss) =
     bind_go (write_scrape au s) (\<lambda>b. bind_go (write_scrapes au ss) (\<lambda>bs. Ret (b @ bs)))"

text \<open>
  \<open>sort.Slice\<close> is not stable: \<open>ord\<close> is the order it leaves equal keys in. A stable sort of an
  arbitrary permutation has the same possible results.
\<close>

definition http_writeScrapeResponse ::
  "(Scrape list \<Rightarrow> Scrape list) \<Rightarrow> append_uint \<Rightarrow> ScrapeResponse \<Rightarrow> (bytes \<times> ScrapeResponse) go" where
  "http_writeScrapeResponse ord au resp =
     (let l = length (sresp_Data resp);
          data = (if l > 1 then sort_key scr_InfoHash (ord (sresp_Data resp)) else sresp_Data resp)
      in bind_go (write_scrapes au data) (\<lambda>b.
           Ret (str ''d5:filesd'' @ b @ str ''ee'', resp\<lparr>sresp_Data := data\<rparr>)))"

end
