(* ===== verification/StorageSpec.thy ===== *)
theory StorageSpec
  imports Bittorrent
begin

section \<open>Package \<open>storage\<close>: configuration, the storage interface and its contract\<close>

text \<open>
  \<open>storage/storage.go\<close>: the sanitizing of the periodic-task configuration, the driver
  registry, \<open>NewStorage\<close>, and the interfaces \<open>DataStorage\<close> and \<open>PeerStorage\<close>. An interface
  value is a record of its methods over a state \<open>'s\<close>. The locales \<open>data_storage\<close> and
  \<open>peer_storage\<close> state what the interface promises to the middleware; a driver is shown to
  satisfy them in the theory of that driver.
\<close>

subsection \<open>Periodic tasks\<close>

definition minute :: duration where
  "minute = 60 * second"

definition DefaultPrometheusReportingInterval :: duration where
  "DefaultPrometheusReportingInterval = second * 1"

definition DefaultGarbageCollectionInterval :: duration where
  "DefaultGarbageCollectionInterval = minute * 3"

definition DefaultPeerLifetime :: duration where
  "DefaultPeerLifetime = minute * 30"

record storage_Config =
  GarbageCollectionInterval :: duration
  PeerLifetime :: duration
  PrometheusReportingInterval :: duration

definition sanitizeGCConfig :: "storage_Config \<Rightarrow> duration \<times> duration" where
  "sanitizeGCConfig c =
     (let gcInterval = (if GarbageCollectionInterval c \<le> 0 then DefaultGarbageCollectionInterval
                        else GarbageCollectionInterval c);
          peerTTL = (if PeerLifetime c \<le> 0 then DefaultPeerLifetime else PeerLifetime c)
      in (gcInterval, peerTTL))"

text \<open>
  The named result is assigned on the default path only, so on the other path it keeps its
  zero value.
\<close>

definition sanitizeStatisticsConfig :: "storage_Config \<Rightarrow> duration" where
  "sanitizeStatisticsConfig c =
     (let statInterval = 0 in
      if PrometheusReportingInterval c < 0 then DefaultPrometheusReportingInterval
      else statInterval)"

subsection \<open>The interfaces\<close>

record Entry =
  e_Key :: bytes
  e_Value :: bytes

definition ErrResourceDoesNotExist :: goerror where
  "ErrResourceDoesNotExist = ClientError ''resource does not exist''"

text \<open>\<open>Load\<close> returns \<open>None\<close> for a nil slice.\<close>

record 's DataStorage =
  ds_Put :: "'s \<Rightarrow> bytes \<Rightarrow> Entry list \<Rightarrow> err \<times> 's"
  ds_Contains :: "'s \<Rightarrow> bytes \<Rightarrow> bytes \<Rightarrow> bool \<times> err"
  ds_Load :: "'s \<Rightarrow> bytes \<Rightarrow> bytes \<Rightarrow> bytes option \<times> err"
  ds_Delete :: "'s \<Rightarrow> bytes \<Rightarrow> bytes list \<Rightarrow> err \<times> 's"
  ds_Preservable :: bool

record 's PeerStorage = "'s DataStorage" +
  ps_PutSeeder :: "'s \<Rightarrow> infohash \<Rightarrow> Peer \<Rightarrow> (err \<times> 's) go"
  ps_DeleteSeeder :: "'s \<Rightarrow> infohash \<Rightarrow> Peer \<Rightarrow> (err \<times> 's) go"
  ps_PutLeecher :: "'s \<Rightarrow> infohash \<Rightarrow> Peer \<Rightarrow> (err \<times> 's) go"
  ps_DeleteLeecher :: "'s \<Rightarrow> infohash \<Rightarrow> Peer \<Rightarrow> (err \<times> 's) go"
  ps_GraduateLeecher :: "'s \<Rightarrow> infohash \<Rightarrow> Peer \<Rightarrow> (err \<times> 's) go"
  ps_AnnouncePeers :: "'s \<Rightarrow> infohash \<Rightarrow> bool \<Rightarrow> int \<Rightarrow> bool \<Rightarrow> (Peer list \<times> err) go"
  ps_ScrapeSwarm :: "'s \<Rightarrow> infohash \<Rightarrow> (u32 \<times> u32 \<times> u32 \<times> err) go"
  ps_Ping :: "'s \<Rightarrow> err"

subsection \<open>The contract\<close>

definition of_family :: "bool \<Rightarrow> Peer set \<Rightarrow> Peer set" where
  "of_family v6 P = {p \<in> P. Is6 (Peer_Addr p) = v6}"

lemma of_family_subset: "of_family v6 P \<subseteq> P"
  by (auto simp: of_family_def)

lemma of_family_Un [simp]: "of_family v6 (A \<union> B) = of_family v6 A \<union> of_family v6 B"
  by (auto simp: of_family_def)

lemma of_family_empty [simp]: "of_family v6 {} = {}"
  by (simp add: of_family_def)

lemma card_of_family: "finite P \<Longrightarrow> card P = card (of_family False P) + card (of_family True P)"
  by (subst card_Un_disjoint [symmetric]) (auto simp: of_family_def intro!: arg_cong [where f = card])

definition benign :: "err \<Rightarrow> bool" where
  "benign e \<longleftrightarrow> e = None \<or> e = Some ErrResourceDoesNotExist"

lemma benign_simps [simp]: "benign None" "benign (Some ErrResourceDoesNotExist)"
  by (simp_all add: benign_def)

text \<open>
  What a client of \<open>PeerStorage\<close> may rely on: for states in \<open>inv\<close>, with \<open>seeders\<close> and
  \<open>leechers\<close> the peers of a swarm, no operation panics, each changes the one swarm it names
  when it is given a peer that the storage can represent (\<open>pok\<close>), and reading returns peers of the swarm and the family asked for, as many as there are up
  to the number wanted, and all of them when they are fewer.
\<close>

locale peer_storage =
  fixes st :: "'s PeerStorage"
    and inv :: "'s \<Rightarrow> bool"
    and sds :: "'s \<Rightarrow> infohash \<Rightarrow> Peer set"
    and lcs :: "'s \<Rightarrow> infohash \<Rightarrow> Peer set"
    and pok :: "Peer \<Rightarrow> bool"
  assumes put_seeder: "\<lbrakk>inv s; is_infohash ih; pok p\<rbrakk> \<Longrightarrow>
      \<exists>s'. ps_PutSeeder st s ih p = Ret (None, s') \<and> inv s' \<and>
           sds s' = (sds s)(ih := insert p (sds s ih)) \<and> lcs s' = lcs s"
    and delete_seeder: "\<lbrakk>inv s; is_infohash ih; pok p\<rbrakk> \<Longrightarrow>
      \<exists>e s'. ps_DeleteSeeder st s ih p = Ret (e, s') \<and> benign e \<and> inv s' \<and>
           sds s' = (sds s)(ih := sds s ih - {p}) \<and> lcs s' = lcs s"
    and put_leecher: "\<lbrakk>inv s; is_infohash ih; pok p\<rbrakk> \<Longrightarrow>
      \<exists>s'. ps_PutLeecher st s ih p = Ret (None, s') \<and> inv s' \<and>
           sds s' = sds s \<and> lcs s' = (lcs s)(ih := insert p (lcs s ih))"
    and delete_leecher: "\<lbrakk>inv s; is_infohash ih; pok p\<rbrakk> \<Longrightarrow>
      \<exists>e s'. ps_DeleteLeecher st s ih p = Ret (e, s') \<and> benign e \<and> inv s' \<and>
           sds s' = sds s \<and> lcs s' = (lcs s)(ih := lcs s ih - {p})"
    and graduate_leecher: "\<lbrakk>inv s; is_infohash ih; pok p\<rbrakk> \<Longrightarrow>
      \<exists>s'. ps_GraduateLeecher st s ih p = Ret (None, s') \<and> inv s' \<and>
           sds s' = (sds s)(ih := insert p (sds s ih)) \<and> lcs s' = (lcs s)(ih := lcs s ih - {p})"
    and announce_peers: "\<lbrakk>inv s; is_infohash ih; 0 < n\<rbrakk> \<Longrightarrow>
      \<exists>ps e. ps_AnnouncePeers st s ih forSeeder n v6 = Ret (ps, e) \<and> benign e \<and>
        set ps \<subseteq> of_family v6 ((if forSeeder then {} else sds s ih) \<union> lcs s ih) \<and>
        int (length ps) = min n (int ((if forSeeder then 0 else card (of_family v6 (sds s ih))) +
                                      card (of_family v6 (lcs s ih)))) \<and>
        (int (length ps) < n \<longrightarrow>
           set ps = of_family v6 ((if forSeeder then {} else sds s ih) \<union> lcs s ih))"
    and scrape_swarm: "\<lbrakk>inv s; is_infohash ih\<rbrakk> \<Longrightarrow>
      \<exists>d. ps_ScrapeSwarm st s ih = Ret (of_nat (card (lcs s ih)), of_nat (card (sds s ih)), d, None)"
    and finite_swarm: "inv s \<Longrightarrow> finite (sds s ih) \<and> finite (lcs s ih)"

text \<open>What a client of \<open>DataStorage\<close> may rely on.\<close>

locale data_storage =
  fixes ds :: "'s DataStorage"
    and dinv :: "'s \<Rightarrow> bool"
  assumes put_ok: "dinv s \<Longrightarrow> \<exists>s'. ds_Put ds s c es = (None, s') \<and> dinv s' \<and>
      (\<forall>c' k. fst (ds_Contains ds s' c' k) \<longleftrightarrow>
         (c' = c \<and> k \<in> e_Key ` set es) \<or> fst (ds_Contains ds s c' k))"
    and delete_ok: "dinv s \<Longrightarrow> \<exists>s'. ds_Delete ds s c ks = (None, s') \<and> dinv s' \<and>
      (\<forall>c' k. fst (ds_Contains ds s' c' k) \<longleftrightarrow>
         fst (ds_Contains ds s c' k) \<and> \<not> (c' = c \<and> k \<in> set ks))"
    and contains_ok: "dinv s \<Longrightarrow> snd (ds_Contains ds s c k) = None"

subsection \<open>Drivers\<close>

text \<open>
  The registry is a map from names to drivers; \<open>RegisterDriver\<close> panics on an empty name, a
  nil driver (\<open>None\<close>) and a name that is taken. What \<open>NewStorage\<close> does with the started
  storage is the schedule it returns: the interval and the peer lifetime of the garbage
  collection and the interval of the statistics, where the storage supports them.
\<close>

definition RegisterDriver ::
  "(bytes, 'd) gomap \<Rightarrow> bytes \<Rightarrow> 'd option \<Rightarrow> (bytes, 'd) gomap go" where
  "RegisterDriver drivers name d =
     (if name = [] then Panic ''storage: could not register a Driver with an empty name''
      else case d of
        None \<Rightarrow> Panic ''storage: could not register a nil Driver''
      | Some b \<Rightarrow>
          (case m_get drivers name of
             Some _ \<Rightarrow> Panic ''storage: RegisterDriver called twice''
           | None \<Rightarrow> Ret (m_set name b drivers)))"

record 'p started_storage =
  started_ps :: 'p
  started_gc :: "(duration \<times> duration) option"
  started_stat :: "duration option"

text \<open>
  \<open>unmarshal\<close> decodes the configuration map (\<open>pkg/conf\<close>); a driver builds the storage;
  \<open>is_gc\<close> and \<open>is_stat\<close> tell whether it implements \<open>GarbageCollector\<close> and
  \<open>StatisticsCollector\<close>.
\<close>

definition NewStorage ::
  "('c \<Rightarrow> goerror + storage_Config) \<Rightarrow> (bytes, 'c \<Rightarrow> goerror + 'p) gomap \<Rightarrow> ('p \<Rightarrow> bool) \<Rightarrow>
   ('p \<Rightarrow> bool) \<Rightarrow> bytes \<Rightarrow> 'c \<Rightarrow> goerror + 'p started_storage" where
  "NewStorage unmarshal drivers is_gc is_stat name cfg =
     (case m_get drivers name of
        None \<Rightarrow> Inl (OtherError ''storage with that name does not exists'')
      | Some b \<Rightarrow>
     (case unmarshal cfg of Inl e \<Rightarrow> Inl e
      | Inr c \<Rightarrow>
     (case b cfg of Inl e \<Rightarrow> Inl e
      | Inr ps \<Rightarrow>
          Inr \<lparr>started_ps = ps,
               started_gc = (if is_gc ps then Some (sanitizeGCConfig c) else None),
               started_stat = (if is_stat ps \<and> sanitizeStatisticsConfig c > 0
                               then Some (sanitizeStatisticsConfig c) else None)\<rparr>)))"

end
