(* ===== verification/Middleware.thy ===== *)
theory Middleware
  imports StorageSpec
begin

section \<open>Package \<open>middleware\<close>: hooks and the tracker logic\<close>

text \<open>
  \<open>middleware/middleware.go\<close> (the registry of hook builders), \<open>middleware/hooks.go\<close> (the
  swarm interaction hook and the response hook) and \<open>middleware/logic.go\<close> (running the hooks
  for an announce and a scrape). A hook is a record of its two handlers over the state \<open>'s\<close>
  of the storage, with an optional \<open>Ping\<close>; a nil hook is \<open>None\<close>. Request and response are
  pointers in the source, so a handler returns them; with an error the caller drops them.
\<close>

subsection \<open>Hooks\<close>

type_synonym 's announce_result =
  "((goerror + ctx \<times> AnnounceRequest \<times> AnnounceResponse) \<times> 's) go"

type_synonym 's scrape_result =
  "((goerror + ctx \<times> ScrapeRequest \<times> ScrapeResponse) \<times> 's) go"

record 's Hook =
  hook_HandleAnnounce :: "ctx \<Rightarrow> AnnounceRequest \<Rightarrow> AnnounceResponse \<Rightarrow> 's \<Rightarrow> 's announce_result"
  hook_HandleScrape :: "ctx \<Rightarrow> ScrapeRequest \<Rightarrow> ScrapeResponse \<Rightarrow> 's \<Rightarrow> 's scrape_result"
  hook_Ping :: "('s \<Rightarrow> err) option"

definition nil_deref :: string where
  "nil_deref = ''invalid memory address or nil pointer dereference''"

definition RegisterBuilder ::
  "(bytes, 'b) gomap \<Rightarrow> bytes \<Rightarrow> 'b option \<Rightarrow> (bytes, 'b) gomap go" where
  "RegisterBuilder builders name b =
     (if name = [] then Panic ''middleware: could not register Builder with an empty name''
      else case b of
        None \<Rightarrow> Panic ''middleware: could not register a nil Builder''
      | Some f \<Rightarrow>
          (case m_get builders name of
             Some _ \<Rightarrow> Panic ''middleware: RegisterBuilder called twice''
           | None \<Rightarrow> Ret (m_set name f builders)))"

text \<open>A configuration is a name and a map; the hooks made before an error are returned with it.\<close>

fun NewHooks ::
  "(bytes, 'c \<Rightarrow> 'p \<Rightarrow> goerror + 'h) gomap \<Rightarrow> (bytes \<times> 'c) list \<Rightarrow> 'p \<Rightarrow> 'h list \<times> err" where
  "NewHooks builders [] storage = ([], None)"
| "NewHooks builders ((name, cfg) # configs) storage =
     (case m_get builders name of
        None \<Rightarrow> ([], Some (OtherError ''hook with that name does not exists''))
      | Some newHook \<Rightarrow>
          (case newHook cfg storage of
             Inl e \<Rightarrow> ([], Some e)
           | Inr h \<Rightarrow> (let (hs, e) = NewHooks builders configs storage in (h # hs, e))))"

subsection \<open>The swarm interaction hook\<close>

definition delete_peer ::
  "'s PeerStorage \<Rightarrow> 's \<Rightarrow> infohash \<Rightarrow> Peer \<Rightarrow> (err \<times> 's) go" where
  "delete_peer st s hash peer =
     bind_go (ps_DeleteSeeder st s hash peer) (\<lambda>(e, s1).
       if e \<noteq> None \<and> e \<noteq> Some ErrResourceDoesNotExist then Ret (e, s1)
       else bind_go (ps_DeleteLeecher st s1 hash peer) (\<lambda>(e', s2).
         if e' \<noteq> None \<and> e' \<noteq> Some ErrResourceDoesNotExist then Ret (e', s2)
         else Ret (None, s2)))"

definition storeFn ::
  "'s PeerStorage \<Rightarrow> AnnounceRequest \<Rightarrow> 's \<Rightarrow> infohash \<Rightarrow> Peer \<Rightarrow> (err \<times> 's) go" where
  "storeFn st req =
     (if areq_Event req = EvStopped then delete_peer st
      else if areq_Event req = EvCompleted then ps_GraduateLeecher st
      else if areq_Left req = 0 then ps_PutSeeder st
      else ps_PutLeecher st)"

fun store_peers ::
  "('s \<Rightarrow> infohash \<Rightarrow> Peer \<Rightarrow> (err \<times> 's) go) \<Rightarrow> infohash \<Rightarrow> Peer list \<Rightarrow> 's \<Rightarrow> (err \<times> 's) go" where
  "store_peers fn ih [] s = Ret (None, s)"
| "store_peers fn ih (p # ps) s =
     bind_go (bind_go (fn s ih p) (\<lambda>(e, s1).
         if e = None \<and> length ih = InfoHashV2Len then fn s1 (TruncateV1 ih) p else Ret (e, s1)))
       (\<lambda>(e, s2). if e \<noteq> None then Ret (e, s2) else store_peers fn ih ps s2)"

definition swarmInteraction_HandleAnnounce ::
  "'s PeerStorage \<Rightarrow> ctx \<Rightarrow> AnnounceRequest \<Rightarrow> AnnounceResponse \<Rightarrow> 's \<Rightarrow> 's announce_result" where
  "swarmInteraction_HandleAnnounce st c req resp s =
     (if ctx_SkipSwarmInteraction c then Ret (Inr (c, req, resp), s)
      else bind_go (store_peers (storeFn st req) (areq_InfoHash req)
                      (RequestPeer_Peers (areq_RequestPeer req)) s) (\<lambda>(e, s').
        Ret (case e of None \<Rightarrow> Inr (c, req, resp) | Some x \<Rightarrow> Inl x, s')))"

definition swarmInteraction_HandleScrape ::
  "ctx \<Rightarrow> ScrapeRequest \<Rightarrow> ScrapeResponse \<Rightarrow> 's \<Rightarrow> 's scrape_result" where
  "swarmInteraction_HandleScrape c req resp s = Ret (Inr (c, req, resp), s)"

definition swarmInteractionHook :: "'s PeerStorage \<Rightarrow> 's Hook" where
  "swarmInteractionHook st =
     \<lparr>hook_HandleAnnounce = swarmInteraction_HandleAnnounce st,
      hook_HandleScrape = swarmInteraction_HandleScrape,
      hook_Ping = None\<rparr>"

subsection \<open>The response hook\<close>

definition response_scrape ::
  "'s PeerStorage \<Rightarrow> 's \<Rightarrow> infohash \<Rightarrow> (u32 \<times> u32 \<times> u32 \<times> err) go" where
  "response_scrape st s ih =
     bind_go (ps_ScrapeSwarm st s ih) (\<lambda>(leechers, seeders, snatched, e).
       if e \<noteq> None then Ret (leechers, seeders, snatched, e)
       else if length ih = InfoHashV2Len
       then bind_go (ps_ScrapeSwarm st s (TruncateV1 ih)) (\<lambda>(l, sd, n, e').
         if e' \<noteq> None then Ret (leechers, seeders, snatched, e')
         else Ret (leechers + l, seeders + sd, snatched + n, None))
       else Ret (leechers, seeders, snatched, None))"

fun fetch_peers ::
  "'s PeerStorage \<Rightarrow> 's \<Rightarrow> bool \<Rightarrow> (infohash \<times> bool) list \<Rightarrow> Peer list \<Rightarrow> int
     \<Rightarrow> (goerror + Peer list) go" where
  "fetch_peers st s seeding [] peers maxPeers = Ret (Inr peers)"
| "fetch_peers st s seeding ((ih, v6) # args) peers maxPeers =
     (if maxPeers \<le> 0 then Ret (Inr peers)
      else bind_go (ps_AnnouncePeers st s ih seeding maxPeers v6) (\<lambda>(storePeers, e).
        case e of
          Some x \<Rightarrow>
            if x \<noteq> ErrResourceDoesNotExist then Ret (Inl x)
            else fetch_peers st s seeding args (peers @ storePeers) (maxPeers - int (length storePeers))
        | None \<Rightarrow>
            fetch_peers st s seeding args (peers @ storePeers) (maxPeers - int (length storePeers))))"

text \<open>The last loop of \<open>appendPeers\<close>: \<open>uniquePeers\<close> is the list of the peers seen.\<close>

fun split_peers ::
  "Peer list \<Rightarrow> Peer list \<Rightarrow> Peer list \<Rightarrow> Peer list \<Rightarrow> Peer list \<times> Peer list" where
  "split_peers [] uniquePeers v4 v6 = (v4, v6)"
| "split_peers (p # ps) uniquePeers v4 v6 =
     (if p \<in> set uniquePeers then split_peers ps uniquePeers v4 v6
      else if Is6 (Peer_Addr p) then split_peers ps (p # uniquePeers) v4 (v6 @ [p])
      else if Is4 (Peer_Addr p) then split_peers ps (p # uniquePeers) (v4 @ [p]) v6
      else split_peers ps uniquePeers v4 v6)"

definition fetch_args :: "AnnounceRequest \<Rightarrow> (infohash \<times> bool) list" where
  "fetch_args req =
     (let ih = areq_InfoHash req;
          v6First = Is6 (GetFirst (rp_RequestAddresses (areq_RequestPeer req)))
      in [(ih, v6First), (ih, \<not> v6First)] @
         (if length ih = InfoHashV2Len
          then [(TruncateV1 ih, v6First), (TruncateV1 ih, \<not> v6First)] else []))"

definition appendPeers ::
  "'s PeerStorage \<Rightarrow> 's \<Rightarrow> AnnounceRequest \<Rightarrow> AnnounceResponse \<Rightarrow> (goerror + AnnounceResponse) go" where
  "appendPeers st s req resp =
     (let seeding = (areq_Left req = 0);
          maxPeers = int (unat (areq_NumWant req));
          v6First = Is6 (GetFirst (rp_RequestAddresses (areq_RequestPeer req)));
          args = fetch_args req;
          peers = (if v6First then aresp_IPv6Peers resp @ aresp_IPv4Peers resp
                   else aresp_IPv4Peers resp @ aresp_IPv6Peers resp);
          l = int (length peers);
          (peers', maxPeers') = (if l > maxPeers then (take (nat maxPeers) peers, 0)
                                 else (peers, maxPeers - l))
      in bind_go (fetch_peers st s seeding args peers' maxPeers') (\<lambda>r.
        case r of Inl e \<Rightarrow> Ret (Inl e)
        | Inr ps \<Rightarrow>
            let (resp1, ps1) =
                  (if ps = []
                   then (if seeding then resp\<lparr>aresp_Complete := aresp_Complete resp + 1\<rparr>
                         else resp\<lparr>aresp_Incomplete := aresp_Incomplete resp + 1\<rparr>,
                         RequestPeer_Peers (areq_RequestPeer req))
                   else (resp, ps));
                (v4, v6) = split_peers ps1 [] [] []
            in Ret (Inr (resp1\<lparr>aresp_IPv4Peers := v4, aresp_IPv6Peers := v6\<rparr>))))"

definition response_HandleAnnounce ::
  "'s PeerStorage \<Rightarrow> ctx \<Rightarrow> AnnounceRequest \<Rightarrow> AnnounceResponse \<Rightarrow> 's \<Rightarrow> 's announce_result" where
  "response_HandleAnnounce st c req resp s =
     (if ctx_SkipResponseHook c then Ret (Inr (c, req, resp), s)
      else bind_go (response_scrape st s (areq_InfoHash req)) (\<lambda>(incomplete, complete, _, e).
        case e of Some x \<Rightarrow> Ret (Inl x, s)
        | None \<Rightarrow>
            bind_go (appendPeers st s req
                (resp\<lparr>aresp_Complete := complete, aresp_Incomplete := incomplete\<rparr>)) (\<lambda>r.
              Ret (case r of Inl x \<Rightarrow> Inl x | Inr resp' \<Rightarrow> Inr (c, req, resp'), s))))"

fun scrape_all ::
  "'s PeerStorage \<Rightarrow> 's \<Rightarrow> infohash list \<Rightarrow> Scrape list \<Rightarrow> (goerror + Scrape list) go" where
  "scrape_all st s [] dat = Ret (Inr dat)"
| "scrape_all st s (infoHash # ihs) dat =
     bind_go (response_scrape st s infoHash) (\<lambda>(incomplete, complete, snatches, e).
       case e of Some x \<Rightarrow> Ret (Inl x)
       | None \<Rightarrow> scrape_all st s ihs (dat @ [\<lparr>scr_InfoHash = infoHash, scr_Snatches = snatches,
                                             scr_Complete = complete, scr_Incomplete = incomplete\<rparr>]))"

definition response_HandleScrape ::
  "'s PeerStorage \<Rightarrow> ctx \<Rightarrow> ScrapeRequest \<Rightarrow> ScrapeResponse \<Rightarrow> 's \<Rightarrow> 's scrape_result" where
  "response_HandleScrape st c req resp s =
     (if ctx_SkipResponseHook c then Ret (Inr (c, req, resp), s)
      else bind_go (scrape_all st s (sreq_InfoHashes req) (sresp_Data resp)) (\<lambda>r.
        Ret (case r of Inl e \<Rightarrow> Inl e | Inr dat \<Rightarrow> Inr (c, req, resp\<lparr>sresp_Data := dat\<rparr>), s)))"

definition responseHook :: "'s PeerStorage \<Rightarrow> 's Hook" where
  "responseHook st =
     \<lparr>hook_HandleAnnounce = response_HandleAnnounce st,
      hook_HandleScrape = response_HandleScrape st,
      hook_Ping = Some (ps_Ping st)\<rparr>"

subsection \<open>The tracker logic\<close>

record 's Logic =
  l_announceInterval :: duration
  l_minAnnounceInterval :: duration
  l_preHooks :: "'s Hook option list"
  l_postHooks :: "'s Hook option list"
  l_pingers :: "('s \<Rightarrow> err) list"

fun pingers_of :: "'s Hook option list \<Rightarrow> ('s \<Rightarrow> err) list" where
  "pingers_of [] = []"
| "pingers_of (None # hs) = pingers_of hs"
| "pingers_of (Some h # hs) =
     (case hook_Ping h of None \<Rightarrow> pingers_of hs | Some ph \<Rightarrow> ph # pingers_of hs)"

definition NewLogic ::
  "duration \<Rightarrow> duration \<Rightarrow> 's PeerStorage \<Rightarrow> 's Hook option list \<Rightarrow> 's Hook option list \<Rightarrow> 's Logic" where
  "NewLogic annInterval minAnnInterval peerStore preHooks postHooks =
     (let pre = preHooks @ [Some (responseHook peerStore)]
      in \<lparr>l_announceInterval = annInterval, l_minAnnounceInterval = minAnnInterval,
          l_preHooks = pre,
          l_postHooks = postHooks @ [Some (swarmInteractionHook peerStore)],
          l_pingers = pingers_of pre\<rparr>)"

fun run_announce ::
  "'s Hook option list \<Rightarrow> ctx \<Rightarrow> AnnounceRequest \<Rightarrow> AnnounceResponse \<Rightarrow> 's \<Rightarrow> 's announce_result" where
  "run_announce [] c req resp s = Ret (Inr (c, req, resp), s)"
| "run_announce (None # hs) c req resp s = Panic nil_deref"
| "run_announce (Some h # hs) c req resp s =
     bind_go (hook_HandleAnnounce h c req resp s) (\<lambda>(r, s').
       case r of Inl e \<Rightarrow> Ret (Inl e, s')
       | Inr (c', req', resp') \<Rightarrow> run_announce hs c' req' resp' s')"

fun run_scrape ::
  "'s Hook option list \<Rightarrow> ctx \<Rightarrow> ScrapeRequest \<Rightarrow> ScrapeResponse \<Rightarrow> 's \<Rightarrow> 's scrape_result" where
  "run_scrape [] c req resp s = Ret (Inr (c, req, resp), s)"
| "run_scrape (None # hs) c req resp s = Panic nil_deref"
| "run_scrape (Some h # hs) c req resp s =
     bind_go (hook_HandleScrape h c req resp s) (\<lambda>(r, s').
       case r of Inl e \<Rightarrow> Ret (Inl e, s')
       | Inr (c', req', resp') \<Rightarrow> run_scrape hs c' req' resp' s')"

definition Logic_HandleAnnounce :: "'s Logic \<Rightarrow> ctx \<Rightarrow> AnnounceRequest \<Rightarrow> 's \<Rightarrow> 's announce_result" where
  "Logic_HandleAnnounce l c req s =
     run_announce (l_preHooks l) c req
       \<lparr>aresp_Complete = 0, aresp_Incomplete = 0, aresp_Interval = l_announceInterval l,
        aresp_MinInterval = l_minAnnounceInterval l, aresp_IPv4Peers = [], aresp_IPv6Peers = []\<rparr> s"

text \<open>The post hooks run for their effect; an error ends them and is logged.\<close>

definition Logic_AfterAnnounce ::
  "'s Logic \<Rightarrow> ctx \<Rightarrow> AnnounceRequest \<Rightarrow> AnnounceResponse \<Rightarrow> 's \<Rightarrow> 's go" where
  "Logic_AfterAnnounce l c req resp s =
     bind_go (run_announce (l_postHooks l) c req resp s) (\<lambda>(_, s'). Ret s')"

definition Logic_HandleScrape :: "'s Logic \<Rightarrow> ctx \<Rightarrow> ScrapeRequest \<Rightarrow> 's \<Rightarrow> 's scrape_result" where
  "Logic_HandleScrape l c req s = run_scrape (l_preHooks l) c req \<lparr>sresp_Data = []\<rparr> s"

definition Logic_AfterScrape ::
  "'s Logic \<Rightarrow> ctx \<Rightarrow> ScrapeRequest \<Rightarrow> ScrapeResponse \<Rightarrow> 's \<Rightarrow> 's go" where
  "Logic_AfterScrape l c req resp s =
     bind_go (run_scrape (l_postHooks l) c req resp s) (\<lambda>(_, s'). Ret s')"

fun ping_all :: "('s \<Rightarrow> err) list \<Rightarrow> 's \<Rightarrow> err" where
  "ping_all [] s = None"
| "ping_all (p # ps) s = (case p s of None \<Rightarrow> ping_all ps s | Some e \<Rightarrow> Some e)"

definition Logic_Ping :: "'s Logic \<Rightarrow> 's \<Rightarrow> err" where
  "Logic_Ping l s = ping_all (l_pingers l) s"

text \<open>
  What a frontend leaves for a goroutine of its own once the response is written, and what
  that goroutine does.
\<close>

datatype after_work =
    AfterAnnounceWork ctx AnnounceRequest AnnounceResponse
  | AfterScrapeWork ctx ScrapeRequest ScrapeResponse

fun run_after :: "'s Logic \<Rightarrow> after_work \<Rightarrow> 's \<Rightarrow> 's go" where
  "run_after l (AfterAnnounceWork c req resp) s = Logic_AfterAnnounce l c req resp s"
| "run_after l (AfterScrapeWork c req resp) s = Logic_AfterScrape l c req resp s"

end
