(* ===== verification/MemoryStorage.thy ===== *)
theory MemoryStorage
  imports StorageSpec
begin

unbundle bit_operations_syntax

section \<open>The in-memory driver, \<open>storage/memory\<close>\<close>

text \<open>
  The sharded peer store and the key-value store, one definition per method. Every method
  of the peer store runs to its end before the next one starts; their interleavings are the subject of the
  theory \<open>MemoryRaces\<close>. The clock value that
  \<open>timecache.NowUnixNano\<close> returns is the argument \<open>now\<close>, the order of a map iteration the
  argument \<open>ord\<close>. An index or slice expression out of range, a division by zero, a negative
  capacity and a call on a closed store are panics.
\<close>

subsection \<open>State\<close>

record swarm =
  seeders :: "(Peer, int) gomap"
  leechers :: "(Peer, int) gomap"

record peerShard =
  swarms :: "(infohash, swarm) gomap"
  numSeeders :: u64
  numLeechers :: u64

type_synonym dataStore = "(bytes, (bytes, bytes) gomap) gomap"

record peerStore =
  store_data :: dataStore
  shards :: "peerShard list"
  closed :: bool

definition decrUint64 :: u64 where
  "decrUint64 = NOT 0"

definition defaultShardCount :: int where
  "defaultShardCount = 1024"

text \<open>\<open>math.MaxInt\<close> on a 64-bit platform.\<close>

definition MaxInt :: int where
  "MaxInt = 2 ^ 63 - 1"

definition memory_Validate :: "int \<Rightarrow> int" where
  "memory_Validate ShardCount =
     (if ShardCount \<le> 0 \<or> ShardCount > MaxInt div 2 then defaultShardCount else ShardCount)"

definition empty_shard :: peerShard where
  "empty_shard = \<lparr>swarms = [], numSeeders = 0, numLeechers = 0\<rparr>"

definition NewPeerStorage :: "int \<Rightarrow> peerStore" where
  "NewPeerStorage provided =
     \<lparr>store_data = [], shards = replicate (nat (memory_Validate provided * 2)) empty_shard,
      closed = False\<rparr>"

subsection \<open>Shards and swarms\<close>

definition shardIndex :: "peerStore \<Rightarrow> infohash \<Rightarrow> bool \<Rightarrow> u32 go" where
  "shardIndex ps infoHash v6 =
     (if length infoHash < 4 then Panic ''slice bounds out of range''
      else let half = (of_nat (length (shards ps)) :: u32) div 2 in
        if half = 0 then Panic ''integer divide by zero''
        else let idx = be_word (take 4 infoHash) mod half in
          Ret (if v6 then idx + of_nat (length (shards ps) div 2) else idx))"

definition the_shard :: "peerStore \<Rightarrow> infohash \<Rightarrow> bool \<Rightarrow> (nat \<times> peerShard) go" where
  "the_shard ps ih v6 =
     bind_go (shardIndex ps ih v6) (\<lambda>i.
       if unat i < length (shards ps) then Ret (unat i, shards ps ! unat i)
       else Panic ''index out of range'')"

definition getOrCreate :: "(infohash, swarm) gomap \<Rightarrow> infohash \<Rightarrow> swarm \<times> (infohash, swarm) gomap" where
  "getOrCreate m k =
     (case m_get m k of
        Some v \<Rightarrow> (v, m)
      | None \<Rightarrow> let v = \<lparr>seeders = [], leechers = []\<rparr> in (v, m_set k v m))"

definition peers_del :: "Peer \<Rightarrow> (Peer, int) gomap \<Rightarrow> bool \<times> (Peer, int) gomap" where
  "peers_del k m = (case m_get m k of Some _ \<Rightarrow> (True, m_del k m) | None \<Rightarrow> (False, m))"

definition closed_panic :: string where
  "closed_panic = ''attempted to interact with stopped memory store''"

subsection \<open>Changing a swarm\<close>

definition PutSeeder :: "int \<Rightarrow> peerStore \<Rightarrow> infohash \<Rightarrow> Peer \<Rightarrow> (err \<times> peerStore) go" where
  "PutSeeder now ps ih p =
     (if closed ps then Panic closed_panic
      else bind_go (the_shard ps ih (Is6 (Peer_Addr p))) (\<lambda>(i, sh).
        let (sw, m) = getOrCreate (swarms sh) ih;
            n = (case m_get (seeders sw) p of None \<Rightarrow> numSeeders sh + 1 | Some _ \<Rightarrow> numSeeders sh);
            sw' = sw\<lparr>seeders := m_set p now (seeders sw)\<rparr>;
            sh' = sh\<lparr>swarms := m_set ih sw' m, numSeeders := n\<rparr>
        in Ret (None, ps\<lparr>shards := (shards ps)[i := sh']\<rparr>)))"

definition DeleteSeeder :: "peerStore \<Rightarrow> infohash \<Rightarrow> Peer \<Rightarrow> (err \<times> peerStore) go" where
  "DeleteSeeder ps ih p =
     (if closed ps then Panic closed_panic
      else bind_go (the_shard ps ih (Is6 (Peer_Addr p))) (\<lambda>(i, sh).
        case m_get (swarms sh) ih of
          None \<Rightarrow> Ret (Some ErrResourceDoesNotExist, ps)
        | Some sw \<Rightarrow>
            let (ok, l) = peers_del p (seeders sw);
                n = (if ok then numSeeders sh + decrUint64 else numSeeders sh);
                sh' = sh\<lparr>swarms := m_set ih (sw\<lparr>seeders := l\<rparr>) (swarms sh), numSeeders := n\<rparr>
            in Ret (None, ps\<lparr>shards := (shards ps)[i := sh']\<rparr>)))"

definition PutLeecher :: "int \<Rightarrow> peerStore \<Rightarrow> infohash \<Rightarrow> Peer \<Rightarrow> (err \<times> peerStore) go" where
  "PutLeecher now ps ih p =
     (if closed ps then Panic closed_panic
      else bind_go (the_shard ps ih (Is6 (Peer_Addr p))) (\<lambda>(i, sh).
        let (sw, m) = getOrCreate (swarms sh) ih;
            n = (case m_get (leechers sw) p of None \<Rightarrow> numLeechers sh + 1 | Some _ \<Rightarrow> numLeechers sh);
            sw' = sw\<lparr>leechers := m_set p now (leechers sw)\<rparr>;
            sh' = sh\<lparr>swarms := m_set ih sw' m, numLeechers := n\<rparr>
        in Ret (None, ps\<lparr>shards := (shards ps)[i := sh']\<rparr>)))"

definition DeleteLeecher :: "peerStore \<Rightarrow> infohash \<Rightarrow> Peer \<Rightarrow> (err \<times> peerStore) go" where
  "DeleteLeecher ps ih p =
     (if closed ps then Panic closed_panic
      else bind_go (the_shard ps ih (Is6 (Peer_Addr p))) (\<lambda>(i, sh).
        case m_get (swarms sh) ih of
          None \<Rightarrow> Ret (Some ErrResourceDoesNotExist, ps)
        | Some sw \<Rightarrow>
            let (ok, l) = peers_del p (leechers sw);
                n = (if ok then numLeechers sh + decrUint64 else numLeechers sh);
                sh' = sh\<lparr>swarms := m_set ih (sw\<lparr>leechers := l\<rparr>) (swarms sh), numLeechers := n\<rparr>
            in Ret (None, ps\<lparr>shards := (shards ps)[i := sh']\<rparr>)))"

definition GraduateLeecher :: "int \<Rightarrow> peerStore \<Rightarrow> infohash \<Rightarrow> Peer \<Rightarrow> (err \<times> peerStore) go" where
  "GraduateLeecher now ps ih p =
     (if closed ps then Panic closed_panic
      else bind_go (the_shard ps ih (Is6 (Peer_Addr p))) (\<lambda>(i, sh).
        let (sw, m) = getOrCreate (swarms sh) ih;
            (ok, l) = peers_del p (leechers sw);
            nl = (if ok then numLeechers sh + decrUint64 else numLeechers sh);
            ns = (case m_get (seeders sw) p of None \<Rightarrow> numSeeders sh + 1 | Some _ \<Rightarrow> numSeeders sh);
            sw' = sw\<lparr>seeders := m_set p now (seeders sw), leechers := l\<rparr>;
            sh' = sh\<lparr>swarms := m_set ih sw' m, numSeeders := ns, numLeechers := nl\<rparr>
        in Ret (None, ps\<lparr>shards := (shards ps)[i := sh']\<rparr>)))"

subsection \<open>Reading a swarm\<close>

text \<open>
  The method \<open>keys\<close> with the function \<open>rangeFn\<close> of \<open>AnnouncePeers\<close>: append the key, count
  \<open>numWant\<close> down, go on while it is positive; true when the iteration was not broken off.
\<close>

fun keys_range :: "Peer list \<Rightarrow> Peer list \<Rightarrow> int \<Rightarrow> bool \<times> Peer list \<times> int" where
  "keys_range [] peers numWant = (True, peers, numWant)"
| "keys_range (k # ks) peers numWant =
     (if numWant - 1 > 0 then keys_range ks (peers @ [k]) (numWant - 1)
      else (False, peers @ [k], numWant - 1))"

definition AnnouncePeers ::
  "((Peer \<times> int) list \<Rightarrow> (Peer \<times> int) list) \<Rightarrow> peerStore \<Rightarrow> infohash \<Rightarrow> bool \<Rightarrow> int \<Rightarrow> bool
     \<Rightarrow> (Peer list \<times> err) go" where
  "AnnouncePeers ord ps ih forSeeder numWant v6 =
     (if closed ps then Panic closed_panic
      else bind_go (the_shard ps ih v6) (\<lambda>(i, sh).
        case m_get (swarms sh) ih of
          None \<Rightarrow> Ret ([], None)
        | Some sw \<Rightarrow>
            if numWant \<le> -2 then Panic ''makeslice: cap out of range''
            else if forSeeder
            then let (_, peers, _) = keys_range (map fst (ord (leechers sw))) [] numWant
                 in Ret (peers, None)
            else let (all, peers, n) = keys_range (map fst (ord (seeders sw))) [] numWant in
              if all
              then let (_, peers', _) = keys_range (map fst (ord (leechers sw))) peers n
                   in Ret (peers', None)
              else Ret (peers, None)))"

definition countPeers :: "peerStore \<Rightarrow> infohash \<Rightarrow> bool \<Rightarrow> (u32 \<times> u32) go" where
  "countPeers ps ih v6 =
     bind_go (the_shard ps ih v6) (\<lambda>(i, sh).
       case m_get (swarms sh) ih of
         None \<Rightarrow> Ret (0, 0)
       | Some sw \<Rightarrow> Ret (of_nat (length (leechers sw)), of_nat (length (seeders sw))))"

definition ScrapeSwarm :: "peerStore \<Rightarrow> infohash \<Rightarrow> (u32 \<times> u32 \<times> u32 \<times> err) go" where
  "ScrapeSwarm ps ih =
     (if closed ps then Panic closed_panic
      else bind_go (countPeers ps ih False) (\<lambda>(leechers, seeders).
           bind_go (countPeers ps ih True) (\<lambda>(l, s).
             Ret (leechers + l, seeders + s, 0, None))))"

subsection \<open>The key-value store\<close>

fun store_entries :: "(bytes, bytes) gomap \<Rightarrow> Entry list \<Rightarrow> (bytes, bytes) gomap" where
  "store_entries m [] = m"
| "store_entries m (p # values) = store_entries (m_set (e_Key p) (e_Value p) m) values"

definition dataStore_Put :: "dataStore \<Rightarrow> bytes \<Rightarrow> Entry list \<Rightarrow> err \<times> dataStore" where
  "dataStore_Put ds c values =
     (if length values > 0
      then let m = (case m_get ds c of None \<Rightarrow> [] | Some m \<Rightarrow> m)
           in (None, m_set c (store_entries m values) ds)
      else (None, ds))"

definition dataStore_Contains :: "dataStore \<Rightarrow> bytes \<Rightarrow> bytes \<Rightarrow> bool \<times> err" where
  "dataStore_Contains ds c key =
     (case m_get ds c of None \<Rightarrow> (False, None) | Some m \<Rightarrow> (m_get m key \<noteq> None, None))"

definition dataStore_Load :: "dataStore \<Rightarrow> bytes \<Rightarrow> bytes \<Rightarrow> bytes option \<times> err" where
  "dataStore_Load ds c key =
     (case m_get ds c of None \<Rightarrow> (None, None) | Some m \<Rightarrow> (m_get m key, None))"

fun delete_keys_of :: "(bytes, bytes) gomap \<Rightarrow> bytes list \<Rightarrow> (bytes, bytes) gomap" where
  "delete_keys_of m [] = m"
| "delete_keys_of m (k # ks) = delete_keys_of (m_del k m) ks"

definition dataStore_Delete :: "dataStore \<Rightarrow> bytes \<Rightarrow> bytes list \<Rightarrow> err \<times> dataStore" where
  "dataStore_Delete ds c ks =
     (if length ks > 0
      then (case m_get ds c of None \<Rightarrow> (None, ds)
            | Some m \<Rightarrow> (None, m_set c (delete_keys_of m ks) ds))
      else (None, ds))"

definition dataStore_Preservable :: bool where
  "dataStore_Preservable = False"

subsection \<open>Garbage collection, statistics, closing\<close>

definition stale_peers ::
  "((Peer \<times> int) list \<Rightarrow> (Peer \<times> int) list) \<Rightarrow> int \<Rightarrow> (Peer, int) gomap \<Rightarrow> Peer list" where
  "stale_peers ord cutoffUnix m = map fst (filter (\<lambda>(p, mtime). mtime \<le> cutoffUnix) (ord m))"

fun del_peers :: "Peer list \<Rightarrow> (Peer, int) gomap \<Rightarrow> u64 \<Rightarrow> (Peer, int) gomap \<times> u64" where
  "del_peers [] m n = (m, n)"
| "del_peers (p # toDel) m n =
     (let (ok, m') = peers_del p m in del_peers toDel m' (if ok then n + decrUint64 else n))"

definition gc_swarm ::
  "((Peer \<times> int) list \<Rightarrow> (Peer \<times> int) list) \<Rightarrow> int \<Rightarrow> peerShard \<Rightarrow> infohash \<Rightarrow> peerShard" where
  "gc_swarm ord cutoffUnix shard ih =
     (case m_get (swarms shard) ih of
        None \<Rightarrow> shard
      | Some sw \<Rightarrow>
          let (l, nl) = del_peers (stale_peers ord cutoffUnix (leechers sw)) (leechers sw)
                          (numLeechers shard);
              (s, ns) = del_peers (stale_peers ord cutoffUnix (seeders sw)) (seeders sw)
                          (numSeeders shard);
              m = m_set ih \<lparr>seeders = s, leechers = l\<rparr> (swarms shard);
              m' = (if (length l OR length s) = 0 then m_del ih m else m)
          in \<lparr>swarms = m', numSeeders = ns, numLeechers = nl\<rparr>)"

definition gc_shard ::
  "((Peer \<times> int) list \<Rightarrow> (Peer \<times> int) list) \<Rightarrow> (infohash list \<Rightarrow> infohash list) \<Rightarrow> int
     \<Rightarrow> peerShard \<Rightarrow> peerShard" where
  "gc_shard ord ordh cutoffUnix shard =
     foldl (gc_swarm ord cutoffUnix) shard (ordh (map fst (swarms shard)))"

definition gc ::
  "((Peer \<times> int) list \<Rightarrow> (Peer \<times> int) list) \<Rightarrow> (infohash list \<Rightarrow> infohash list) \<Rightarrow> int
     \<Rightarrow> peerStore \<Rightarrow> peerStore" where
  "gc ord ordh cutoff ps =
     (if closed ps then ps
      else ps\<lparr>shards := map (gc_shard ord ordh cutoff) (shards ps)\<rparr>)"

text \<open>The three totals that one tick of \<open>ScheduleStatisticsCollection\<close> reports.\<close>

definition collect_statistics :: "peerStore \<Rightarrow> u64 \<times> u64 \<times> u64" where
  "collect_statistics ps =
     foldl (\<lambda>(numInfoHashes, ns, nl) s.
              (numInfoHashes + of_nat (length (swarms s)), ns + numSeeders s, nl + numLeechers s))
       (0, 0, 0) (shards ps)"

definition memory_Ping :: "peerStore \<Rightarrow> err" where
  "memory_Ping ps = None"

definition memory_Close :: "peerStore \<Rightarrow> err \<times> peerStore" where
  "memory_Close ps = (None, ps\<lparr>closed := True\<rparr>)"

text \<open>The interface value \<open>NewPeerStorage\<close> returns, at a clock value and an iteration order.\<close>

definition memory_storage ::
  "int \<Rightarrow> ((Peer \<times> int) list \<Rightarrow> (Peer \<times> int) list) \<Rightarrow> peerStore PeerStorage" where
  "memory_storage now ord =
     \<lparr>ds_Put = (\<lambda>ps c es. let (e, d) = dataStore_Put (store_data ps) c es in (e, ps\<lparr>store_data := d\<rparr>)),
      ds_Contains = (\<lambda>ps. dataStore_Contains (store_data ps)),
      ds_Load = (\<lambda>ps. dataStore_Load (store_data ps)),
      ds_Delete = (\<lambda>ps c ks. let (e, d) = dataStore_Delete (store_data ps) c ks in (e, ps\<lparr>store_data := d\<rparr>)),
      ds_Preservable = dataStore_Preservable,
      ps_PutSeeder = PutSeeder now,
      ps_DeleteSeeder = DeleteSeeder,
      ps_PutLeecher = PutLeecher now,
      ps_DeleteLeecher = DeleteLeecher,
      ps_GraduateLeecher = GraduateLeecher now,
      ps_AnnouncePeers = AnnouncePeers ord,
      ps_ScrapeSwarm = ScrapeSwarm,
      ps_Ping = memory_Ping\<rparr>"

end
