(* ===== verification/MemoryProps.thy ===== *)
theory MemoryProps
  imports MemoryStorage
begin

section \<open>The in-memory driver is correct\<close>

text \<open>
  The invariant of the sharded store (\<open>store_ok\<close>), the registry it implements
  (\<open>abs_store\<close>: for an infohash and a role, the peers with their last-announce times), the
  refinement of the registry by every operation and by the garbage collection, the reading
  operations, the statistics, and the two storage contracts.
\<close>

unbundle bit_operations_syntax

subsection \<open>The invariant of the store\<close>

definition sidx :: "nat \<Rightarrow> infohash \<Rightarrow> bool \<Rightarrow> nat" where
  "sidx n ih v6 = unat (be_word (take 4 ih) :: u32) mod n + (if v6 then n else 0)"

definition swarm_ok :: "bool \<Rightarrow> swarm \<Rightarrow> bool" where
  "swarm_ok v6 sw \<longleftrightarrow> is_gomap (seeders sw) \<and> is_gomap (leechers sw) \<and>
     (\<forall>p \<in> m_keys (seeders sw) \<union> m_keys (leechers sw). Is6 (Peer_Addr p) = v6)"

definition shard_ok :: "nat \<Rightarrow> nat \<Rightarrow> peerShard \<Rightarrow> bool" where
  "shard_ok n i sh \<longleftrightarrow> is_gomap (swarms sh) \<and>
     (\<forall>ih sw. (ih, sw) \<in> set (swarms sh) \<longrightarrow>
        4 \<le> length ih \<and> sidx n ih (n \<le> i) = i \<and> swarm_ok (n \<le> i) sw) \<and>
     numSeeders sh = m_sum (\<lambda>sw. of_nat (length (seeders sw))) (swarms sh) \<and>
     numLeechers sh = m_sum (\<lambda>sw. of_nat (length (leechers sw))) (swarms sh)"

definition half :: "peerStore \<Rightarrow> nat" where
  "half ps = length (shards ps) div 2"

definition store_ok :: "peerStore \<Rightarrow> bool" where
  "store_ok ps \<longleftrightarrow> \<not> closed ps \<and> 0 < half ps \<and> length (shards ps) = 2 * half ps \<and>
     2 * half ps < 2 ^ 32 \<and> (\<forall>i < 2 * half ps. shard_ok (half ps) i (shards ps ! i))"

lemma sidx_less: "0 < n \<Longrightarrow> sidx n ih v6 < 2 * n"
  by (auto simp: sidx_def mult_2 intro: trans_less_add1)

lemma sidx_family: "0 < n \<Longrightarrow> n \<le> sidx n ih v6 \<longleftrightarrow> v6"
  by (auto simp: sidx_def not_le)

lemma shardIndex_eq:
  assumes "length (shards ps) = 2 * n" and "0 < n" and "2 * n < 2 ^ 32" and "4 \<le> length ih"
  shows "\<exists>i. shardIndex ps ih v6 = Ret i \<and> unat i = sidx n ih v6"
proof -
  let ?h = "of_nat (length (shards ps)) div 2 :: u32"
  have un: "unat (of_nat (2 * n) :: u32) = 2 * n"
    using assms(3) by (simp only: unat_of_nat len_num1 len_num0 len_bit0 take_bit_nat_eq_self) simp
  have h: "unat ?h = n" unfolding assms(1) unat_div_distrib un by simp
  have nz: "?h \<noteq> 0" using h assms(2) by force
  have m: "unat (be_word (take 4 ih) mod ?h :: u32) = unat (be_word (take 4 ih) :: u32) mod n"
    by (simp add: unat_mod_distrib h)
  have lt: "unat (be_word (take 4 ih) :: u32) mod n < n" using assms(2) by simp
  have nn: "unat (of_nat n :: u32) = n"
    using assms(3) by (simp add: unat_of_nat take_bit_nat_eq_self)
  have "unat ((be_word (take 4 ih) mod ?h) + (of_nat n :: u32)) =
      unat (be_word (take 4 ih) :: u32) mod n + n"
    using lt assms(3) by (subst unat_add_lem [THEN iffD1]) (simp_all add: m nn)
  then show ?thesis
    using assms nz m by (auto simp: shardIndex_def Let_def sidx_def)
qed

lemma the_shard_eq:
  assumes "store_ok ps" and "4 \<le> length ih"
  shows "the_shard ps ih v6 = Ret (sidx (half ps) ih v6, shards ps ! sidx (half ps) ih v6)"
proof -
  have ok: "length (shards ps) = 2 * half ps" "0 < half ps" "2 * half ps < 2 ^ 32"
    using assms(1) by (auto simp: store_ok_def)
  from shardIndex_eq [OF ok assms(2), of v6] obtain i where
    "shardIndex ps ih v6 = Ret i" "unat i = sidx (half ps) ih v6" by blast
  then show ?thesis
    using sidx_less [OF ok(2), of ih v6] ok(1) by (simp add: the_shard_def)
qed

definition swarm_at :: "peerStore \<Rightarrow> infohash \<Rightarrow> bool \<Rightarrow> swarm option" where
  "swarm_at ps ih v6 =
     (case the_shard ps ih v6 of Panic _ \<Rightarrow> None | Ret (i, sh) \<Rightarrow> m_get (swarms sh) ih)"

lemma swarm_at_eq:
  "store_ok ps \<Longrightarrow> 4 \<le> length ih \<Longrightarrow>
     swarm_at ps ih v6 = m_get (swarms (shards ps ! sidx (half ps) ih v6)) ih"
  by (simp add: swarm_at_def the_shard_eq)

lemma swarm_at_short: "length ih < 4 \<Longrightarrow> swarm_at ps ih v6 = None"
  by (simp add: swarm_at_def the_shard_def shardIndex_def)

lemma swarm_at_ok:
  assumes "store_ok ps" and "swarm_at ps ih v6 = Some sw"
  shows "swarm_ok v6 sw" and "4 \<le> length ih"
proof -
  show l: "4 \<le> length ih" using assms(2) swarm_at_short [of ih ps v6] by (cases "length ih < 4") auto
  let ?i = "sidx (half ps) ih v6"
  have h: "0 < half ps" using assms(1) by (simp add: store_ok_def)
  then have "shard_ok (half ps) ?i (shards ps ! ?i)"
    using assms(1) sidx_less [OF h] by (simp add: store_ok_def)
  moreover have "(ih, sw) \<in> set (swarms (shards ps ! ?i))"
    using assms l by (simp add: swarm_at_eq m_get_Some_in)
  ultimately have "swarm_ok (half ps \<le> ?i) sw" by (auto simp: shard_ok_def)
  then show "swarm_ok v6 sw" using sidx_family [OF h] by simp
qed

text \<open>
  Replacing one swarm, with the counters moved by what the swarm gained or lost, keeps the
  invariant and changes this swarm only.
\<close>

definition swarm_or_empty :: "swarm option \<Rightarrow> swarm" where
  "swarm_or_empty x = (case x of None \<Rightarrow> \<lparr>seeders = [], leechers = []\<rparr> | Some sw \<Rightarrow> sw)"

definition put_swarm :: "peerStore \<Rightarrow> nat \<Rightarrow> infohash \<Rightarrow> swarm \<Rightarrow> peerStore" where
  "put_swarm ps i ih sw' =
     (let sh = shards ps ! i; sw = swarm_or_empty (m_get (swarms sh) ih)
      in ps\<lparr>shards := (shards ps)[i := \<lparr>swarms = m_set ih sw' (swarms sh),
           numSeeders = numSeeders sh + of_nat (length (seeders sw')) - of_nat (length (seeders sw)),
           numLeechers = numLeechers sh + of_nat (length (leechers sw')) - of_nat (length (leechers sw))\<rparr>]\<rparr>)"

lemma half_put_swarm [simp]: "half (put_swarm ps i ih sw') = half ps"
  by (simp add: half_def put_swarm_def Let_def)

lemma shard_ok_set:
  assumes "shard_ok n i sh" and "4 \<le> length ih" and "sidx n ih (n \<le> i) = i"
    and "swarm_ok (n \<le> i) sw'"
  shows "shard_ok n i \<lparr>swarms = m_set ih sw' (swarms sh),
     numSeeders = numSeeders sh + of_nat (length (seeders sw')) -
       of_nat (length (seeders (swarm_or_empty (m_get (swarms sh) ih)))),
     numLeechers = numLeechers sh + of_nat (length (leechers sw')) -
       of_nat (length (leechers (swarm_or_empty (m_get (swarms sh) ih))))\<rparr>"
proof -
  have g: "is_gomap (swarms sh)" using assms(1) by (simp add: shard_ok_def)
  have "4 \<le> length ih' \<and> sidx n ih' (n \<le> i) = i \<and> swarm_ok (n \<le> i) sw"
    if "(ih', sw) \<in> set (m_set ih sw' (swarms sh))" for ih' sw
    using set_m_set [OF g that] assms by (auto simp: shard_ok_def)
  then show ?thesis
    using assms(1) by (auto simp: shard_ok_def m_sum_set swarm_or_empty_def split: option.splits)
qed

lemma put_swarm_ok:
  assumes ok: "store_ok ps" and len: "4 \<le> length ih" and sw: "swarm_ok v6 sw'"
    and i: "i = sidx (half ps) ih v6"
  shows "store_ok (put_swarm ps i ih sw')"
    and "swarm_at (put_swarm ps i ih sw') ih' v6' =
           (if ih' = ih \<and> v6' = v6 then Some sw' else swarm_at ps ih' v6')"
proof -
  let ?ps = "put_swarm ps i ih sw'"
  have h: "0 < half ps" using ok by (simp add: store_ok_def)
  have il: "i < 2 * half ps" and ln: "length (shards ps) = 2 * half ps"
    using i h ok by (auto simp: sidx_less store_ok_def)
  have fam: "half ps \<le> i \<longleftrightarrow> v6" using i h by (simp add: sidx_family)
  have "shard_ok (half ps) i (shards ps ! i)" using ok il by (simp add: store_ok_def)
  then have "shard_ok (half ps) i (shards ?ps ! i)"
    using shard_ok_set [of "half ps" i "shards ps ! i" ih sw'] len sw i fam il ln
    by (simp add: put_swarm_def Let_def)
  moreover have "shards ?ps ! j = shards ps ! j" if "j \<noteq> i" for j
    using that by (simp add: put_swarm_def Let_def)
  ultimately have "\<forall>j < 2 * half ps. shard_ok (half ps) j (shards ?ps ! j)"
    using ok unfolding store_ok_def by metis
  moreover have "length (shards ?ps) = length (shards ps)" "closed ?ps = closed ps"
    by (simp_all add: put_swarm_def Let_def)
  ultimately show ok': "store_ok ?ps"
    using ok by (simp add: store_ok_def)
  show "swarm_at ?ps ih' v6' = (if ih' = ih \<and> v6' = v6 then Some sw' else swarm_at ps ih' v6')"
  proof (cases "4 \<le> length ih'")
    case False
    then show ?thesis using len by (auto simp: swarm_at_short)
  next
    case True
    let ?j = "sidx (half ps) ih' v6'"
    have new: "swarm_at ?ps ih' v6' = m_get (swarms (shards ?ps ! ?j)) ih'"
      using swarm_at_eq [OF ok' True] by simp
    show ?thesis
    proof (cases "?j = i")
      case True
      then have "v6' = v6" using fam sidx_family [OF h] by metis
      moreover have "swarms (shards ?ps ! ?j) = m_set ih sw' (swarms (shards ps ! ?j))"
        using il ln True by (simp add: put_swarm_def Let_def)
      ultimately show ?thesis
        using new swarm_at_eq [OF ok \<open>4 \<le> length ih'\<close>, of v6'] by (simp add: m_get_set)
    next
      case False
      then have "shards ?ps ! ?j = shards ps ! ?j" by (simp add: put_swarm_def Let_def)
      moreover have "\<not> (ih' = ih \<and> v6' = v6)" using False i by blast
      ultimately show ?thesis using new swarm_at_eq [OF ok \<open>4 \<le> length ih'\<close>, of v6'] by auto
    qed
  qed
qed

subsection \<open>The operations as replacements of one swarm\<close>

lemma store_ok_open [simp]: "store_ok ps \<Longrightarrow> closed ps = False"
  by (simp add: store_ok_def)

lemma getOrCreate_eq:
  "fst (getOrCreate m k) = swarm_or_empty (m_get m k)"
  "m_set k v (snd (getOrCreate m k)) = m_set k v m"
  by (simp_all add: getOrCreate_def swarm_or_empty_def Let_def split: option.splits)

lemma add_decrUint64: "n + decrUint64 = n - 1"
  by (simp add: decrUint64_def)

lemma of_nat_length_sum: "(of_nat (length m) :: u64) = m_sum (\<lambda>_. 1) m"
  by (induction m) (auto simp: m_sum_def)

lemma of_nat_length_m_set:
  "(of_nat (length (m_set k v m)) :: u64) =
     (case m_get m k of None \<Rightarrow> of_nat (length m) + 1 | Some _ \<Rightarrow> of_nat (length m))"
  by (simp add: of_nat_length_sum m_sum_set split: option.splits)

lemma of_nat_length_m_del:
  "is_gomap m \<Longrightarrow> (of_nat (length (m_del k m)) :: u64) =
     (case m_get m k of None \<Rightarrow> of_nat (length m) | Some _ \<Rightarrow> of_nat (length m) - 1)"
  by (simp add: of_nat_length_sum m_sum_del split: option.splits)

lemma peers_del_eq:
  "peers_del k m = (m_get m k \<noteq> None, m_del k m)"
  by (cases "m_get m k") (simp_all add: peers_del_def m_del_None)

lemma peerShard_upd:
  "sh\<lparr>swarms := a, numSeeders := b\<rparr> = \<lparr>swarms = a, numSeeders = b, numLeechers = numLeechers sh\<rparr>"
  "sh\<lparr>swarms := a, numLeechers := c\<rparr> = \<lparr>swarms = a, numSeeders = numSeeders sh, numLeechers = c\<rparr>"
  "sh\<lparr>swarms := a, numSeeders := b, numLeechers := c\<rparr> = \<lparr>swarms = a, numSeeders = b, numLeechers = c\<rparr>"
  by simp_all

lemmas op_eq_simps = the_shard_eq swarm_at_eq getOrCreate_eq put_swarm_def Let_def
  case_prod_unfold peers_del_eq of_nat_length_m_set of_nat_length_m_del add_decrUint64
  peerShard_upd

lemma PutSeeder_eq:
  fixes p
  defines "v6 \<equiv> Is6 (Peer_Addr p)"
  assumes "store_ok ps" and "4 \<le> length ih"
  shows "PutSeeder now ps ih p = (let sw = swarm_or_empty (swarm_at ps ih v6) in
     Ret (None, put_swarm ps (sidx (half ps) ih v6) ih (sw\<lparr>seeders := m_set p now (seeders sw)\<rparr>)))"
  using assms by (auto simp: PutSeeder_def op_eq_simps split: option.splits)

lemma PutLeecher_eq:
  fixes p
  defines "v6 \<equiv> Is6 (Peer_Addr p)"
  assumes "store_ok ps" and "4 \<le> length ih"
  shows "PutLeecher now ps ih p = (let sw = swarm_or_empty (swarm_at ps ih v6) in
     Ret (None, put_swarm ps (sidx (half ps) ih v6) ih (sw\<lparr>leechers := m_set p now (leechers sw)\<rparr>)))"
  using assms by (auto simp: PutLeecher_def op_eq_simps split: option.splits)

lemma DeleteSeeder_eq:
  fixes p
  defines "v6 \<equiv> Is6 (Peer_Addr p)"
  assumes "store_ok ps" and "4 \<le> length ih"
  shows "DeleteSeeder ps ih p = (case swarm_at ps ih v6 of
       None \<Rightarrow> Ret (Some ErrResourceDoesNotExist, ps)
     | Some sw \<Rightarrow> Ret (None, put_swarm ps (sidx (half ps) ih v6) ih (sw\<lparr>seeders := m_del p (seeders sw)\<rparr>)))"
proof (cases "swarm_at ps ih v6")
  case None
  then show ?thesis using assms by (simp add: DeleteSeeder_def the_shard_eq swarm_at_eq)
next
  case (Some sw)
  then have "is_gomap (seeders sw)" using swarm_at_ok [OF assms(2) Some] by (simp add: swarm_ok_def)
  then show ?thesis using assms Some
    by (auto simp: DeleteSeeder_def op_eq_simps swarm_or_empty_def split: option.splits)
qed

lemma DeleteLeecher_eq:
  fixes p
  defines "v6 \<equiv> Is6 (Peer_Addr p)"
  assumes "store_ok ps" and "4 \<le> length ih"
  shows "DeleteLeecher ps ih p = (case swarm_at ps ih v6 of
       None \<Rightarrow> Ret (Some ErrResourceDoesNotExist, ps)
     | Some sw \<Rightarrow> Ret (None, put_swarm ps (sidx (half ps) ih v6) ih (sw\<lparr>leechers := m_del p (leechers sw)\<rparr>)))"
proof (cases "swarm_at ps ih v6")
  case None
  then show ?thesis using assms by (simp add: DeleteLeecher_def the_shard_eq swarm_at_eq)
next
  case (Some sw)
  then have "is_gomap (leechers sw)" using swarm_at_ok [OF assms(2) Some] by (simp add: swarm_ok_def)
  then show ?thesis using assms Some
    by (auto simp: DeleteLeecher_def op_eq_simps swarm_or_empty_def split: option.splits)
qed

lemma swarm_ok_at: "store_ok ps \<Longrightarrow> swarm_ok v6 (swarm_or_empty (swarm_at ps ih v6))"
  by (auto simp: swarm_or_empty_def swarm_at_ok split: option.splits) (simp add: swarm_ok_def is_gomap_def m_keys_def)

lemma swarm_ok_maps: "swarm_ok v6 sw \<Longrightarrow> is_gomap (seeders sw)" "swarm_ok v6 sw \<Longrightarrow> is_gomap (leechers sw)"
  by (simp_all add: swarm_ok_def)

lemma GraduateLeecher_eq:
  fixes p
  defines "v6 \<equiv> Is6 (Peer_Addr p)"
  assumes "store_ok ps" and "4 \<le> length ih"
  shows "GraduateLeecher now ps ih p = (let sw = swarm_or_empty (swarm_at ps ih v6) in
     Ret (None, put_swarm ps (sidx (half ps) ih v6) ih
       (sw\<lparr>seeders := m_set p now (seeders sw), leechers := m_del p (leechers sw)\<rparr>)))"
  using assms swarm_ok_at [OF assms(2), of v6 ih, THEN swarm_ok_maps(2)]
  by (auto simp: GraduateLeecher_def op_eq_simps split: option.splits)

subsection \<open>The registry the store implements\<close>

type_synonym registry = "infohash \<Rightarrow> bool \<Rightarrow> Peer \<Rightarrow> int option"

definition abs_store :: "peerStore \<Rightarrow> registry" where
  "abs_store ps ih sd p =
     (case swarm_at ps ih (Is6 (Peer_Addr p)) of None \<Rightarrow> None
      | Some sw \<Rightarrow> m_get (if sd then seeders sw else leechers sw) p)"

definition spec_put :: "bool \<Rightarrow> int \<Rightarrow> infohash \<Rightarrow> Peer \<Rightarrow> registry \<Rightarrow> registry" where
  "spec_put sd now ih p R = (\<lambda>ih' sd' p'. if ih' = ih \<and> sd' = sd \<and> p' = p then Some now else R ih' sd' p')"

definition spec_del :: "bool \<Rightarrow> infohash \<Rightarrow> Peer \<Rightarrow> registry \<Rightarrow> registry" where
  "spec_del sd ih p R = (\<lambda>ih' sd' p'. if ih' = ih \<and> sd' = sd \<and> p' = p then None else R ih' sd' p')"

definition spec_gc :: "int \<Rightarrow> registry \<Rightarrow> registry" where
  "spec_gc cutoff R = (\<lambda>ih sd p. case R ih sd p of None \<Rightarrow> None
                       | Some t \<Rightarrow> if t \<le> cutoff then None else Some t)"

lemma abs_store_empty: "m_get (if sd then seeders (swarm_or_empty (swarm_at ps ih (Is6 (Peer_Addr p))))
    else leechers (swarm_or_empty (swarm_at ps ih (Is6 (Peer_Addr p))))) p = abs_store ps ih sd p"
  by (simp add: abs_store_def swarm_or_empty_def m_get_def split: option.splits)

lemma swarm_ok_upd:
  assumes "swarm_ok (Is6 (Peer_Addr p)) sw"
  shows "swarm_ok (Is6 (Peer_Addr p)) (sw\<lparr>seeders := m_set p t (seeders sw)\<rparr>)"
    and "swarm_ok (Is6 (Peer_Addr p)) (sw\<lparr>leechers := m_set p t (leechers sw)\<rparr>)"
    and "swarm_ok (Is6 (Peer_Addr p)) (sw\<lparr>seeders := m_del p (seeders sw)\<rparr>)"
    and "swarm_ok (Is6 (Peer_Addr p)) (sw\<lparr>leechers := m_del p (leechers sw)\<rparr>)"
    and "swarm_ok (Is6 (Peer_Addr p))
           (sw\<lparr>seeders := m_set p t (seeders sw), leechers := m_del p (leechers sw)\<rparr>)"
  using assms by (auto simp: swarm_ok_def)

definition refines :: "peerStore \<Rightarrow> (err \<times> peerStore) go \<Rightarrow> err \<Rightarrow> registry \<Rightarrow> bool" where
  "refines ps r e R \<longleftrightarrow> (case r of Panic _ \<Rightarrow> False | Ret (e', ps') \<Rightarrow>
     e' = e \<and> store_ok ps' \<and> half ps' = half ps \<and> store_data ps' = store_data ps \<and> abs_store ps' = R)"

lemma put_swarm_abs:
  assumes "store_ok ps" and "4 \<le> length ih" and "swarm_ok (Is6 (Peer_Addr p)) sw'"
    and "\<And>p'. p' \<noteq> p \<Longrightarrow> m_get (seeders sw') p' = m_get (seeders (swarm_or_empty (swarm_at ps ih (Is6 (Peer_Addr p))))) p'"
    and "\<And>p'. p' \<noteq> p \<Longrightarrow> m_get (leechers sw') p' = m_get (leechers (swarm_or_empty (swarm_at ps ih (Is6 (Peer_Addr p))))) p'"
  shows "refines ps (Ret (None, put_swarm ps (sidx (half ps) ih (Is6 (Peer_Addr p))) ih sw')) None
     (\<lambda>ih' sd p'. if ih' = ih \<and> p' = p then m_get (if sd then seeders sw' else leechers sw') p
                  else abs_store ps ih' sd p')"
proof -
  let ?v6 = "Is6 (Peer_Addr p)"
  let ?ps = "put_swarm ps (sidx (half ps) ih ?v6) ih sw'"
  note put = put_swarm_ok [OF assms(1-3) refl]
  have "abs_store ?ps ih' sd p' = (if ih' = ih \<and> p' = p then m_get (if sd then seeders sw' else leechers sw') p
                  else abs_store ps ih' sd p')" for ih' sd p'
  proof (cases "ih' = ih \<and> Is6 (Peer_Addr p') = ?v6 \<and> p' \<noteq> p")
    case True
    then have "abs_store ?ps ih' sd p' = m_get (if sd then seeders sw' else leechers sw') p'"
      by (simp add: abs_store_def put(2))
    also have "\<dots> = abs_store ps ih' sd p'"
      using assms(4,5) [of p'] True abs_store_empty [of sd ps ih p'] by (cases sd) simp_all
    finally show ?thesis using True by simp
  next
    case False
    then show ?thesis by (auto simp: abs_store_def put(2))
  qed
  then have "abs_store ?ps = (\<lambda>ih' sd p'. if ih' = ih \<and> p' = p then m_get (if sd then seeders sw' else leechers sw') p
                  else abs_store ps ih' sd p')" by (intro ext)
  then show ?thesis using put(1) by (simp add: refines_def) (simp add: put_swarm_def Let_def)
qed

lemma swarm_or_empty_maps:
  "m_get (seeders (swarm_or_empty (swarm_at ps ih (Is6 (Peer_Addr p))))) p = abs_store ps ih True p"
  "m_get (leechers (swarm_or_empty (swarm_at ps ih (Is6 (Peer_Addr p))))) p = abs_store ps ih False p"
  using abs_store_empty [of True ps ih p] abs_store_empty [of False ps ih p] by simp_all

lemma put_swarm_refines:
  assumes "store_ok ps" and "4 \<le> length ih" and "swarm_ok (Is6 (Peer_Addr p)) sw'"
    and "\<And>p'. p' \<noteq> p \<Longrightarrow> m_get (seeders sw') p' = m_get (seeders (swarm_or_empty (swarm_at ps ih (Is6 (Peer_Addr p))))) p'"
    and "\<And>p'. p' \<noteq> p \<Longrightarrow> m_get (leechers sw') p' = m_get (leechers (swarm_or_empty (swarm_at ps ih (Is6 (Peer_Addr p))))) p'"
    and "\<And>ih' sd p'. R ih' sd p' = (if ih' = ih \<and> p' = p
           then m_get (if sd then seeders sw' else leechers sw') p else abs_store ps ih' sd p')"
  shows "refines ps (Ret (None, put_swarm ps (sidx (half ps) ih (Is6 (Peer_Addr p))) ih sw')) None R"
proof -
  have "R = (\<lambda>ih' sd p'. if ih' = ih \<and> p' = p
           then m_get (if sd then seeders sw' else leechers sw') p else abs_store ps ih' sd p')"
    by (intro ext assms(6))
  then show ?thesis using put_swarm_abs [OF assms(1-5)] by simp
qed

lemmas refine_simps = spec_put_def spec_del_def swarm_or_empty_maps

lemma PutSeeder_refines:
  assumes "store_ok ps" and "4 \<le> length ih"
  shows "refines ps (PutSeeder now ps ih p) None (spec_put True now ih p (abs_store ps))"
  unfolding PutSeeder_eq [OF assms] Let_def
  by (rule put_swarm_refines [OF assms swarm_ok_upd(1) [OF swarm_ok_at [OF assms(1)]]])
    (auto simp: refine_simps)

lemma PutLeecher_refines:
  assumes "store_ok ps" and "4 \<le> length ih"
  shows "refines ps (PutLeecher now ps ih p) None (spec_put False now ih p (abs_store ps))"
  unfolding PutLeecher_eq [OF assms] Let_def
  by (rule put_swarm_refines [OF assms swarm_ok_upd(2) [OF swarm_ok_at [OF assms(1)]]])
    (auto simp: refine_simps)

lemma GraduateLeecher_refines:
  assumes "store_ok ps" and "4 \<le> length ih"
  shows "refines ps (GraduateLeecher now ps ih p) None (spec_put True now ih p (spec_del False ih p (abs_store ps)))"
  unfolding GraduateLeecher_eq [OF assms] Let_def
  by (rule put_swarm_refines [OF assms swarm_ok_upd(5) [OF swarm_ok_at [OF assms(1)]]])
    (auto simp: refine_simps)

definition swarm_missing :: "peerStore \<Rightarrow> infohash \<Rightarrow> Peer \<Rightarrow> err" where
  "swarm_missing ps ih p =
     (if swarm_at ps ih (Is6 (Peer_Addr p)) = None then Some ErrResourceDoesNotExist else None)"

lemma DeleteSeeder_refines:
  assumes "store_ok ps" and "4 \<le> length ih"
  shows "refines ps (DeleteSeeder ps ih p) (swarm_missing ps ih p) (spec_del True ih p (abs_store ps))"
proof (cases "swarm_at ps ih (Is6 (Peer_Addr p))")
  case None
  then show ?thesis using assms
    by (auto simp: DeleteSeeder_eq refines_def swarm_missing_def spec_del_def abs_store_def fun_eq_iff)
next
  case (Some sw)
  then have err: "swarm_missing ps ih p = None" by (simp add: swarm_missing_def)
  show ?thesis
    unfolding DeleteSeeder_eq [OF assms] err Some option.case
    by (rule put_swarm_refines [OF assms swarm_ok_upd(3) [OF swarm_at_ok(1) [OF assms(1) Some]]])
      (auto simp: spec_del_def swarm_or_empty_def Some abs_store_def)
qed

lemma DeleteLeecher_refines:
  assumes "store_ok ps" and "4 \<le> length ih"
  shows "refines ps (DeleteLeecher ps ih p) (swarm_missing ps ih p) (spec_del False ih p (abs_store ps))"
proof (cases "swarm_at ps ih (Is6 (Peer_Addr p))")
  case None
  then show ?thesis using assms
    by (auto simp: DeleteLeecher_eq refines_def swarm_missing_def spec_del_def abs_store_def fun_eq_iff)
next
  case (Some sw)
  then have err: "swarm_missing ps ih p = None" by (simp add: swarm_missing_def)
  show ?thesis
    unfolding DeleteLeecher_eq [OF assms] err Some option.case
    by (rule put_swarm_refines [OF assms swarm_ok_upd(4) [OF swarm_at_ok(1) [OF assms(1) Some]]])
      (auto simp: spec_del_def swarm_or_empty_def Some abs_store_def)
qed

subsection \<open>Garbage collection\<close>

definition fresh :: "int \<Rightarrow> int option \<Rightarrow> int option" where
  "fresh cutoff x = (case x of None \<Rightarrow> None | Some t \<Rightarrow> if t \<le> cutoff then None else Some t)"

lemma del_peers_correct:
  "is_gomap m \<Longrightarrow> is_gomap (fst (del_peers xs m n)) \<and>
     (\<forall>p. m_get (fst (del_peers xs m n)) p = (if p \<in> set xs then None else m_get m p)) \<and>
     snd (del_peers xs m n) = n + of_nat (length (fst (del_peers xs m n))) - of_nat (length m)"
proof (induction xs arbitrary: m n)
  case (Cons p xs)
  define n' where "n' = (if m_get m p \<noteq> None then n + decrUint64 else n)"
  have step: "del_peers (p # xs) m n = del_peers xs (m_del p m) n'"
    by (simp add: peers_del_eq n'_def)
  have "n' = n + of_nat (length (m_del p m)) - of_nat (length m)"
    using Cons.prems by (auto simp: n'_def of_nat_length_m_del add_decrUint64 split: option.splits)
  then show ?case
    unfolding step using Cons.IH [OF is_gomap_del [OF Cons.prems], of p n'] by auto
qed simp

lemma stale_peers_set:
  "is_order ord \<Longrightarrow> is_gomap m \<Longrightarrow>
     p \<in> set (stale_peers ord cutoff m) \<longleftrightarrow> (\<exists>t. m_get m p = Some t \<and> t \<le> cutoff)"
  by (auto simp: stale_peers_def is_order_set dest: m_get_in m_get_Some_in
           intro!: image_eqI [where x = "(p, _)"])

lemma gc_peers:
  assumes "is_order ord" and "is_gomap m"
  shows "is_gomap (fst (del_peers (stale_peers ord cutoff m) m n))"
    and "m_get (fst (del_peers (stale_peers ord cutoff m) m n)) p = fresh cutoff (m_get m p)"
    and "snd (del_peers (stale_peers ord cutoff m) m n) =
           n + of_nat (length (fst (del_peers (stale_peers ord cutoff m) m n))) - of_nat (length m)"
  using del_peers_correct [OF assms(2), of "stale_peers ord cutoff m" n] stale_peers_set [OF assms]
  by (auto simp: fresh_def split: option.splits)

lemma del_peers_fst: "fst (del_peers xs m n) = fst (del_peers xs m 0)"
  by (induction xs arbitrary: m n) (simp, metis (no_types, lifting) case_prod_unfold del_peers.simps(2))

definition gc_peers_of :: "((Peer \<times> int) list \<Rightarrow> (Peer \<times> int) list) \<Rightarrow> int \<Rightarrow> (Peer, int) gomap \<Rightarrow> (Peer, int) gomap" where
  "gc_peers_of ord cutoff m = fst (del_peers (stale_peers ord cutoff m) m 0)"

definition gc_swarm_of :: "((Peer \<times> int) list \<Rightarrow> (Peer \<times> int) list) \<Rightarrow> int \<Rightarrow> swarm option \<Rightarrow> swarm option" where
  "gc_swarm_of ord cutoff x = (case x of None \<Rightarrow> None | Some sw \<Rightarrow>
     let s = gc_peers_of ord cutoff (seeders sw); l = gc_peers_of ord cutoff (leechers sw)
     in if s = [] \<and> l = [] then None else Some \<lparr>seeders = s, leechers = l\<rparr>)"

lemma gc_swarm_eq:
  assumes "is_order ord" and "m_get (swarms sh) ih = Some sw" and "swarm_ok v6 sw"
  shows "gc_swarm ord cutoff sh ih =
    (let s = gc_peers_of ord cutoff (seeders sw); l = gc_peers_of ord cutoff (leechers sw);
         m = m_set ih \<lparr>seeders = s, leechers = l\<rparr> (swarms sh)
     in \<lparr>swarms = (if s = [] \<and> l = [] then m_del ih m else m),
         numSeeders = numSeeders sh + of_nat (length s) - of_nat (length (seeders sw)),
         numLeechers = numLeechers sh + of_nat (length l) - of_nat (length (leechers sw))\<rparr>)"
  using assms gc_peers(3) [OF assms(1)] 
  by (auto simp: gc_swarm_def Let_def case_prod_unfold gc_peers_of_def swarm_ok_def del_peers_fst [of _ _ "numSeeders sh"]
      del_peers_fst [of _ _ "numLeechers sh"] or_eq_0_iff)

lemma shard_ok_swarm: "shard_ok n i sh \<Longrightarrow> m_get (swarms sh) ih = Some sw \<Longrightarrow>
    4 \<le> length ih \<and> sidx n ih (n \<le> i) = i \<and> swarm_ok (n \<le> i) sw"
  by (meson m_get_Some_in shard_ok_def)

lemma shard_ok_del:
  assumes "shard_ok n i sh" and "m_get (swarms sh) ih = Some \<lparr>seeders = [], leechers = []\<rparr>"
  shows "shard_ok n i (sh\<lparr>swarms := m_del ih (swarms sh)\<rparr>)"
  using assms by (auto simp: shard_ok_def m_sum_del dest: set_m_del)

lemma gc_peers_of_correct:
  assumes "is_order ord" and "is_gomap m"
  shows "is_gomap (gc_peers_of ord cutoff m)"
    and "m_get (gc_peers_of ord cutoff m) p = fresh cutoff (m_get m p)"
  using gc_peers [OF assms] by (simp_all add: gc_peers_of_def)

lemma gc_peers_of_keys:
  assumes "is_order ord" and "is_gomap m"
  shows "m_keys (gc_peers_of ord cutoff m) \<subseteq> m_keys m"
proof
  fix p assume "p \<in> m_keys (gc_peers_of ord cutoff m)"
  then have "m_get (gc_peers_of ord cutoff m) p \<noteq> None" by (simp add: m_get_None)
  then show "p \<in> m_keys m"
    using gc_peers_of_correct(2) [OF assms] m_get_None [of m p] by (auto simp: fresh_def)
qed

lemma swarm_ok_gc:
  "is_order ord \<Longrightarrow> swarm_ok v6 sw \<Longrightarrow>
     swarm_ok v6 \<lparr>seeders = gc_peers_of ord cutoff (seeders sw), leechers = gc_peers_of ord cutoff (leechers sw)\<rparr>"
  using gc_peers_of_keys [of ord "seeders sw" cutoff] gc_peers_of_keys [of ord "leechers sw" cutoff]
  by (auto simp: swarm_ok_def gc_peers_of_correct)

lemma gc_swarm_ok:
  assumes "is_order ord" and "shard_ok n i sh"
  shows "shard_ok n i (gc_swarm ord cutoff sh ih) \<and>
     m_get (swarms (gc_swarm ord cutoff sh ih)) ih' =
           (if ih' = ih then gc_swarm_of ord cutoff (m_get (swarms sh) ih) else m_get (swarms sh) ih')"
proof (cases "m_get (swarms sh) ih")
  case None
  then show ?thesis using assms by (simp add: gc_swarm_def gc_swarm_of_def)
next
  case (Some sw)
  note ok = shard_ok_swarm [OF assms(2) Some]
  define s where "s = gc_peers_of ord cutoff (seeders sw)"
  define l where "l = gc_peers_of ord cutoff (leechers sw)"
  define sh' where "sh' = \<lparr>swarms = m_set ih \<lparr>seeders = s, leechers = l\<rparr> (swarms sh),
         numSeeders = numSeeders sh + of_nat (length s) - of_nat (length (seeders sw)),
         numLeechers = numLeechers sh + of_nat (length l) - of_nat (length (leechers sw))\<rparr>"
  have gc: "gc_swarm ord cutoff sh ih = (if s = [] \<and> l = [] then sh'\<lparr>swarms := m_del ih (swarms sh')\<rparr> else sh')"
    using gc_swarm_eq [OF assms(1) Some, of "n \<le> i" cutoff] ok by (simp add: Let_def s_def l_def sh'_def)
  have "shard_ok n i sh'"
    using shard_ok_set [OF assms(2), of ih "\<lparr>seeders = s, leechers = l\<rparr>"] ok Some
      swarm_ok_gc [OF assms(1), of "n \<le> i" sw cutoff]
    by (simp add: s_def l_def sh'_def swarm_or_empty_def)
  moreover have "m_get (swarms sh') ih = Some \<lparr>seeders = s, leechers = l\<rparr>" by (simp add: sh'_def)
  ultimately show ?thesis
    using shard_ok_del [of n i sh' ih] Some unfolding gc gc_swarm_of_def
    by (auto simp: Let_def sh'_def s_def l_def)
qed

lemma gc_fold_ok:
  assumes "is_order ord" and "shard_ok n i sh" and "distinct xs"
  shows "shard_ok n i (foldl (gc_swarm ord cutoff) sh xs) \<and>
     m_get (swarms (foldl (gc_swarm ord cutoff) sh xs)) ih =
       (if ih \<in> set xs then gc_swarm_of ord cutoff (m_get (swarms sh) ih) else m_get (swarms sh) ih)"
  using assms(2,3)
proof (induction xs arbitrary: sh)
  case (Cons x xs)
  then show ?case using gc_swarm_ok [OF assms(1) Cons.prems(1), of cutoff x] by auto
qed simp

lemma gc_shard_ok:
  assumes "is_order ord" and "is_order ordh" and "shard_ok n i sh"
  shows "shard_ok n i (gc_shard ord ordh cutoff sh)"
    and "m_get (swarms (gc_shard ord ordh cutoff sh)) ih = gc_swarm_of ord cutoff (m_get (swarms sh) ih)"
proof -
  have g: "is_gomap (swarms sh)" using assms(3) by (simp add: shard_ok_def)
  then have "distinct (ordh (map fst (swarms sh)))"
    using is_order_distinct [OF assms(2)] by (simp add: is_gomap_def)
  moreover have "gc_swarm_of ord cutoff (m_get (swarms sh) ih) = None" if "ih \<notin> set (map fst (swarms sh))"
    using that m_get_None [of "swarms sh" ih] by (simp add: m_keys_def gc_swarm_of_def)
  moreover have "m_get (swarms sh) ih = None" if "ih \<notin> set (map fst (swarms sh))"
    using that m_get_None [of "swarms sh" ih] by (simp add: m_keys_def)
  ultimately show "shard_ok n i (gc_shard ord ordh cutoff sh)"
    "m_get (swarms (gc_shard ord ordh cutoff sh)) ih = gc_swarm_of ord cutoff (m_get (swarms sh) ih)"
    using gc_fold_ok [OF assms(1,3), of "ordh (map fst (swarms sh))" cutoff ih] is_order_set [OF assms(2)]
    by (auto simp: gc_shard_def)
qed

lemma half_gc [simp]: "half (gc ord ordh cutoff ps) = half ps"
  by (simp add: gc_def half_def)

lemma gc_store_ok:
  assumes "is_order ord" and "is_order ordh" and "store_ok ps"
  shows "store_ok (gc ord ordh cutoff ps)"
  using assms gc_shard_ok(1) [OF assms(1,2)] unfolding store_ok_def half_gc
  by (auto simp: gc_def)

lemma gc_swarm_at:
  assumes "is_order ord" and "is_order ordh" and "store_ok ps"
  shows "swarm_at (gc ord ordh cutoff ps) ih v6 = gc_swarm_of ord cutoff (swarm_at ps ih v6)"
proof (cases "4 \<le> length ih")
  case True
  let ?i = "sidx (half ps) ih v6"
  have "?i < 2 * half ps" using assms(3) by (auto simp: store_ok_def intro: sidx_less)
  then have "shard_ok (half ps) ?i (shards ps ! ?i)" "?i < length (shards ps)"
    using assms(3) by (auto simp: store_ok_def)
  moreover from this have "shards (gc ord ordh cutoff ps) ! ?i = gc_shard ord ordh cutoff (shards ps ! ?i)"
    using assms(3) by (simp add: gc_def)
  ultimately show ?thesis
    by (simp add: swarm_at_eq [OF gc_store_ok [OF assms] True] swarm_at_eq [OF assms(3) True]
        gc_shard_ok(2) [OF assms(1,2)])
qed (simp add: swarm_at_short gc_swarm_of_def)

lemma gc_refines:
  assumes "is_order ord" and "is_order ordh" and "store_ok ps"
  shows "refines ps (Ret (None, gc ord ordh cutoff ps)) None (spec_gc cutoff (abs_store ps))"
proof -
  have "abs_store (gc ord ordh cutoff ps) ih sd p = spec_gc cutoff (abs_store ps) ih sd p" for ih sd p
  proof (cases "swarm_at ps ih (Is6 (Peer_Addr p))")
    case None
    then show ?thesis by (simp add: abs_store_def gc_swarm_at [OF assms] gc_swarm_of_def spec_gc_def)
  next
    case (Some sw)
    note g = swarm_ok_maps [OF swarm_at_ok(1) [OF assms(3) Some]]
    have e: "m_get (gc_peers_of ord cutoff m) p = None" if "gc_peers_of ord cutoff m = []" for m
      using that by simp
    show ?thesis
      using gc_peers_of_correct(2) [OF assms(1) g(1), of cutoff p] e [of "seeders sw"]
        gc_peers_of_correct(2) [OF assms(1) g(2), of cutoff p] e [of "leechers sw"]
      by (auto simp: abs_store_def gc_swarm_at [OF assms] gc_swarm_of_def spec_gc_def Some Let_def fresh_def
               split: option.splits)
  qed
  then have "abs_store (gc ord ordh cutoff ps) = spec_gc cutoff (abs_store ps)" by (intro ext)
  then show ?thesis using gc_store_ok [OF assms] by (simp add: refines_def) (simp add: gc_def)
qed

subsection \<open>Reading\<close>

lemma keys_range_take:
  "keys_range ks peers n =
     (if ks = [] then (True, peers, n)
      else if int (length ks) < n then (True, peers @ ks, n - int (length ks))
      else (False, peers @ take (nat (max 1 n)) ks, n - int (length (take (nat (max 1 n)) ks))))"
proof (induction ks arbitrary: peers n)
  case (Cons k ks)
  have "nat (max 1 n) = Suc (nat (max 1 (n - 1)))" if "n - 1 > 0" using that by linarith
  then show ?case using Cons.IH [of "peers @ [k]" "n - 1"]
    by (cases "n - 1 > 0") auto
qed simp

lemma nat_diff_int: "nat (n - int k) = nat n - k"
  by linarith

lemma nat_max_le_length: "xs \<noteq> [] \<Longrightarrow> int (length xs) \<ge> n \<Longrightarrow> nat (max 1 n) \<le> length xs"
  by (cases xs) auto

lemma AnnouncePeers_eq:
  assumes "store_ok ps" and "4 \<le> length ih" and "-1 \<le> n"
  shows "AnnouncePeers ord ps ih forSeeder n v6 =
    (case swarm_at ps ih v6 of None \<Rightarrow> Ret ([], None)
     | Some sw \<Rightarrow> Ret (take (nat (max 1 n))
          ((if forSeeder then [] else map fst (ord (seeders sw))) @ map fst (ord (leechers sw))), None))"
  using assms
  by (auto simp: AnnouncePeers_def the_shard_eq swarm_at_eq keys_range_take Let_def nat_diff_int
        not_less nat_max_le_length split: option.splits)


definition reg_peers :: "registry \<Rightarrow> bool \<Rightarrow> infohash \<Rightarrow> Peer set" where
  "reg_peers R sd ih = {p. R ih sd p \<noteq> None}"

definition swarm_peers :: "peerStore \<Rightarrow> bool \<Rightarrow> infohash \<Rightarrow> Peer set" where
  "swarm_peers ps = reg_peers (abs_store ps)"

lemma family_peers:
  assumes "store_ok ps"
  shows "of_family v6 (swarm_peers ps sd ih) = (case swarm_at ps ih v6 of None \<Rightarrow> {}
     | Some sw \<Rightarrow> m_keys (if sd then seeders sw else leechers sw))"
proof (cases "swarm_at ps ih v6")
  case None
  then have none: "abs_store ps ih sd p = None" if "Is6 (Peer_Addr p) = v6" for p
    using that by (simp add: abs_store_def)
  have "of_family v6 (swarm_peers ps sd ih) = {}"
  proof (rule equals0I)
    fix p assume "p \<in> of_family v6 (swarm_peers ps sd ih)"
    then have "Is6 (Peer_Addr p) = v6" "abs_store ps ih sd p \<noteq> None"
      by (simp_all add: of_family_def swarm_peers_def reg_peers_def)
    with none show False by simp
  qed
  then show ?thesis using None by simp
next
  case (Some sw)
  then have "of_family v6 (swarm_peers ps sd ih) = of_family v6 (m_keys (if sd then seeders sw else leechers sw))"
    by (auto simp: of_family_def swarm_peers_def reg_peers_def abs_store_def m_keys_iff)
  also have "\<dots> = m_keys (if sd then seeders sw else leechers sw)"
    using swarm_at_ok(1) [OF assms Some] by (auto simp: of_family_def swarm_ok_def)
  finally show ?thesis using Some by simp
qed

lemma card_family:
  assumes "store_ok ps"
  shows "card (of_family v6 (swarm_peers ps sd ih)) = (case swarm_at ps ih v6 of None \<Rightarrow> 0
     | Some sw \<Rightarrow> length (if sd then seeders sw else leechers sw))"
  unfolding family_peers [OF assms]
  using swarm_at_ok(1) [OF assms, of ih v6] by (auto simp: swarm_ok_def card_m_keys split: option.splits)

lemma swarm_peers_split: "P = of_family False P \<union> of_family True P"
  by (auto simp: of_family_def)

lemma finite_swarm_peers:
  assumes "store_ok ps"
  shows "finite (swarm_peers ps sd ih)"
  by (subst swarm_peers_split) (simp add: family_peers [OF assms] split: option.splits)

lemma card_swarm_peers:
  assumes "store_ok ps"
  shows "card (swarm_peers ps sd ih) = card (of_family False (swarm_peers ps sd ih)) +
     card (of_family True (swarm_peers ps sd ih))"
  using finite_swarm_peers [OF assms, of sd ih]
  by (subst swarm_peers_split, subst card_Un_disjoint) (auto simp: of_family_def)

lemma countPeers_eq:
  assumes "store_ok ps" and "4 \<le> length ih"
  shows "countPeers ps ih v6 = Ret (of_nat (card (of_family v6 (swarm_peers ps False ih))),
     of_nat (card (of_family v6 (swarm_peers ps True ih))))"
  using assms by (simp add: countPeers_def the_shard_eq card_family swarm_at_eq split: option.splits)

lemma ScrapeSwarm_eq:
  assumes "store_ok ps" and "4 \<le> length ih"
  shows "ScrapeSwarm ps ih = Ret (of_nat (card (swarm_peers ps False ih)),
     of_nat (card (swarm_peers ps True ih)), 0, None)"
  using assms by (simp add: ScrapeSwarm_def countPeers_eq card_swarm_peers)

lemma AnnouncePeers_peers:
  assumes "store_ok ps" and "4 \<le> length ih" and "-1 \<le> n" and "is_order ord"
  obtains peers where "AnnouncePeers ord ps ih forSeeder n v6 = Ret (peers, None)"
    and "set peers \<subseteq> of_family v6 ((if forSeeder then {} else swarm_peers ps True ih) \<union> swarm_peers ps False ih)"
    and "int (length peers) = min (max 1 n) (int ((if forSeeder then 0 else
           card (of_family v6 (swarm_peers ps True ih))) + card (of_family v6 (swarm_peers ps False ih))))"
    and "int (length peers) < n \<Longrightarrow>
           set peers = of_family v6 ((if forSeeder then {} else swarm_peers ps True ih) \<union> swarm_peers ps False ih)"
proof (cases "swarm_at ps ih v6")
  case None
  moreover from None have "of_family v6 (swarm_peers ps sd ih) = {}" for sd
    by (simp add: family_peers [OF assms(1)])
  then have "of_family v6 ((if forSeeder then {} else swarm_peers ps True ih) \<union> swarm_peers ps False ih) = {}"
    by simp
  ultimately show ?thesis using that [of "[]"] assms by (simp add: AnnouncePeers_eq card_family)
next
  case (Some sw)
  let ?l = "(if forSeeder then [] else map fst (ord (seeders sw))) @ map fst (ord (leechers sw))"
  have fam: "of_family v6 (swarm_peers ps True ih) = m_keys (seeders sw)"
    "of_family v6 (swarm_peers ps False ih) = m_keys (leechers sw)"
    using family_peers [OF assms(1), of v6 _ ih] Some by simp_all
  have card: "card (m_keys (seeders sw)) = length (seeders sw)" "card (m_keys (leechers sw)) = length (leechers sw)"
    using swarm_at_ok(1) [OF assms(1) Some] by (simp_all add: swarm_ok_def card_m_keys)
  have set_l: "set ?l = of_family v6 ((if forSeeder then {} else swarm_peers ps True ih) \<union> swarm_peers ps False ih)"
    by (auto simp: fam m_keys_def is_order_set [OF assms(4)])
  have len_l: "length ?l = (if forSeeder then 0 else card (of_family v6 (swarm_peers ps True ih)))
      + card (of_family v6 (swarm_peers ps False ih))"
    by (simp add: fam card is_order_length [OF assms(4)])
  let ?p = "take (nat (max 1 n)) ?l"
  show ?thesis
  proof (rule that [of ?p])
    show "AnnouncePeers ord ps ih forSeeder n v6 = Ret (?p, None)"
      using assms Some by (simp add: AnnouncePeers_eq)
    show "set ?p \<subseteq> of_family v6 ((if forSeeder then {} else swarm_peers ps True ih) \<union> swarm_peers ps False ih)"
      unfolding set_l [symmetric] by (rule set_take_subset)
    show "int (length ?p) = min (max 1 n) (int ((if forSeeder then 0 else
           card (of_family v6 (swarm_peers ps True ih))) + card (of_family v6 (swarm_peers ps False ih))))"
      unfolding len_l [symmetric] length_take by linarith
    assume "int (length ?p) < n"
    then have "length ?l \<le> nat (max 1 n)" unfolding length_take by linarith
    then show "set ?p = of_family v6 ((if forSeeder then {} else swarm_peers ps True ih) \<union> swarm_peers ps False ih)"
      unfolding set_l [symmetric] by (simp only: take_all)
  qed
qed

lemma AnnouncePeers_seeders:
  assumes "store_ok ps" and "4 \<le> length ih" and "-1 \<le> n" and "is_order ord"
    and "int (card (of_family v6 (swarm_peers ps True ih))) \<le> n"
    and "AnnouncePeers ord ps ih False n v6 = Ret (peers, e)"
  shows "of_family v6 (swarm_peers ps True ih) \<subseteq> set peers"
proof (cases "swarm_at ps ih v6")
  case None
  then show ?thesis by (simp add: family_peers [OF assms(1)])
next
  case (Some sw)
  then have "length (seeders sw) \<le> nat (max 1 n)"
    using assms(5) card_family [OF assms(1), of v6 True ih] by simp
  then have "peers = map fst (ord (seeders sw)) @
      take (nat (max 1 n) - length (seeders sw)) (map fst (ord (leechers sw)))"
    using assms(6) AnnouncePeers_eq [OF assms(1-3), of ord False v6] Some is_order_length [OF assms(4)] by simp
  then have "set (map fst (ord (seeders sw))) \<subseteq> set peers" by (simp only: set_append) (rule Un_upper1)
  then show ?thesis
    using Some by (simp add: family_peers [OF assms(1)] m_keys_def is_order_set [OF assms(4)])
qed

subsection \<open>The new store, and the states the operations reach\<close>

lemma NewPeerStorage_half: "half (NewPeerStorage c) = nat (memory_Validate c)"
  by (simp add: half_def NewPeerStorage_def memory_Validate_def)

lemma memory_Validate_pos: "0 < memory_Validate c"
  by (simp add: memory_Validate_def defaultShardCount_def)

lemma NewPeerStorage_ok:
  assumes "memory_Validate c < 2 ^ 31"
  shows "store_ok (NewPeerStorage c)" and "abs_store (NewPeerStorage c) = (\<lambda>ih sd p. None)"
    and "swarm_at (NewPeerStorage c) ih v6 = None"
proof -
  have "shard_ok n i empty_shard" for n i by (simp add: shard_ok_def empty_shard_def)
  then show ok: "store_ok (NewPeerStorage c)"
    using assms memory_Validate_pos [of c] unfolding store_ok_def NewPeerStorage_half
    by (auto simp: NewPeerStorage_def)
  show none: "swarm_at (NewPeerStorage c) ih v6 = None" for ih v6
  proof (cases "4 \<le> length ih")
    case True
    have "sidx (half (NewPeerStorage c)) ih v6 < length (shards (NewPeerStorage c))"
      using ok sidx_less [of "half (NewPeerStorage c)"] by (simp add: store_ok_def)
    then show ?thesis using swarm_at_eq [OF ok True, of v6]
      by (simp add: NewPeerStorage_def empty_shard_def)
  qed (simp add: swarm_at_short)
  show "abs_store (NewPeerStorage c) = (\<lambda>ih sd p. None)" by (simp add: abs_store_def fun_eq_iff none)
qed

datatype mem_op =
    OpPutSeeder infohash Peer
  | OpDeleteSeeder infohash Peer
  | OpPutLeecher infohash Peer
  | OpDeleteLeecher infohash Peer
  | OpGraduateLeecher infohash Peer
  | OpGC int

fun op_ok :: "mem_op \<Rightarrow> bool" where
  "op_ok (OpPutSeeder ih p) = is_infohash ih"
| "op_ok (OpDeleteSeeder ih p) = is_infohash ih"
| "op_ok (OpPutLeecher ih p) = is_infohash ih"
| "op_ok (OpDeleteLeecher ih p) = is_infohash ih"
| "op_ok (OpGraduateLeecher ih p) = is_infohash ih"
| "op_ok (OpGC cutoff) = True"

fun run_op :: "((Peer \<times> int) list \<Rightarrow> (Peer \<times> int) list) \<Rightarrow> (infohash list \<Rightarrow> infohash list) \<Rightarrow> int \<Rightarrow>
    mem_op \<Rightarrow> peerStore \<Rightarrow> (err \<times> peerStore) go" where
  "run_op ord ordh now (OpPutSeeder ih p) ps = PutSeeder now ps ih p"
| "run_op ord ordh now (OpDeleteSeeder ih p) ps = DeleteSeeder ps ih p"
| "run_op ord ordh now (OpPutLeecher ih p) ps = PutLeecher now ps ih p"
| "run_op ord ordh now (OpDeleteLeecher ih p) ps = DeleteLeecher ps ih p"
| "run_op ord ordh now (OpGraduateLeecher ih p) ps = GraduateLeecher now ps ih p"
| "run_op ord ordh now (OpGC cutoff) ps = Ret (None, gc ord ordh cutoff ps)"

fun spec_op :: "int \<Rightarrow> mem_op \<Rightarrow> registry \<Rightarrow> registry" where
  "spec_op now (OpPutSeeder ih p) R = spec_put True now ih p R"
| "spec_op now (OpDeleteSeeder ih p) R = spec_del True ih p R"
| "spec_op now (OpPutLeecher ih p) R = spec_put False now ih p R"
| "spec_op now (OpDeleteLeecher ih p) R = spec_del False ih p R"
| "spec_op now (OpGraduateLeecher ih p) R = spec_put True now ih p (spec_del False ih p R)"
| "spec_op now (OpGC cutoff) R = spec_gc cutoff R"

fun op_err :: "mem_op \<Rightarrow> peerStore \<Rightarrow> err" where
  "op_err (OpDeleteSeeder ih p) ps = swarm_missing ps ih p"
| "op_err (OpDeleteLeecher ih p) ps = swarm_missing ps ih p"
| "op_err _ ps = None"

lemma is_infohash_length: "is_infohash ih \<Longrightarrow> 4 \<le> length ih"
  by (auto simp: is_infohash_def len_defs)

lemma run_op_refines:
  assumes "is_order ord" and "is_order ordh" and "store_ok ps" and "op_ok op"
  shows "refines ps (run_op ord ordh now op ps) (op_err op ps) (spec_op now op (abs_store ps))"
  using assms
  by (cases op) (simp_all add: is_infohash_length PutSeeder_refines PutLeecher_refines DeleteSeeder_refines
      DeleteLeecher_refines GraduateLeecher_refines gc_refines)

text \<open>
  The swarms the store keeps, one per infohash and address family: putting and graduating
  create a swarm, deleting keeps it even when it has become empty, and the collection keeps
  those with a peer left.
\<close>

definition tracked :: "peerStore \<Rightarrow> (infohash \<times> bool) set" where
  "tracked ps = {(ih, v6). swarm_at ps ih v6 \<noteq> None}"

definition populated :: "registry \<Rightarrow> (infohash \<times> bool) set" where
  "populated R = {(ih, v6). \<exists>sd p. Is6 (Peer_Addr p) = v6 \<and> R ih sd p \<noteq> None}"

fun spec_tracked :: "mem_op \<Rightarrow> registry \<Rightarrow> (infohash \<times> bool) set \<Rightarrow> (infohash \<times> bool) set" where
  "spec_tracked (OpPutSeeder ih p) R W = insert (ih, Is6 (Peer_Addr p)) W"
| "spec_tracked (OpDeleteSeeder ih p) R W = W"
| "spec_tracked (OpPutLeecher ih p) R W = insert (ih, Is6 (Peer_Addr p)) W"
| "spec_tracked (OpDeleteLeecher ih p) R W = W"
| "spec_tracked (OpGraduateLeecher ih p) R W = insert (ih, Is6 (Peer_Addr p)) W"
| "spec_tracked (OpGC cutoff) R W = populated (spec_gc cutoff R)"

lemma put_swarm_tracked:
  assumes "store_ok ps" and "4 \<le> length ih" and "swarm_ok v6 sw'"
  shows "tracked (put_swarm ps (sidx (half ps) ih v6) ih sw') = insert (ih, v6) (tracked ps)"
  using put_swarm_ok(2) [OF assms refl] by (auto simp: tracked_def)

lemma delete_tracked: "swarm_at ps ih v6 = Some sw \<Longrightarrow> insert (ih, v6) (tracked ps) = tracked ps"
  by (auto simp: tracked_def)

lemma populated_tracked: "populated (abs_store ps) \<subseteq> tracked ps"
  by (auto simp: populated_def tracked_def abs_store_def split: option.splits)

lemma tracked_gc:
  assumes "is_order ord" and "is_order ordh" and "store_ok ps"
  shows "tracked (gc ord ordh cutoff ps) = populated (abs_store (gc ord ordh cutoff ps))"
proof (intro equalityI subsetI)
  fix x assume "x \<in> tracked (gc ord ordh cutoff ps)"
  then obtain ih v6 sw where x: "x = (ih, v6)" "swarm_at (gc ord ordh cutoff ps) ih v6 = Some sw"
    by (auto simp: tracked_def)
  then have "seeders sw \<noteq> [] \<or> leechers sw \<noteq> []"
    by (auto simp: gc_swarm_at [OF assms] gc_swarm_of_def Let_def split: option.splits if_splits)
  then obtain sd p where p: "p \<in> m_keys (if sd then seeders sw else leechers sw)"
    by (metis m_keys_def list.set_intros(1) list.exhaust image_eqI)
  then have "Is6 (Peer_Addr p) = v6"
    using swarm_at_ok(1) [OF gc_store_ok [OF assms] x(2)] unfolding swarm_ok_def by (cases sd) auto
  then show "x \<in> populated (abs_store (gc ord ordh cutoff ps))"
    using p x by (auto simp: populated_def abs_store_def m_keys_iff intro!: exI [of _ sd] exI [of _ p])
qed (use populated_tracked in blast)

lemma run_op_tracked:
  assumes "is_order ord" and "is_order ordh" and "store_ok ps" and "op_ok op" and "run_op ord ordh now op ps = Ret (e, ps')"
  shows "tracked ps' = spec_tracked op (abs_store ps) (tracked ps)"
proof -
  note eqs = PutSeeder_eq PutLeecher_eq GraduateLeecher_eq DeleteSeeder_eq DeleteLeecher_eq
  note put = put_swarm_tracked [OF assms(3)]
  note new = put [OF _ swarm_ok_upd(1) [OF swarm_ok_at [OF assms(3)]]] put [OF _ swarm_ok_upd(2) [OF swarm_ok_at [OF assms(3)]]]
    put [OF _ swarm_ok_upd(5) [OF swarm_ok_at [OF assms(3)]]]
  note old = put [OF _ swarm_ok_upd(3) [OF swarm_at_ok(1) [OF assms(3)]]] put [OF _ swarm_ok_upd(4) [OF swarm_at_ok(1) [OF assms(3)]]]
  have "case run_op ord ordh now op ps of Ret (_, ps') \<Rightarrow> tracked ps' = spec_tracked op (abs_store ps) (tracked ps) | Panic _ \<Rightarrow> True"
  proof (cases op)
    case (OpGC cutoff)
    then show ?thesis using tracked_gc [OF assms(1-3)] gc_refines [OF assms(1-3)] by (simp add: refines_def)
  qed (use assms(3,4) in \<open>simp_all add: eqs is_infohash_length Let_def new old delete_tracked split: option.split\<close>)
  then show ?thesis by (simp add: assms(5))
qed

inductive mem_reach :: "int \<Rightarrow> peerStore \<Rightarrow> registry \<Rightarrow> (infohash \<times> bool) set \<Rightarrow> bool" for c :: int where
  start: "mem_reach c (NewPeerStorage c) (\<lambda>ih sd p. None) {}"
| op: "\<lbrakk>mem_reach c ps R W; op_ok op; is_order ord; is_order ordh; run_op ord ordh now op ps = Ret (e, ps')\<rbrakk> \<Longrightarrow>
        mem_reach c ps' (spec_op now op R) (spec_tracked op R W)"

lemma mem_reach_ok:
  assumes "mem_reach c ps R W" and "memory_Validate c < 2 ^ 31"
  shows "store_ok ps \<and> abs_store ps = R \<and> tracked ps = W"
  using assms(1)
proof induction
  case start
  then show ?case using NewPeerStorage_ok [OF assms(2)] by (simp add: tracked_def)
next
  case (op ps R W op ord ordh now e ps')
  then show ?case using run_op_refines [of ord ordh ps op now] run_op_tracked [of ord ordh ps op now e ps']
    by (simp add: refines_def)
qed

subsection \<open>Statistics\<close>

lemma foldl_statistics:
  "foldl (\<lambda>(a, b, c) s. (a + of_nat (length (swarms s)), b + numSeeders s, c + numLeechers s)) (a, b, c) xs =
     (a + (\<Sum>s\<leftarrow>xs. of_nat (length (swarms s))), b + (\<Sum>s\<leftarrow>xs. numSeeders s), c + (\<Sum>s\<leftarrow>xs. numLeechers s))"
  by (induction xs arbitrary: a b c) (simp_all add: add.assoc)

lemma collect_statistics_eq:
  "collect_statistics ps = ((\<Sum>s\<leftarrow>shards ps. of_nat (length (swarms s))),
     (\<Sum>s\<leftarrow>shards ps. numSeeders s), (\<Sum>s\<leftarrow>shards ps. numLeechers s))"
  by (simp add: collect_statistics_def foldl_statistics)

lemma m_sum_of_nat: "m_sum (\<lambda>v. of_nat (g v)) m = of_nat (\<Sum>(k, v)\<leftarrow>m. g v)"
  by (induction m) (auto simp: m_sum_def)

definition entries :: "bool \<Rightarrow> peerStore \<Rightarrow> (infohash \<times> Peer) set" where
  "entries sd ps = {(ih, p). abs_store ps ih sd p \<noteq> None}"

definition shard_entries :: "bool \<Rightarrow> peerShard \<Rightarrow> (infohash \<times> Peer) set" where
  "shard_entries sd sh = Sigma (m_keys (swarms sh))
     (\<lambda>ih. case m_get (swarms sh) ih of None \<Rightarrow> {} | Some sw \<Rightarrow> m_keys (if sd then seeders sw else leechers sw))"

lemma shard_entries_iff:
  "(ih, p) \<in> shard_entries sd sh \<longleftrightarrow>
     (\<exists>sw. m_get (swarms sh) ih = Some sw \<and> p \<in> m_keys (if sd then seeders sw else leechers sw))"
  using m_get_None [of "swarms sh" ih] by (auto simp: shard_entries_def split: option.splits)

lemma shard_entries_index:
  assumes "shard_ok n i sh" and "(ih, p) \<in> shard_entries sd sh"
  shows "4 \<le> length ih" and "(n \<le> i) = Is6 (Peer_Addr p)" and "sidx n ih (Is6 (Peer_Addr p)) = i"
proof -
  obtain sw where sw: "m_get (swarms sh) ih = Some sw" "p \<in> m_keys (if sd then seeders sw else leechers sw)"
    using assms(2) by (auto simp: shard_entries_iff)
  note ok = shard_ok_swarm [OF assms(1) sw(1)]
  then show "4 \<le> length ih" by simp
  show "(n \<le> i) = Is6 (Peer_Addr p)" using ok sw(2) unfolding swarm_ok_def by (cases sd) auto
  then show "sidx n ih (Is6 (Peer_Addr p)) = i" using ok by simp
qed

lemma entries_shards:
  assumes "store_ok ps"
  shows "entries sd ps = (\<Union>i < 2 * half ps. shard_entries sd (shards ps ! i))"
proof -
  have h: "0 < half ps" and sh: "\<And>i. i < 2 * half ps \<Longrightarrow> shard_ok (half ps) i (shards ps ! i)"
    using assms by (auto simp: store_ok_def)
  have "abs_store ps ih sd p \<noteq> None \<longleftrightarrow> (\<exists>i < 2 * half ps. (ih, p) \<in> shard_entries sd (shards ps ! i))" for ih p
  proof (cases "4 \<le> length ih")
    case True
    let ?i = "sidx (half ps) ih (Is6 (Peer_Addr p))"
    have "abs_store ps ih sd p \<noteq> None \<longleftrightarrow> (ih, p) \<in> shard_entries sd (shards ps ! ?i)"
      using swarm_at_eq [OF assms True, of "Is6 (Peer_Addr p)"]
      by (auto simp: abs_store_def shard_entries_iff m_keys_iff split: option.splits)
    then show ?thesis using sidx_less [OF h] shard_entries_index(3) [OF sh] by blast
  next
    case False
    then have "abs_store ps ih sd p = None" by (simp add: abs_store_def swarm_at_short)
    then show ?thesis using shard_entries_index(1) [OF sh] False by blast
  qed
  then show ?thesis by (auto simp: entries_def)
qed

lemma sum_m_keys: "is_gomap m \<Longrightarrow> (\<Sum>k \<in> m_keys m. case m_get m k of None \<Rightarrow> 0 | Some v \<Rightarrow> g v) = (\<Sum>(k, v)\<leftarrow>m. (g v :: nat))"
proof -
  assume g: "is_gomap m"
  then have "(\<Sum>(k, v)\<leftarrow>m. g v) = (\<Sum>kv \<in> set m. case kv of (k, v) \<Rightarrow> g v)"
    by (simp add: sum_list_distinct_conv_sum_set is_gomap_def distinct_map)
  also have "\<dots> = (\<Sum>k \<in> fst ` set m. case m_get m k of None \<Rightarrow> 0 | Some v \<Rightarrow> g v)"
    using g by (subst sum.reindex) (auto simp: is_gomap_def distinct_map m_get_in intro!: sum.cong)
  finally show ?thesis by (simp add: m_keys_def)
qed

lemma card_shard_entries:
  assumes "shard_ok n i sh"
  shows "card (shard_entries sd sh) = (\<Sum>(ih, sw)\<leftarrow>swarms sh. length (if sd then seeders sw else leechers sw))"
proof -
  have g: "is_gomap (swarms sh)" using assms by (simp add: shard_ok_def)
  have "card (shard_entries sd sh) = (\<Sum>ih \<in> m_keys (swarms sh). case m_get (swarms sh) ih of None \<Rightarrow> 0
      | Some sw \<Rightarrow> length (if sd then seeders sw else leechers sw))"
    unfolding shard_entries_def
    using shard_ok_swarm [OF assms]
    by (subst card_SigmaI) (auto simp: swarm_ok_def card_m_keys intro!: sum.cong split: option.splits)
  then show ?thesis using sum_m_keys [OF g] by simp
qed

lemma shard_entries_counters:
  assumes "shard_ok n i sh"
  shows "numSeeders sh = of_nat (card (shard_entries True sh))"
    and "numLeechers sh = of_nat (card (shard_entries False sh))"
  using assms by (simp_all add: card_shard_entries [OF assms] shard_ok_def m_sum_of_nat)

lemma card_entries:
  assumes "store_ok ps"
  shows "card (entries sd ps) = (\<Sum>i < 2 * half ps. card (shard_entries sd (shards ps ! i)))"
proof -
  have sh: "\<And>i. i < 2 * half ps \<Longrightarrow> shard_ok (half ps) i (shards ps ! i)"
    using assms by (auto simp: store_ok_def)
  have "finite (shard_entries sd s)" for s by (auto simp: shard_entries_def split: option.splits)
  moreover have "shard_entries sd (shards ps ! i) \<inter> shard_entries sd (shards ps ! j) = {}"
    if "i < 2 * half ps" "j < 2 * half ps" "i \<noteq> j" for i j
    using that(3) by (auto dest: shard_entries_index(3) [OF sh [OF that(1)]]
        shard_entries_index(3) [OF sh [OF that(2)]])
  ultimately show ?thesis unfolding entries_shards [OF assms] by (subst card_UN_disjoint) auto
qed

definition shard_tracked :: "nat \<Rightarrow> nat \<Rightarrow> peerShard \<Rightarrow> (infohash \<times> bool) set" where
  "shard_tracked n i sh = (\<lambda>ih. (ih, n \<le> i)) ` m_keys (swarms sh)"

lemma card_shard_tracked: "is_gomap (swarms sh) \<Longrightarrow> card (shard_tracked n i sh) = length (swarms sh)"
  unfolding shard_tracked_def by (subst card_image) (simp_all add: inj_on_def card_m_keys)

lemma shard_tracked_index:
  assumes "shard_ok n i sh" and "(ih, v6) \<in> shard_tracked n i sh"
  shows "4 \<le> length ih" and "sidx n ih v6 = i" and "m_get (swarms sh) ih \<noteq> None"
proof -
  obtain sw where "m_get (swarms sh) ih = Some sw" "v6 = (n \<le> i)"
    using assms(2) by (auto simp: shard_tracked_def m_keys_iff)
  then show "4 \<le> length ih" "sidx n ih v6 = i" "m_get (swarms sh) ih \<noteq> None"
    using shard_ok_swarm [OF assms(1)] by simp_all
qed

lemma tracked_shards:
  assumes "store_ok ps"
  shows "tracked ps = (\<Union>i < 2 * half ps. shard_tracked (half ps) i (shards ps ! i))"
proof -
  have h: "0 < half ps" and sh: "\<And>i. i < 2 * half ps \<Longrightarrow> shard_ok (half ps) i (shards ps ! i)"
    using assms by (auto simp: store_ok_def)
  have "swarm_at ps ih v6 \<noteq> None \<longleftrightarrow> (\<exists>i < 2 * half ps. (ih, v6) \<in> shard_tracked (half ps) i (shards ps ! i))" for ih v6
  proof
    let ?i = "sidx (half ps) ih v6"
    assume a: "swarm_at ps ih v6 \<noteq> None"
    then have "4 \<le> length ih" using swarm_at_short [of ih ps v6] by (cases "length ih < 4") auto
    then have "(ih, v6) \<in> shard_tracked (half ps) ?i (shards ps ! ?i)"
      using a sidx_family [OF h, of ih v6] by (auto simp: swarm_at_eq [OF assms] shard_tracked_def m_keys_iff)
    then show "\<exists>i < 2 * half ps. (ih, v6) \<in> shard_tracked (half ps) i (shards ps ! i)" using sidx_less [OF h] by blast
  next
    assume "\<exists>i < 2 * half ps. (ih, v6) \<in> shard_tracked (half ps) i (shards ps ! i)"
    then obtain i where i: "i < 2 * half ps" "(ih, v6) \<in> shard_tracked (half ps) i (shards ps ! i)" by blast
    show "swarm_at ps ih v6 \<noteq> None" using shard_tracked_index [OF sh [OF i(1)] i(2)] by (simp add: swarm_at_eq [OF assms])
  qed
  then show ?thesis by (auto simp: tracked_def)
qed

lemma card_tracked:
  assumes "store_ok ps"
  shows "card (tracked ps) = (\<Sum>i < 2 * half ps. length (swarms (shards ps ! i)))"
proof -
  have sh: "\<And>i. i < 2 * half ps \<Longrightarrow> shard_ok (half ps) i (shards ps ! i)"
    using assms by (auto simp: store_ok_def)
  then have g: "\<And>i. i < 2 * half ps \<Longrightarrow> is_gomap (swarms (shards ps ! i))" by (simp add: shard_ok_def)
  have "finite (shard_tracked n i s)" for n i s by (simp add: shard_tracked_def m_keys_def)
  moreover have "shard_tracked (half ps) i (shards ps ! i) \<inter> shard_tracked (half ps) j (shards ps ! j) = {}"
    if "i < 2 * half ps" "j < 2 * half ps" "i \<noteq> j" for i j
    using that(3) by (auto dest: shard_tracked_index(2) [OF sh [OF that(1)]] shard_tracked_index(2) [OF sh [OF that(2)]])
  ultimately show ?thesis unfolding tracked_shards [OF assms] by (subst card_UN_disjoint) (auto simp: card_shard_tracked g)
qed

lemma collect_statistics_counts:
  assumes "store_ok ps"
  shows "collect_statistics ps =
    (of_nat (card (tracked ps)), of_nat (card (entries True ps)), of_nat (card (entries False ps)))"
proof -
  have ln: "length (shards ps) = 2 * half ps" and
    sh: "\<And>i. i < 2 * half ps \<Longrightarrow> shard_ok (half ps) i (shards ps ! i)"
    using assms by (auto simp: store_ok_def)
  have "(\<Sum>s\<leftarrow>shards ps. f s) = (\<Sum>i < 2 * half ps. f (shards ps ! i))" for f :: "peerShard \<Rightarrow> u64"
    by (simp add: sum_list_sum_nth ln atLeast0LessThan)
  then show ?thesis
    using shard_entries_counters [OF sh] by (simp add: collect_statistics_eq card_entries [OF assms] card_tracked [OF assms])
qed

subsection \<open>The key-value store\<close>

lemma m_get_store_entries:
  "m_get (store_entries m es) k \<noteq> None \<longleftrightarrow> k \<in> e_Key ` set es \<or> m_get m k \<noteq> None"
  by (induction m es rule: store_entries.induct) auto

lemma m_get_delete_keys_of:
  "m_get (delete_keys_of m ks) k = (if k \<in> set ks then None else m_get m k)"
  by (induction m ks rule: delete_keys_of.induct) auto

lemma dataStore_Put_contains:
  "fst (dataStore_Contains (snd (dataStore_Put ds c es)) c' k) \<longleftrightarrow>
     c' = c \<and> k \<in> e_Key ` set es \<or> fst (dataStore_Contains ds c' k)"
  using m_get_store_entries [of "case m_get ds c of None \<Rightarrow> [] | Some m \<Rightarrow> m" es k]
  by (auto simp: dataStore_Put_def dataStore_Contains_def Let_def split: option.splits)

lemma dataStore_Delete_contains:
  "fst (dataStore_Contains (snd (dataStore_Delete ds c ks)) c' k) \<longleftrightarrow>
     fst (dataStore_Contains ds c' k) \<and> \<not> (c' = c \<and> k \<in> set ks)"
  by (auto simp: dataStore_Delete_def dataStore_Contains_def m_get_delete_keys_of split: option.splits)

lemma dataStore_no_error:
  "fst (dataStore_Put ds c es) = None" "fst (dataStore_Delete ds c ks) = None"
  "snd (dataStore_Contains ds c k) = None" "snd (dataStore_Load ds c k) = None"
  by (simp_all add: dataStore_Put_def dataStore_Delete_def dataStore_Contains_def dataStore_Load_def
      Let_def split: option.splits)

subsection \<open>The contracts hold of the driver\<close>

lemma refines_sets:
  assumes "refines ps r e R"
  obtains ps' where "r = Ret (e, ps')" "store_ok ps'" "swarm_peers ps' = reg_peers R"
  using assms by (auto simp: refines_def swarm_peers_def split: go.splits)

lemma spec_sets:
  "reg_peers (spec_put sd now ih p R) sd' =
     (if sd' = sd then (reg_peers R sd)(ih := insert p (reg_peers R sd ih)) else reg_peers R sd')"
  "reg_peers (spec_del sd ih p R) sd' =
     (if sd' = sd then (reg_peers R sd)(ih := reg_peers R sd ih - {p}) else reg_peers R sd')"
  by (auto simp: spec_put_def spec_del_def reg_peers_def fun_eq_iff)

lemma swarm_missing_benign [simp]: "benign (swarm_missing ps ih p)"
  by (simp add: swarm_missing_def)

lemma memory_peer_storage:
  assumes "is_order ord"
  shows "peer_storage (memory_storage now ord) store_ok
     (\<lambda>ps. swarm_peers ps True) (\<lambda>ps. swarm_peers ps False) (\<lambda>p. True)"
proof unfold_locales
  fix ps ih p assume a: "store_ok ps" "is_infohash ih"
  then have ok: "4 \<le> length ih" by (simp add: is_infohash_length)
  show "\<exists>s'. ps_PutSeeder (memory_storage now ord) ps ih p = Ret (None, s') \<and> store_ok s' \<and>
     swarm_peers s' True = (swarm_peers ps True)(ih := insert p (swarm_peers ps True ih)) \<and>
     swarm_peers s' False = swarm_peers ps False"
    using PutSeeder_refines [OF a(1) ok, of now p]
    by (elim refines_sets) (simp add: memory_storage_def spec_sets swarm_peers_def [symmetric])
  show "\<exists>e s'. ps_DeleteSeeder (memory_storage now ord) ps ih p = Ret (e, s') \<and> benign e \<and> store_ok s' \<and>
     swarm_peers s' True = (swarm_peers ps True)(ih := swarm_peers ps True ih - {p}) \<and>
     swarm_peers s' False = swarm_peers ps False"
    using DeleteSeeder_refines [OF a(1) ok, of p]
    by (elim refines_sets) (simp add: memory_storage_def spec_sets swarm_peers_def [symmetric])
  show "\<exists>s'. ps_PutLeecher (memory_storage now ord) ps ih p = Ret (None, s') \<and> store_ok s' \<and>
     swarm_peers s' True = swarm_peers ps True \<and>
     swarm_peers s' False = (swarm_peers ps False)(ih := insert p (swarm_peers ps False ih))"
    using PutLeecher_refines [OF a(1) ok, of now p]
    by (elim refines_sets) (simp add: memory_storage_def spec_sets swarm_peers_def [symmetric])
  show "\<exists>e s'. ps_DeleteLeecher (memory_storage now ord) ps ih p = Ret (e, s') \<and> benign e \<and> store_ok s' \<and>
     swarm_peers s' True = swarm_peers ps True \<and>
     swarm_peers s' False = (swarm_peers ps False)(ih := swarm_peers ps False ih - {p})"
    using DeleteLeecher_refines [OF a(1) ok, of p]
    by (elim refines_sets) (simp add: memory_storage_def spec_sets swarm_peers_def [symmetric])
  show "\<exists>s'. ps_GraduateLeecher (memory_storage now ord) ps ih p = Ret (None, s') \<and> store_ok s' \<and>
     swarm_peers s' True = (swarm_peers ps True)(ih := insert p (swarm_peers ps True ih)) \<and>
     swarm_peers s' False = (swarm_peers ps False)(ih := swarm_peers ps False ih - {p})"
    using GraduateLeecher_refines [OF a(1) ok, of now p]
    by (elim refines_sets) (simp add: memory_storage_def spec_sets swarm_peers_def [symmetric])
  show "\<exists>d. ps_ScrapeSwarm (memory_storage now ord) ps ih =
      Ret (of_nat (card (swarm_peers ps False ih)), of_nat (card (swarm_peers ps True ih)), d, None)"
    using ScrapeSwarm_eq [OF a(1) ok] by (simp add: memory_storage_def)
next
  fix ps ih forSeeder v6 and n :: int assume a: "store_ok ps" "is_infohash ih" "0 < n"
  then have n1: "-1 \<le> n" by simp
  obtain peers where peers: "AnnouncePeers ord ps ih forSeeder n v6 = Ret (peers, None)"
    "set peers \<subseteq> of_family v6 ((if forSeeder then {} else swarm_peers ps True ih) \<union> swarm_peers ps False ih)"
    "int (length peers) = min (max 1 n) (int ((if forSeeder then 0 else
       card (of_family v6 (swarm_peers ps True ih))) + card (of_family v6 (swarm_peers ps False ih))))"
    "int (length peers) < n \<Longrightarrow>
       set peers = of_family v6 ((if forSeeder then {} else swarm_peers ps True ih) \<union> swarm_peers ps False ih)"
    by (rule AnnouncePeers_peers [OF a(1) is_infohash_length [OF a(2)] n1 assms, of forSeeder v6]) (rule that)
  then show "\<exists>peers e. ps_AnnouncePeers (memory_storage now ord) ps ih forSeeder n v6 = Ret (peers, e) \<and> benign e \<and>
      set peers \<subseteq> of_family v6 ((if forSeeder then {} else swarm_peers ps True ih) \<union> swarm_peers ps False ih) \<and>
      int (length peers) = min n (int ((if forSeeder then 0 else card (of_family v6 (swarm_peers ps True ih)))
        + card (of_family v6 (swarm_peers ps False ih)))) \<and>
      (int (length peers) < n \<longrightarrow>
         set peers = of_family v6 ((if forSeeder then {} else swarm_peers ps True ih) \<union> swarm_peers ps False ih))"
    using a(3) by (intro exI [of _ peers] exI [of _ None]) (simp add: memory_storage_def max_def)
next
  fix ps ih assume "store_ok ps"
  then show "finite (swarm_peers ps True ih) \<and> finite (swarm_peers ps False ih)"
    by (simp add: finite_swarm_peers)
qed

interpretation mem: peer_storage "memory_storage now (\<lambda>xs. xs)" store_ok
    "\<lambda>ps. swarm_peers ps True" "\<lambda>ps. swarm_peers ps False" "\<lambda>p. True" for now
  by (rule memory_peer_storage) simp


lemma memory_data_storage: "data_storage (DataStorage.truncate (memory_storage now ord)) (\<lambda>ps. True)"
  by unfold_locales
    (auto simp: DataStorage.truncate_def memory_storage_def case_prod_unfold Let_def dataStore_no_error
      dataStore_Put_contains dataStore_Delete_contains)

interpretation memd: data_storage "DataStorage.truncate (memory_storage now ord)" "\<lambda>ps. True" for now ord
  by (rule memory_data_storage)

definition last_value :: "Entry list \<Rightarrow> bytes \<Rightarrow> bytes option" where
  "last_value es k = map_of (rev (map (\<lambda>e. (e_Key e, e_Value e)) es)) k"

lemma store_entries_get:
  "m_get (store_entries m es) k = (case last_value es k of Some v \<Rightarrow> Some v | None \<Rightarrow> m_get m k)"
  by (induction m es rule: store_entries.induct)
    (auto simp: last_value_def map_add_def split: option.splits)

lemma dataStore_Put_Load:
  "dataStore_Load (snd (dataStore_Put ds c es)) c' k =
     (case (if c' = c then last_value es k else None) of Some v \<Rightarrow> (Some v, None)
      | None \<Rightarrow> dataStore_Load ds c' k)"
  using store_entries_get [of "case m_get ds c of None \<Rightarrow> [] | Some m \<Rightarrow> m" es k]
  by (auto simp: dataStore_Put_def dataStore_Load_def Let_def last_value_def split: option.splits)

subsection \<open>Properties\<close>

definition example_ih :: infohash where
  "example_ih = replicate 20 7"

definition example_peer :: Peer where
  "example_peer = \<lparr>peer_ID = replicate 20 1,
     peer_AddrPort = \<lparr>ap_addr = AddrV4 0x01020304, ap_port = 6881\<rparr>\<rparr>"

lemma example_store: "store_ok (NewPeerStorage 1)" "is_infohash example_ih"
  "abs_store (NewPeerStorage 1) = (\<lambda>ih sd p. None)"
  by (auto simp: NewPeerStorage_ok memory_Validate_def MaxInt_def is_infohash_def example_ih_def len_defs)

text \<open>
  C1: Every operation of the in-memory store that changes peers returns without panicking
  on a well-formed store, keeps it well-formed, and does to the peers exactly what the
  registry operation does: \<open>PutSeeder\<close> and \<open>PutLeecher\<close> set the last-announce time of one
  peer in one role, the deletions remove it, \<open>GraduateLeecher\<close> moves it, and the garbage
  collection removes the peers whose time is not after the cutoff. The deletions report a
  missing resource when there is no such swarm; nothing else reports an error.
\<close>

theorem memory_refines_registry:
  assumes "is_order ord" and "is_order ordh" and "store_ok ps" and "op_ok op"
  shows "\<exists>ps'. run_op ord ordh now op ps = Ret (op_err op ps, ps') \<and> store_ok ps' \<and>
           abs_store ps' = spec_op now op (abs_store ps)"
  using run_op_refines [OF assms, of now] by (auto simp: refines_def split: go.splits)

theorem memory_refines_registry_witness:
  "\<exists>ps'. run_op rev rev 5 (OpPutSeeder example_ih example_peer) (NewPeerStorage 1) = Ret (None, ps') \<and>
     store_ok ps' \<and> abs_store ps' example_ih True example_peer = Some 5"
  using memory_refines_registry [of rev rev "NewPeerStorage 1" "OpPutSeeder example_ih example_peer" 5]
  by (auto simp: example_store spec_put_def)

text \<open>
  C11: After any sequence of operations on a new store, whatever the clock values and the
  iteration orders of the maps, the store is well-formed and holds the peers of the registry
  that went through the same operations. One statistics tick reports, modulo \<open>2 ^ 64\<close>, the
  numbers of its seeders and leechers, and as the number of infohashes the number of swarms it
  keeps: one for each infohash and address family that was put or graduated into, emptied ones
  included until the next collection, which keeps those with a peer left. So this number is at
  least that of the pairs of an infohash and a family with peers, and an infohash with peers of
  both families counts twice.
\<close>

theorem memory_reachable_correct:
  assumes "mem_reach c ps R W" and "memory_Validate c < 2 ^ 31"
  shows "store_ok ps \<and> abs_store ps = R \<and> populated R \<subseteq> W \<and>
     collect_statistics ps = (of_nat (card W),
       of_nat (card {(ih, p). R ih True p \<noteq> None}), of_nat (card {(ih, p). R ih False p \<noteq> None}))"
  using mem_reach_ok [OF assms] collect_statistics_counts [of ps] populated_tracked [of ps] by (simp add: entries_def)

theorem memory_reachable_correct_witness:
  "\<exists>ps. PutLeecher 5 (NewPeerStorage 1) example_ih example_peer = Ret (None, ps) \<and>
     collect_statistics ps = (1, 0, 1)"
proof -
  obtain ps where ps: "PutLeecher 5 (NewPeerStorage 1) example_ih example_peer = Ret (None, ps)"
    using PutLeecher_refines [of "NewPeerStorage 1" example_ih 5 example_peer] example_store
    by (auto simp: refines_def is_infohash_length split: go.splits)
  then have "mem_reach 1 ps (spec_op 5 (OpPutLeecher example_ih example_peer) (\<lambda>ih sd p. None))
      (spec_tracked (OpPutLeecher example_ih example_peer) (\<lambda>ih sd p. None) {})"
    using mem_reach.op [OF mem_reach.start, of "OpPutLeecher example_ih example_peer" rev rev 5 1 None ps]
    by (simp add: example_store)
  from memory_reachable_correct [OF this] have
    "collect_statistics ps = (1, of_nat (card {(ih, p). False}),
       of_nat (card {(ih, p). ih = example_ih \<and> p = example_peer}))"
    by (simp add: memory_Validate_def MaxInt_def spec_put_def)
  moreover have "{(ih, p). ih = example_ih \<and> p = example_peer} = {(example_ih, example_peer)}" by auto
  ultimately show ?thesis using ps by simp
qed

text \<open>
  C13: \<open>AnnouncePeers\<close> returns peers of the swarm and of the address family asked for, only
  leechers for a seeder, all of them when there are at most \<open>numWant\<close> and \<open>numWant\<close> of them
  otherwise; a leecher gets seeders first. The one exception to the number is a \<open>numWant\<close> of
  zero or minus one, for which one peer is returned where there is one.
\<close>

theorem AnnouncePeers_correct:
  assumes "store_ok ps" and "is_infohash ih" and "-1 \<le> numWant" and "is_order ord"
  shows "\<exists>peers. AnnouncePeers ord ps ih forSeeder numWant v6 = Ret (peers, None) \<and>
     set peers \<subseteq> of_family v6 ((if forSeeder then {} else swarm_peers ps True ih) \<union> swarm_peers ps False ih) \<and>
     int (length peers) = min (max 1 numWant)
       (int ((if forSeeder then 0 else card (of_family v6 (swarm_peers ps True ih))) +
             card (of_family v6 (swarm_peers ps False ih)))) \<and>
     (\<not> forSeeder \<longrightarrow> int (card (of_family v6 (swarm_peers ps True ih))) \<le> numWant \<longrightarrow>
        of_family v6 (swarm_peers ps True ih) \<subseteq> set peers)"
proof -
  obtain peers where p: "AnnouncePeers ord ps ih forSeeder numWant v6 = Ret (peers, None)"
    "set peers \<subseteq> of_family v6 ((if forSeeder then {} else swarm_peers ps True ih) \<union> swarm_peers ps False ih)"
    "int (length peers) = min (max 1 numWant)
       (int ((if forSeeder then 0 else card (of_family v6 (swarm_peers ps True ih))) +
             card (of_family v6 (swarm_peers ps False ih))))"
    by (rule AnnouncePeers_peers [OF assms(1) is_infohash_length [OF assms(2)] assms(3,4)]) (rule that)
  moreover have "of_family v6 (swarm_peers ps True ih) \<subseteq> set peers"
    if "\<not> forSeeder" "int (card (of_family v6 (swarm_peers ps True ih))) \<le> numWant"
    using AnnouncePeers_seeders [OF assms(1) is_infohash_length [OF assms(2)] assms(3,4)] p(1) that by simp
  ultimately show ?thesis by blast
qed

theorem AnnouncePeers_correct_witness:
  "AnnouncePeers rev (NewPeerStorage 1) example_ih False 50 True = Ret ([], None)"
  using AnnouncePeers_correct [of "NewPeerStorage 1" example_ih 50 rev False True]
  by (auto simp: example_store swarm_peers_def reg_peers_def of_family_def)

text \<open>
  \<open>ScrapeSwarm\<close> returns the numbers of leechers and of seeders of both address
  families, modulo \<open>2 ^ 32\<close>, no snatches and no error.
\<close>

theorem ScrapeSwarm_correct:
  assumes "store_ok ps" and "is_infohash ih"
  shows "ScrapeSwarm ps ih = Ret (of_nat (card (swarm_peers ps False ih)),
     of_nat (card (swarm_peers ps True ih)), 0, None)"
  using ScrapeSwarm_eq assms is_infohash_length by blast

theorem ScrapeSwarm_correct_witness: "ScrapeSwarm (NewPeerStorage 1) example_ih = Ret (0, 0, 0, None)"
  using ScrapeSwarm_correct [of "NewPeerStorage 1" example_ih]
  by (simp add: example_store swarm_peers_def reg_peers_def)

text \<open>
  After a garbage collection a peer is in a swarm exactly when it was there with a
  last-announce time after the cutoff, the time is kept, and no swarm without peers is left.
\<close>

theorem gc_correct:
  assumes "is_order ord" and "is_order ordh" and "store_ok ps"
  shows "store_ok (gc ord ordh cutoff ps) \<and>
     (abs_store (gc ord ordh cutoff ps) ih sd p = Some t \<longleftrightarrow> abs_store ps ih sd p = Some t \<and> cutoff < t) \<and>
     (swarm_at (gc ord ordh cutoff ps) ih v6 = Some sw \<longrightarrow> seeders sw \<noteq> [] \<or> leechers sw \<noteq> [])"
  using gc_refines [OF assms, of cutoff] gc_store_ok [OF assms, of cutoff]
  by (auto simp: refines_def spec_gc_def gc_swarm_at [OF assms] gc_swarm_of_def Let_def
      split: option.splits if_splits)

theorem gc_correct_witness:
  "\<exists>ps. PutSeeder 5 (NewPeerStorage 1) example_ih example_peer = Ret (None, ps) \<and>
     abs_store (gc rev rev 4 ps) example_ih True example_peer = Some 5 \<and>
     abs_store (gc rev rev 5 ps) example_ih True example_peer \<noteq> Some 5"
proof -
  obtain ps where ps: "PutSeeder 5 (NewPeerStorage 1) example_ih example_peer = Ret (None, ps)"
    "store_ok ps" "abs_store ps example_ih True example_peer = Some 5"
    using PutSeeder_refines [of "NewPeerStorage 1" example_ih 5 example_peer] example_store
    by (auto simp: refines_def is_infohash_length spec_put_def split: go.splits)
  have o: "is_order rev" by simp
  show ?thesis
    using ps gc_correct [OF o o ps(2), of 4 example_ih True example_peer 5]
      gc_correct [OF o o ps(2), of 5 example_ih True example_peer 5] by auto
qed

text \<open>
  Once the store is closed, every operation on swarms panics and a garbage collection
  does nothing.
\<close>

theorem closed_store_panics:
  fixes ps
  defines "cs \<equiv> snd (memory_Close ps)"
  shows "PutSeeder now cs ih p = Panic closed_panic \<and> DeleteSeeder cs ih p = Panic closed_panic \<and>
     PutLeecher now cs ih p = Panic closed_panic \<and> DeleteLeecher cs ih p = Panic closed_panic \<and>
     GraduateLeecher now cs ih p = Panic closed_panic \<and>
     AnnouncePeers ord cs ih forSeeder n v6 = Panic closed_panic \<and>
     ScrapeSwarm cs ih = Panic closed_panic \<and> gc ord ordh cutoff cs = cs"
  by (simp add: cs_def memory_Close_def PutSeeder_def DeleteSeeder_def PutLeecher_def DeleteLeecher_def
      GraduateLeecher_def AnnouncePeers_def ScrapeSwarm_def gc_def)

theorem closed_store_panics_witness:
  "ScrapeSwarm (snd (memory_Close (NewPeerStorage 1))) example_ih = Panic closed_panic"
  using closed_store_panics [of 0 "NewPeerStorage 1" example_ih] by simp

text \<open>
  In the key-value store, after a \<open>Put\<close> a key of the same context loads the last value
  put for it, every other key and context what it loaded before, and \<open>Contains\<close> says
  whether there is a value; after a \<open>Delete\<close> exactly the named keys of the context are gone.
\<close>

theorem dataStore_correct:
  "dataStore_Load (snd (dataStore_Put ds c es)) c' k =
     (case (if c' = c then last_value es k else None) of Some v \<Rightarrow> (Some v, None)
      | None \<Rightarrow> dataStore_Load ds c' k) \<and>
   dataStore_Load (snd (dataStore_Delete ds c ks)) c' k =
     (if c' = c \<and> k \<in> set ks then (None, None) else dataStore_Load ds c' k) \<and>
   fst (dataStore_Contains ds c' k) = (fst (dataStore_Load ds c' k) \<noteq> None)"
  using dataStore_Put_Load [of ds c es c' k]
  by (auto simp: dataStore_Delete_def dataStore_Load_def dataStore_Contains_def m_get_delete_keys_of
      split: option.splits)

text \<open>
  Whatever the clock and the iteration order, the in-memory driver satisfies the storage
  contract the middleware relies on.
\<close>

theorem memory_storage_contract:
  assumes "is_order ord"
  shows "peer_storage (memory_storage now ord) store_ok
     (\<lambda>ps. swarm_peers ps True) (\<lambda>ps. swarm_peers ps False) (\<lambda>p. True)"
  using assms by (rule memory_peer_storage)

theorem memory_storage_contract_witness:
  "peer_storage (memory_storage 7 rev) store_ok (\<lambda>ps. swarm_peers ps True) (\<lambda>ps. swarm_peers ps False) (\<lambda>p. True) \<and>
   store_ok (NewPeerStorage 1)"
  using memory_storage_contract [of rev 7] by (simp add: example_store)

end
