(* ===== verification/MiddlewareProps.thy ===== *)
theory MiddlewareProps
  imports Middleware MemoryProps
begin

section \<open>What the hooks and the logic guarantee\<close>

text \<open>
  Proved once for every storage that keeps the contract \<open>peer_storage\<close>: the effect of the
  swarm interaction hook on the swarms, the peers and counts of a response, the totals of a
  scrape, and how the logic runs the hooks.
\<close>

subsection \<open>What the hooks do to a storage that keeps its contract\<close>

definition hashes :: "infohash \<Rightarrow> infohash set" where
  "hashes ih = {ih, TruncateV1 ih}"

definition effect_seeders :: "AnnounceRequest \<Rightarrow> Peer set \<Rightarrow> Peer set \<Rightarrow> Peer set" where
  "effect_seeders req P S =
     (if areq_Event req = EvStopped then S - P
      else if areq_Event req = EvCompleted \<or> areq_Left req = 0 then S \<union> P else S)"

definition effect_leechers :: "AnnounceRequest \<Rightarrow> Peer set \<Rightarrow> Peer set \<Rightarrow> Peer set" where
  "effect_leechers req P L =
     (if areq_Event req = EvStopped \<or> areq_Event req = EvCompleted then L - P
      else if areq_Left req = 0 then L else L \<union> P)"

lemmas effect_defs = effect_seeders_def effect_leechers_def

lemma effect_Un:
  "effect_seeders req P (effect_seeders req Q S) = effect_seeders req (Q \<union> P) S"
  "effect_leechers req P (effect_leechers req Q L) = effect_leechers req (Q \<union> P) L"
  by (auto simp: effect_defs)

lemma effect_empty [simp]: "effect_seeders req {} S = S" "effect_leechers req {} L = L"
  by (auto simp: effect_defs)

definition avail :: "bool \<Rightarrow> Peer set \<Rightarrow> Peer set \<Rightarrow> Peer set" where
  "avail seeding S L = (if seeding then {} else S) \<union> L"

definition num_avail :: "bool \<Rightarrow> bool \<Rightarrow> Peer set \<Rightarrow> Peer set \<Rightarrow> nat" where
  "num_avail seeding v6 S L = (if seeding then 0 else card (of_family v6 S)) + card (of_family v6 L)"

lemma split_peers_length:
  "split_peers ps u v4 v6 = (v4', v6') \<Longrightarrow>
     length v4' + length v6' \<le> length v4 + length v6 + length ps"
  by (induction ps u v4 v6 rule: split_peers.induct) (auto split: if_splits)

lemma split_peers_distinct:
  "split_peers ps u v4 v6 = (v4', v6') \<Longrightarrow> set v4 \<union> set v6 \<subseteq> set u \<Longrightarrow> distinct v4 \<Longrightarrow> distinct v6 \<Longrightarrow>
     distinct v4' \<and> distinct v6'"
proof (induction ps u v4 v6 rule: split_peers.induct)
  case (2 p ps u v4 v6)
  have "p \<notin> set v4 \<and> p \<notin> set v6" if "p \<notin> set u" using 2(6) that by blast
  then show ?case using 2 by (simp split: if_splits) blast+
qed simp

lemma split_peers_set:
  assumes "split_peers ps u v4 v6 = (v4', v6')"
    and "{p \<in> set u. Is4 (Peer_Addr p)} \<subseteq> set v4" and "{p \<in> set u. Is6 (Peer_Addr p)} \<subseteq> set v6"
  shows "set v4' = set v4 \<union> {p \<in> set ps. Is4 (Peer_Addr p)} \<and>
         set v6' = set v6 \<union> {p \<in> set ps. Is6 (Peer_Addr p)}"
  using assms
proof (induction ps u v4 v6 rule: split_peers.induct)
  case (2 p ps u v4 v6)
  have ex: "Is6 (Peer_Addr p) \<Longrightarrow> \<not> Is4 (Peer_Addr p)" by (cases "Peer_Addr p") auto
  consider (seen) "p \<in> set u" | (v6) "p \<notin> set u" "Is6 (Peer_Addr p)"
    | (v4) "p \<notin> set u" "\<not> Is6 (Peer_Addr p)" "Is4 (Peer_Addr p)"
    | (none) "p \<notin> set u" "\<not> Is6 (Peer_Addr p)" "\<not> Is4 (Peer_Addr p)" by blast
  then show ?case
  proof cases
    case seen
    then have "set v4' = set v4 \<union> {p \<in> set ps. Is4 (Peer_Addr p)} \<and>
         set v6' = set v6 \<union> {p \<in> set ps. Is6 (Peer_Addr p)}" using "2.IH"(1) "2.prems" by simp
    then show ?thesis using seen "2.prems"(2,3) by auto
  next
    case v6
    have "{q \<in> set (p # u). Is4 (Peer_Addr q)} \<subseteq> set v4" "{q \<in> set (p # u). Is6 (Peer_Addr q)} \<subseteq> set (v6 @ [p])"
      using "2.prems"(2,3) ex v6 by auto
    then have "set v4' = set v4 \<union> {p \<in> set ps. Is4 (Peer_Addr p)} \<and>
         set v6' = set (v6 @ [p]) \<union> {p \<in> set ps. Is6 (Peer_Addr p)}"
      using "2.IH"(2) "2.prems"(1) v6 by simp
    then show ?thesis using v6 ex by auto
  next
    case v4
    have "{q \<in> set (p # u). Is4 (Peer_Addr q)} \<subseteq> set (v4 @ [p])" "{q \<in> set (p # u). Is6 (Peer_Addr q)} \<subseteq> set v6"
      using "2.prems"(2,3) v4 by auto
    then have "set v4' = set (v4 @ [p]) \<union> {p \<in> set ps. Is4 (Peer_Addr p)} \<and>
         set v6' = set v6 \<union> {p \<in> set ps. Is6 (Peer_Addr p)}"
      using "2.IH"(3) "2.prems"(1) v4 by simp
    then show ?thesis using v4 by auto
  next
    case none
    then have "set v4' = set v4 \<union> {p \<in> set ps. Is4 (Peer_Addr p)} \<and>
         set v6' = set v6 \<union> {p \<in> set ps. Is6 (Peer_Addr p)}" using "2.IH"(4) "2.prems" by simp
    then show ?thesis using none by auto
  qed
qed simp

lemma TruncateV1_neq:
  assumes "length ih = InfoHashV2Len"
  shows "ih \<noteq> TruncateV1 ih"
proof
  assume "ih = TruncateV1 ih"
  moreover have "length (TruncateV1 ih) = InfoHashV1Len"
    using assms by (simp add: TruncateV1_def len_defs)
  ultimately show False using assms by (simp add: len_defs)
qed

lemma hashes_infohash: "is_infohash ih \<Longrightarrow> h \<in> hashes ih \<Longrightarrow> is_infohash h"
  by (auto simp: hashes_def)

lemma hashes_V1: "length ih = InfoHashV1Len \<Longrightarrow> hashes ih = {ih}"
  by (simp add: hashes_def)

context peer_storage
begin

lemma delete_peer_ok:
  assumes "inv s" and "is_infohash ih" and "pok p"
  shows "\<exists>s'. delete_peer st s ih p = Ret (None, s') \<and> inv s' \<and>
     sds s' = (sds s)(ih := sds s ih - {p}) \<and> lcs s' = (lcs s)(ih := lcs s ih - {p})"
proof -
  obtain e s1 where 1: "ps_DeleteSeeder st s ih p = Ret (e, s1)" "benign e" "inv s1"
      "sds s1 = (sds s)(ih := sds s ih - {p})" "lcs s1 = lcs s"
    using delete_seeder [OF assms] by blast
  obtain e' s2 where 2: "ps_DeleteLeecher st s1 ih p = Ret (e', s2)" "benign e'" "inv s2"
      "sds s2 = sds s1" "lcs s2 = (lcs s1)(ih := lcs s1 ih - {p})"
    using delete_leecher [OF 1(3) assms(2,3)] by blast
  then show ?thesis using 1 2 by (auto simp: delete_peer_def benign_def)
qed

lemma storeFn_ok:
  assumes "inv s" and "is_infohash ih" and "pok p"
  shows "\<exists>s'. storeFn st req s ih p = Ret (None, s') \<and> inv s' \<and>
     sds s' = (sds s)(ih := effect_seeders req {p} (sds s ih)) \<and>
     lcs s' = (lcs s)(ih := effect_leechers req {p} (lcs s ih))"
  using delete_peer_ok [OF assms] graduate_leecher [OF assms] put_seeder [OF assms] put_leecher [OF assms]
  by (auto simp: storeFn_def effect_defs)

lemma store_both_ok:
  assumes "inv s" and "is_infohash ih" and "pok p"
  shows "\<exists>s'. bind_go (storeFn st req s ih p) (\<lambda>(e, s1).
         if e = None \<and> length ih = InfoHashV2Len then storeFn st req s1 (TruncateV1 ih) p else Ret (e, s1)) =
       Ret (None, s') \<and> inv s' \<and>
     sds s' = (\<lambda>h. if h \<in> hashes ih then effect_seeders req {p} (sds s h) else sds s h) \<and>
     lcs s' = (\<lambda>h. if h \<in> hashes ih then effect_leechers req {p} (lcs s h) else lcs s h)"
proof -
  obtain s1 where 1: "storeFn st req s ih p = Ret (None, s1)" "inv s1"
    "sds s1 = (sds s)(ih := effect_seeders req {p} (sds s ih))"
    "lcs s1 = (lcs s)(ih := effect_leechers req {p} (lcs s ih))"
    using storeFn_ok [OF assms] by blast
  show ?thesis
  proof (cases "length ih = InfoHashV2Len")
    case True
    note ne = TruncateV1_neq [OF True]
    obtain s2 where "storeFn st req s1 (TruncateV1 ih) p = Ret (None, s2)" "inv s2"
      "sds s2 = (sds s1)(TruncateV1 ih := effect_seeders req {p} (sds s1 (TruncateV1 ih)))"
      "lcs s2 = (lcs s1)(TruncateV1 ih := effect_leechers req {p} (lcs s1 (TruncateV1 ih)))"
      using storeFn_ok [OF 1(2) is_infohash_TruncateV1 [OF assms(2)] assms(3)] by blast
    then show ?thesis using 1 True ne by (auto simp: hashes_def fun_eq_iff)
  next
    case False
    then have "hashes ih = {ih}" using assms(2) by (simp add: hashes_V1 is_infohash_def)
    then show ?thesis using 1 False by (auto simp: fun_eq_iff)
  qed
qed

lemma store_peers_ok:
  assumes "inv s" and "is_infohash ih" and "\<forall>p \<in> set ps. pok p"
  shows "\<exists>s'. store_peers (storeFn st req) ih ps s = Ret (None, s') \<and> inv s' \<and>
     sds s' = (\<lambda>h. if h \<in> hashes ih then effect_seeders req (set ps) (sds s h) else sds s h) \<and>
     lcs s' = (\<lambda>h. if h \<in> hashes ih then effect_leechers req (set ps) (lcs s h) else lcs s h)"
  using assms(1,3)
proof (induction ps arbitrary: s)
  case Nil
  then show ?case by (simp add: fun_eq_iff)
next
  case (Cons p ps)
  obtain s1 where 1: "bind_go (storeFn st req s ih p) (\<lambda>(e, s1).
         if e = None \<and> length ih = InfoHashV2Len then storeFn st req s1 (TruncateV1 ih) p else Ret (e, s1)) =
       Ret (None, s1)" "inv s1"
     "sds s1 = (\<lambda>h. if h \<in> hashes ih then effect_seeders req {p} (sds s h) else sds s h)"
     "lcs s1 = (\<lambda>h. if h \<in> hashes ih then effect_leechers req {p} (lcs s h) else lcs s h)"
    using store_both_ok [OF Cons.prems(1) assms(2), of p] Cons.prems(2) by (meson list.set_intros(1))
  have st: "store_peers (storeFn st req) ih (p # ps) s = store_peers (storeFn st req) ih ps s1"
    unfolding store_peers.simps 1(1) by simp
  show ?case unfolding st using Cons.IH [OF 1(2)] Cons.prems(2) 1(3,4) by (auto simp: effect_Un fun_eq_iff)
qed

lemma swarm_interaction_ok:
  assumes "inv s" and "is_infohash (areq_InfoHash req)" and "\<not> ctx_SkipSwarmInteraction c"
    and "\<forall>p \<in> set (RequestPeer_Peers (areq_RequestPeer req)). pok p"
  shows "\<exists>s'. swarmInteraction_HandleAnnounce st c req resp s = Ret (Inr (c, req, resp), s') \<and> inv s' \<and>
     (\<forall>h. sds s' h = (if h \<in> hashes (areq_InfoHash req)
        then effect_seeders req (set (RequestPeer_Peers (areq_RequestPeer req))) (sds s h) else sds s h)) \<and>
     (\<forall>h. lcs s' h = (if h \<in> hashes (areq_InfoHash req)
        then effect_leechers req (set (RequestPeer_Peers (areq_RequestPeer req))) (lcs s h) else lcs s h))"
  using store_peers_ok [OF assms(1,2,4), of req] assms(3)
  by (auto simp: swarmInteraction_HandleAnnounce_def)

lemma response_scrape_ok:
  assumes "inv s" and "is_infohash ih"
  shows "\<exists>d. response_scrape st s ih = Ret (of_nat (\<Sum>h \<in> hashes ih. card (lcs s h)),
     of_nat (\<Sum>h \<in> hashes ih. card (sds s h)), d, None)"
proof (cases "length ih = InfoHashV2Len")
  case True
  then show ?thesis
    using TruncateV1_neq [OF True] scrape_swarm [OF assms] scrape_swarm [OF assms(1) is_infohash_TruncateV1 [OF assms(2)]] True
    by (auto simp: response_scrape_def hashes_def)
next
  case False
  then have "hashes ih = {ih}" using assms(2) by (simp add: hashes_V1 is_infohash_def)
  then show ?thesis using scrape_swarm [OF assms] False by (auto simp: response_scrape_def)
qed

lemma fetch_peers_ok:
  assumes "inv s" and "\<forall>(ih, v6) \<in> set args. is_infohash ih" and "0 \<le> n"
  shows "\<exists>ps. fetch_peers st s seeding args peers n = Ret (Inr (peers @ ps)) \<and>
     set ps \<subseteq> (\<Union>(ih, v6) \<in> set args. of_family v6 (avail seeding (sds s ih) (lcs s ih))) \<and>
     int (length ps) = min n (int (\<Sum>(ih, v6)\<leftarrow>args. num_avail seeding v6 (sds s ih) (lcs s ih))) \<and>
     (int (length ps) < n \<longrightarrow> set ps = (\<Union>(ih, v6) \<in> set args. of_family v6 (avail seeding (sds s ih) (lcs s ih))))"
  using assms(2,3)
proof (induction args arbitrary: peers n)
  case Nil
  then show ?case by simp
next
  case (Cons a args)
  obtain ih v6 where a: "a = (ih, v6)" by (cases a)
  show ?case
  proof (cases "n = 0")
    case True
    then show ?thesis by (simp add: a)
  next
    case False
    then have n: "0 < n" and ih: "is_infohash ih" using Cons.prems a by auto
    obtain ps e where 1: "ps_AnnouncePeers st s ih seeding n v6 = Ret (ps, e)" "benign e"
      "set ps \<subseteq> of_family v6 (avail seeding (sds s ih) (lcs s ih))"
      "int (length ps) = min n (int (num_avail seeding v6 (sds s ih) (lcs s ih)))"
      "int (length ps) < n \<longrightarrow> set ps = of_family v6 (avail seeding (sds s ih) (lcs s ih))"
      using announce_peers [OF assms(1) ih n, of seeding v6] unfolding avail_def num_avail_def by blast
    have st: "fetch_peers st s seeding (a # args) peers n =
        fetch_peers st s seeding args (peers @ ps) (n - int (length ps))"
      using n 1(1,2) by (auto simp: a benign_def)
    have "0 \<le> n - int (length ps)" using 1(4) by simp
    then obtain qs where 2: "fetch_peers st s seeding args (peers @ ps) (n - int (length ps)) = Ret (Inr ((peers @ ps) @ qs))"
      "set qs \<subseteq> (\<Union>(ih, v6) \<in> set args. of_family v6 (avail seeding (sds s ih) (lcs s ih)))"
      "int (length qs) = min (n - int (length ps)) (int (\<Sum>(ih, v6)\<leftarrow>args. num_avail seeding v6 (sds s ih) (lcs s ih)))"
      "int (length qs) < n - int (length ps) \<longrightarrow>
         set qs = (\<Union>(ih, v6) \<in> set args. of_family v6 (avail seeding (sds s ih) (lcs s ih)))"
      using Cons.IH [of "n - int (length ps)" "peers @ ps"] Cons.prems by auto
    show ?thesis
    proof (intro exI conjI)
      show "fetch_peers st s seeding (a # args) peers n = Ret (Inr (peers @ (ps @ qs)))"
        unfolding st 2(1) by simp
      show "set (ps @ qs) \<subseteq> (\<Union>(ih, v6) \<in> set (a # args). of_family v6 (avail seeding (sds s ih) (lcs s ih)))"
        using 1(3) 2(2) by (auto simp: a)
      show "int (length (ps @ qs)) = min n (int (\<Sum>(ih, v6)\<leftarrow>a # args. num_avail seeding v6 (sds s ih) (lcs s ih)))"
        using 1(4) 2(3) by (simp add: a)
      show "int (length (ps @ qs)) < n \<longrightarrow> set (ps @ qs) =
          (\<Union>(ih, v6) \<in> set (a # args). of_family v6 (avail seeding (sds s ih) (lcs s ih)))"
        using 1(5) 2(4) by (auto simp: a)
    qed
  qed
qed

end

lemma of_family_both: "of_family v6 P \<union> of_family (\<not> v6) P = P"
  by (auto simp: of_family_def)

definition offered ::
  "bool \<Rightarrow> (infohash \<Rightarrow> Peer set) \<Rightarrow> (infohash \<Rightarrow> Peer set) \<Rightarrow> infohash \<Rightarrow> Peer set" where
  "offered seeding S L ih = (\<Union>h \<in> hashes ih. avail seeding (S h) (L h))"

definition num_offered ::
  "bool \<Rightarrow> (infohash \<Rightarrow> Peer set) \<Rightarrow> (infohash \<Rightarrow> Peer set) \<Rightarrow> infohash \<Rightarrow> nat" where
  "num_offered seeding S L ih = (\<Sum>h \<in> hashes ih. (if seeding then 0 else card (S h)) + card (L h))"

lemma num_avail_both:
  "finite S \<Longrightarrow> finite L \<Longrightarrow>
     num_avail sd v6 S L + num_avail sd (\<not> v6) S L = (if sd then 0 else card S) + card L"
  using card_of_family [of S] card_of_family [of L] by (cases v6) (auto simp: num_avail_def)

lemma fetch_args_infohash:
  "is_infohash (areq_InfoHash req) \<Longrightarrow> \<forall>(ih, v6) \<in> set (fetch_args req). is_infohash ih"
  by (auto simp: fetch_args_def Let_def)

lemma fetch_args_union:
  assumes "is_infohash (areq_InfoHash req)"
  shows "(\<Union>(ih, v6) \<in> set (fetch_args req). of_family v6 (avail sd (S ih) (L ih))) =
     offered sd S L (areq_InfoHash req)"
proof (cases "length (areq_InfoHash req) = InfoHashV2Len")
  case True
  then show ?thesis
    by (simp add: fetch_args_def Let_def offered_def hashes_def Un_assoc [symmetric] of_family_both del: of_family_Un)
next
  case False
  then have "hashes (areq_InfoHash req) = {areq_InfoHash req}"
    using assms by (simp add: hashes_V1 is_infohash_def)
  with False show ?thesis
    by (simp add: fetch_args_def Let_def offered_def of_family_both del: of_family_Un)
qed

lemma fetch_args_sum:
  assumes "is_infohash (areq_InfoHash req)" and "\<And>h. finite (S h)" and "\<And>h. finite (L h)"
  shows "(\<Sum>(ih, v6)\<leftarrow>fetch_args req. num_avail sd v6 (S ih) (L ih)) = num_offered sd S L (areq_InfoHash req)"
proof (cases "length (areq_InfoHash req) = InfoHashV2Len")
  case True
  note both = num_avail_both [OF assms(2,3)]
  show ?thesis
    using True TruncateV1_neq [OF True]
      both [of sd "Is6 (GetFirst (rp_RequestAddresses (areq_RequestPeer req)))" "areq_InfoHash req" "areq_InfoHash req"]
      both [of sd "Is6 (GetFirst (rp_RequestAddresses (areq_RequestPeer req)))" "TruncateV1 (areq_InfoHash req)" "TruncateV1 (areq_InfoHash req)"]
    by (simp add: fetch_args_def Let_def num_offered_def hashes_def)
next
  case False
  then have "hashes (areq_InfoHash req) = {areq_InfoHash req}"
    using assms by (simp add: hashes_V1 is_infohash_def)
  with False show ?thesis
    using num_avail_both [OF assms(2,3), of sd _ "areq_InfoHash req" "areq_InfoHash req"]
    by (simp add: fetch_args_def Let_def num_offered_def)
qed

definition bump :: "AnnounceRequest \<Rightarrow> AnnounceResponse \<Rightarrow> AnnounceResponse" where
  "bump req resp = (if areq_Left req = 0 then resp\<lparr>aresp_Complete := aresp_Complete resp + 1\<rparr>
                    else resp\<lparr>aresp_Incomplete := aresp_Incomplete resp + 1\<rparr>)"

definition valid_peers :: "Peer set \<Rightarrow> Peer set" where
  "valid_peers P = {p \<in> P. Is4 (Peer_Addr p) \<or> Is6 (Peer_Addr p)}"

definition good_peers ::
  "AnnounceRequest \<Rightarrow> (infohash \<Rightarrow> Peer set) \<Rightarrow> (infohash \<Rightarrow> Peer set) \<Rightarrow> Peer list \<Rightarrow> Peer list \<Rightarrow> bool" where
  "good_peers req S L v4 v6 \<longleftrightarrow>
     (let seeding = (areq_Left req = 0); n = unat (areq_NumWant req); ih = areq_InfoHash req;
          P = set v4 \<union> set v6; total = num_offered seeding S L ih
      in distinct v4 \<and> distinct v6 \<and> (\<forall>p. p \<in> set v4 \<longrightarrow> Is4 (Peer_Addr p)) \<and>
         (\<forall>p. p \<in> set v6 \<longrightarrow> Is6 (Peer_Addr p)) \<and>
         (if n = 0 \<or> total = 0
          then P = valid_peers (set (RequestPeer_Peers (areq_RequestPeer req)))
          else P \<subseteq> offered seeding S L ih \<and> length v4 + length v6 \<le> n \<and>
               (total < n \<longrightarrow> P = valid_peers (offered seeding S L ih))))"

context peer_storage
begin

lemma appendPeers_ok:
  assumes "inv s" and "is_infohash (areq_InfoHash req)"
    and "aresp_IPv4Peers resp = []" and "aresp_IPv6Peers resp = []"
  shows "\<exists>v4 v6. appendPeers st s req resp =
       Ret (Inr ((if areq_NumWant req = 0 \<or> num_offered (areq_Left req = 0) (sds s) (lcs s) (areq_InfoHash req) = 0
                  then bump req resp else resp)\<lparr>aresp_IPv4Peers := v4, aresp_IPv6Peers := v6\<rparr>)) \<and>
     good_peers req (sds s) (lcs s) v4 v6"
proof -
  let ?sd = "areq_Left req = 0" and ?n = "int (unat (areq_NumWant req))" and ?ih = "areq_InfoHash req"
  have fin: "finite (sds s h)" "finite (lcs s h)" for h using finite_swarm [OF assms(1)] by auto
  obtain ps where ps: "fetch_peers st s ?sd (fetch_args req) [] ?n = Ret (Inr ps)"
    "set ps \<subseteq> offered ?sd (sds s) (lcs s) ?ih"
    "int (length ps) = min ?n (int (num_offered ?sd (sds s) (lcs s) ?ih))"
    "int (length ps) < ?n \<longrightarrow> set ps = offered ?sd (sds s) (lcs s) ?ih"
    using fetch_peers_ok [OF assms(1) fetch_args_infohash [OF assms(2)], of ?n ?sd "[]"]
    unfolding fetch_args_union [OF assms(2)] fetch_args_sum [OF assms(2) fin] by auto
  define own where "own = RequestPeer_Peers (areq_RequestPeer req)"
  define ps1 where "ps1 = (if ps = [] then own else ps)"
  obtain v4 v6 where sp: "split_peers ps1 [] [] [] = (v4, v6)" by fastforce
  have nil: "ps = [] \<longleftrightarrow> areq_NumWant req = 0 \<or> num_offered ?sd (sds s) (lcs s) ?ih = 0"
  proof -
    have "ps = [] \<longleftrightarrow> int (length ps) = 0" by simp
    also have "\<dots> \<longleftrightarrow> unat (areq_NumWant req) = 0 \<or> num_offered ?sd (sds s) (lcs s) ?ih = 0"
      unfolding ps(3) by linarith
    finally show ?thesis by (simp add: unat_eq_0)
  qed
  have "appendPeers st s req resp = Ret (Inr ((if ps = [] then bump req resp else resp)
      \<lparr>aresp_IPv4Peers := v4, aresp_IPv6Peers := v6\<rparr>))"
    using ps(1) sp assms(3,4) by (auto simp: appendPeers_def Let_def bump_def ps1_def own_def)
  moreover have "good_peers req (sds s) (lcs s) v4 v6"
  proof -
    define n where "n = unat (areq_NumWant req)"
    define N where "N = num_offered ?sd (sds s) (lcs s) ?ih"
    have dist: "distinct v4" "distinct v6" using split_peers_distinct [OF sp] by simp_all
    have sets: "set v4 = {p \<in> set ps1. Is4 (Peer_Addr p)}" "set v6 = {p \<in> set ps1. Is6 (Peer_Addr p)}"
      using split_peers_set [OF sp] by auto
    then have un: "set v4 \<union> set v6 = valid_peers (set ps1)" by (auto simp: valid_peers_def)
    have len: "length ps = min n N" using ps(3) unfolding n_def N_def by linarith
    have full: "set ps = offered ?sd (sds s) (lcs s) ?ih" if "N < n"
      using ps(4) that len unfolding n_def by linarith
    have "valid_peers (set ps1) \<subseteq> set ps1" by (auto simp: valid_peers_def)
    then have "if n = 0 \<or> N = 0 then set v4 \<union> set v6 = valid_peers (set own)
      else set v4 \<union> set v6 \<subseteq> offered ?sd (sds s) (lcs s) ?ih \<and> length v4 + length v6 \<le> n \<and>
        (N < n \<longrightarrow> set v4 \<union> set v6 = valid_peers (offered ?sd (sds s) (lcs s) ?ih))"
      using ps(2) len full split_peers_length [OF sp] unfolding un ps1_def by (cases "ps = []") auto
    then show ?thesis using dist sets unfolding good_peers_def Let_def n_def N_def own_def by simp
  qed
  ultimately show ?thesis using nil by auto
qed

lemma response_ok:
  fixes req c s resp
  defines "ih \<equiv> areq_InfoHash req"
  assumes "inv s" and "is_infohash ih" and "\<not> ctx_SkipResponseHook c"
    and "aresp_IPv4Peers resp = []" and "aresp_IPv6Peers resp = []"
  shows "\<exists>v4 v6. response_HandleAnnounce st c req resp s =
     Ret (Inr (c, req, (let r = resp\<lparr>aresp_Complete := of_nat (\<Sum>h \<in> hashes ih. card (sds s h)),
            aresp_Incomplete := of_nat (\<Sum>h \<in> hashes ih. card (lcs s h))\<rparr>
        in (if areq_NumWant req = 0 \<or> num_offered (areq_Left req = 0) (sds s) (lcs s) ih = 0
            then bump req r else r)\<lparr>aresp_IPv4Peers := v4, aresp_IPv6Peers := v6\<rparr>)), s) \<and>
     good_peers req (sds s) (lcs s) v4 v6"
proof -
  let ?r = "resp\<lparr>aresp_Complete := of_nat (\<Sum>h \<in> hashes ih. card (sds s h)),
            aresp_Incomplete := of_nat (\<Sum>h \<in> hashes ih. card (lcs s h))\<rparr>"
  obtain d where sc: "response_scrape st s ih = Ret (of_nat (\<Sum>h \<in> hashes ih. card (lcs s h)),
     of_nat (\<Sum>h \<in> hashes ih. card (sds s h)), d, None)"
    using response_scrape_ok [OF assms(2,3)] by blast
  obtain v4 v6 where ap: "appendPeers st s req ?r =
       Ret (Inr ((if areq_NumWant req = 0 \<or> num_offered (areq_Left req = 0) (sds s) (lcs s) ih = 0
                  then bump req ?r else ?r)\<lparr>aresp_IPv4Peers := v4, aresp_IPv6Peers := v6\<rparr>))"
     "good_peers req (sds s) (lcs s) v4 v6"
    using appendPeers_ok [OF assms(2), of req ?r] assms(3,5,6) unfolding ih_def by auto
  have "response_HandleAnnounce st c req resp s = Ret (Inr (c, req, (let r = ?r
        in (if areq_NumWant req = 0 \<or> num_offered (areq_Left req = 0) (sds s) (lcs s) ih = 0
            then bump req r else r)\<lparr>aresp_IPv4Peers := v4, aresp_IPv6Peers := v6\<rparr>)), s)"
    using assms(4) sc ap(1) unfolding response_HandleAnnounce_def ih_def Let_def by simp
  with ap(2) show ?thesis by blast
qed

lemma scrape_all_ok:
  assumes "inv s" and "\<forall>ih \<in> set ihs. is_infohash ih"
  shows "\<exists>xs. scrape_all st s ihs dat = Ret (Inr (dat @ xs)) \<and>
     map (\<lambda>x. (scr_InfoHash x, scr_Complete x, scr_Incomplete x)) xs =
     map (\<lambda>ih. (ih, of_nat (\<Sum>h \<in> hashes ih. card (sds s h)), of_nat (\<Sum>h \<in> hashes ih. card (lcs s h)))) ihs"
  using assms(2)
proof (induction ihs arbitrary: dat)
  case Nil
  then show ?case by simp
next
  case (Cons ih ihs)
  obtain d where sc: "response_scrape st s ih = Ret (of_nat (\<Sum>h \<in> hashes ih. card (lcs s h)),
     of_nat (\<Sum>h \<in> hashes ih. card (sds s h)), d, None)"
    using response_scrape_ok [OF assms(1)] Cons.prems by auto
  let ?x = "\<lparr>scr_InfoHash = ih, scr_Snatches = d, scr_Complete = of_nat (\<Sum>h \<in> hashes ih. card (sds s h)),
     scr_Incomplete = of_nat (\<Sum>h \<in> hashes ih. card (lcs s h))\<rparr>"
  obtain xs where "scrape_all st s ihs (dat @ [?x]) = Ret (Inr ((dat @ [?x]) @ xs))"
     "map (\<lambda>x. (scr_InfoHash x, scr_Complete x, scr_Incomplete x)) xs =
     map (\<lambda>ih. (ih, of_nat (\<Sum>h \<in> hashes ih. card (sds s h)), of_nat (\<Sum>h \<in> hashes ih. card (lcs s h)))) ihs"
    using Cons.IH Cons.prems by (metis (no_types, lifting) list.set_intros(2))
  then show ?case using sc by (intro exI [of _ "?x # xs"]) simp
qed

lemma response_scrape_all_ok:
  assumes "inv s" and "\<forall>ih \<in> set (sreq_InfoHashes req). is_infohash ih" and "\<not> ctx_SkipResponseHook c"
  shows "\<exists>xs. response_HandleScrape st c req resp s =
      Ret (Inr (c, req, resp\<lparr>sresp_Data := sresp_Data resp @ xs\<rparr>), s) \<and>
     map (\<lambda>x. (scr_InfoHash x, scr_Complete x, scr_Incomplete x)) xs =
     map (\<lambda>ih. (ih, of_nat (\<Sum>h \<in> hashes ih. card (sds s h)), of_nat (\<Sum>h \<in> hashes ih. card (lcs s h))))
       (sreq_InfoHashes req)"
  using scrape_all_ok [OF assms(1,2), of "sresp_Data resp"] assms(3)
  by (auto simp: response_HandleScrape_def)

end

subsection \<open>Running the hooks\<close>

lemma run_announce_append:
  "run_announce (hs @ hs') c req resp s =
     bind_go (run_announce hs c req resp s) (\<lambda>(r, s').
       case r of Inl e \<Rightarrow> Ret (Inl e, s')
       | Inr (c', req', resp') \<Rightarrow> run_announce hs' c' req' resp' s')"
proof (induction hs c req resp s rule: run_announce.induct)
  case (3 h hs c req resp s)
  show ?case
  proof (cases "hook_HandleAnnounce h c req resp s")
    case (Ret x)
    then show ?thesis using "3.IH" by (cases x) (auto split: sum.splits)
  qed simp
qed simp_all

lemma run_scrape_append:
  "run_scrape (hs @ hs') c req resp s =
     bind_go (run_scrape hs c req resp s) (\<lambda>(r, s').
       case r of Inl e \<Rightarrow> Ret (Inl e, s')
       | Inr (c', req', resp') \<Rightarrow> run_scrape hs' c' req' resp' s')"
proof (induction hs c req resp s rule: run_scrape.induct)
  case (3 h hs c req resp s)
  show ?case
  proof (cases "hook_HandleScrape h c req resp s")
    case (Ret x)
    then show ?thesis using "3.IH" by (cases x) (auto split: sum.splits)
  qed simp
qed simp_all

definition start_response :: "duration \<Rightarrow> duration \<Rightarrow> AnnounceResponse" where
  "start_response interval minInterval =
     \<lparr>aresp_Complete = 0, aresp_Incomplete = 0, aresp_Interval = interval,
      aresp_MinInterval = minInterval, aresp_IPv4Peers = [], aresp_IPv6Peers = []\<rparr>"

lemma Logic_HandleAnnounce_NewLogic:
  "Logic_HandleAnnounce (NewLogic ai mi st pre post) c req s =
     bind_go (run_announce pre c req (start_response ai mi) s) (\<lambda>(r, s').
       case r of Inl e \<Rightarrow> Ret (Inl e, s')
       | Inr (c', req', resp') \<Rightarrow> response_HandleAnnounce st c' req' resp' s')"
proof -
  have one: "run_announce [Some (responseHook st)] c req resp s = response_HandleAnnounce st c req resp s"
    for c req resp s
    by (cases "response_HandleAnnounce st c req resp s") (auto simp: responseHook_def split: sum.splits)
  show ?thesis
    by (simp add: Logic_HandleAnnounce_def NewLogic_def Let_def run_announce_append one
        start_response_def [symmetric] del: run_announce.simps(3) cong del: sum.case_cong_weak prod.case_cong_weak)
qed

text \<open>What a response must be for a request, given the peers of the swarms.\<close>

definition good_response ::
  "duration \<Rightarrow> duration \<Rightarrow> AnnounceRequest \<Rightarrow> (infohash \<Rightarrow> Peer set) \<Rightarrow> (infohash \<Rightarrow> Peer set) \<Rightarrow> AnnounceResponse \<Rightarrow> bool" where
  "good_response ai mi req S L resp \<longleftrightarrow>
     aresp_Interval resp = ai \<and> aresp_MinInterval resp = mi \<and>
     good_peers req S L (aresp_IPv4Peers resp) (aresp_IPv6Peers resp) \<and>
     (areq_NumWant req \<noteq> 0 \<and> num_offered (areq_Left req = 0) S L (areq_InfoHash req) \<noteq> 0 \<longrightarrow>
        aresp_Complete resp = of_nat (\<Sum>h \<in> hashes (areq_InfoHash req). card (S h)) \<and>
        aresp_Incomplete resp = of_nat (\<Sum>h \<in> hashes (areq_InfoHash req). card (L h)))"

lemma good_response_families:
  "good_response ai mi req S L resp \<Longrightarrow>
     list_all (\<lambda>p. Is4 (Peer_Addr p)) (aresp_IPv4Peers resp) \<and> list_all (\<lambda>p. Is6 (Peer_Addr p)) (aresp_IPv6Peers resp)"
  by (simp add: good_response_def good_peers_def Let_def list_all_iff)

lemma bump_fields [simp]:
  "aresp_Interval (bump req r) = aresp_Interval r" "aresp_MinInterval (bump req r) = aresp_MinInterval r"
  by (simp_all add: bump_def)

context peer_storage
begin

lemma logic_announce_ok:
  assumes "inv s" and "is_infohash (areq_InfoHash req)" and "\<not> ctx_SkipResponseHook c"
  shows "\<exists>resp. Logic_HandleAnnounce (NewLogic ai mi st [] post) c req s = Ret (Inr (c, req, resp), s) \<and>
     good_response ai mi req (sds s) (lcs s) resp"
proof -
  obtain v4 v6 where r: "response_HandleAnnounce st c req (start_response ai mi) s = Ret (Inr (c, req,
      (let r = (start_response ai mi)\<lparr>aresp_Complete := of_nat (\<Sum>h \<in> hashes (areq_InfoHash req). card (sds s h)),
            aresp_Incomplete := of_nat (\<Sum>h \<in> hashes (areq_InfoHash req). card (lcs s h))\<rparr>
        in (if areq_NumWant req = 0 \<or> num_offered (areq_Left req = 0) (sds s) (lcs s) (areq_InfoHash req) = 0
            then bump req r else r)\<lparr>aresp_IPv4Peers := v4, aresp_IPv6Peers := v6\<rparr>)), s)"
    "good_peers req (sds s) (lcs s) v4 v6"
    using response_ok [OF assms, of "start_response ai mi"] by (auto simp: start_response_def)
  show ?thesis
    using r by (simp add: Logic_HandleAnnounce_NewLogic good_response_def Let_def start_response_def)
qed

end

lemma Logic_AfterAnnounce_NewLogic:
  "Logic_AfterAnnounce (NewLogic ai mi st pre []) c req resp s =
     bind_go (swarmInteraction_HandleAnnounce st c req resp s) (\<lambda>(_, s'). Ret s')"
  by (cases "swarmInteraction_HandleAnnounce st c req resp s")
    (auto simp: Logic_AfterAnnounce_def NewLogic_def Let_def swarmInteractionHook_def split: sum.splits)

lemma Logic_HandleScrape_NewLogic:
  "Logic_HandleScrape (NewLogic ai mi st pre post) c req s =
     bind_go (run_scrape pre c req \<lparr>sresp_Data = []\<rparr> s) (\<lambda>(r, s').
       case r of Inl e \<Rightarrow> Ret (Inl e, s')
       | Inr (c', req', resp') \<Rightarrow> response_HandleScrape st c' req' resp' s')"
proof -
  have one: "run_scrape [Some (responseHook st)] c req resp s = response_HandleScrape st c req resp s"
    for c req resp s
    by (cases "response_HandleScrape st c req resp s") (auto simp: responseHook_def split: sum.splits)
  show ?thesis
    by (simp add: Logic_HandleScrape_def NewLogic_def Let_def run_scrape_append one
        del: run_scrape.simps(3) cong del: sum.case_cong_weak prod.case_cong_weak)
qed

lemma scrape_leaves_storage:
  "Logic_AfterScrape (NewLogic ai mi st pre []) c req resp s = Ret s"
  by (simp add: Logic_AfterScrape_def NewLogic_def Let_def swarmInteractionHook_def
      swarmInteraction_HandleScrape_def)

subsection \<open>Properties\<close>

definition example_request :: AnnounceRequest where
  "example_request =
     \<lparr>areq_Event = EvStarted, areq_InfoHash = example_ih, areq_EventProvided = True,
      areq_NumWantProvided = True, areq_NumWant = 50, areq_Left = 5, areq_Downloaded = 0,
      areq_Uploaded = 0,
      areq_RequestPeer = \<lparr>rp_ID = replicate 20 1, rp_Port = 6881,
        rp_RequestAddresses = [\<lparr>ra_Addr = AddrV4 0x01020304, ra_Provided = False\<rparr>]\<rparr>,
      areq_Params = None\<rparr>"

lemma example_request_peers [simp]:
  "RequestPeer_Peers (areq_RequestPeer example_request) = [example_peer]"
  "areq_InfoHash example_request = example_ih" "hashes example_ih = {example_ih}"
  by (simp_all add: example_request_def RequestPeer_Peers_def example_peer_def hashes_def example_ih_def
      TruncateV1_def len_defs)

lemma example_swarm_peers: "swarm_peers (NewPeerStorage 1) sd ih = {}"
  by (simp add: swarm_peers_def reg_peers_def example_store)

text \<open>
  C10: The swarm interaction hook, over any storage that keeps its contract: it never fails
  and never panics, changes the swarm of the request's info hash and, for a V2 hash, of its
  truncation, and no other; there it removes the announcing peers on \<open>Stopped\<close>, moves them
  from the leechers to the seeders on \<open>Completed\<close>, and otherwise adds them to the seeders
  when nothing is left and to the leechers when something is. With the skip key set it does
  nothing.
\<close>

theorem swarm_interaction_correct:
  assumes "peer_storage st I sds lcs pok" and "I s" and "is_infohash (areq_InfoHash req)"
    and "\<forall>p \<in> set (RequestPeer_Peers (areq_RequestPeer req)). pok p"
  shows "\<exists>s'. swarmInteraction_HandleAnnounce st c req resp s = Ret (Inr (c, req, resp), s') \<and> I s' \<and>
     (let P = set (RequestPeer_Peers (areq_RequestPeer req)); H = hashes (areq_InfoHash req) in
      if ctx_SkipSwarmInteraction c then s' = s
      else (\<forall>h. sds s' h = (if h \<in> H then effect_seeders req P (sds s h) else sds s h)) \<and>
           (\<forall>h. lcs s' h = (if h \<in> H then effect_leechers req P (lcs s h) else lcs s h)))"
proof (cases "ctx_SkipSwarmInteraction c")
  case True
  then show ?thesis using assms(2) by (simp add: swarmInteraction_HandleAnnounce_def)
next
  case False
  then show ?thesis
    using peer_storage.swarm_interaction_ok [OF assms(1-3) False assms(4), of resp] by (simp add: Let_def)
qed

theorem swarm_interaction_correct_witness:
  "\<exists>s'. swarmInteraction_HandleAnnounce (memory_storage 7 rev) Background example_request
          (start_response 1 1) (NewPeerStorage 1) = Ret (Inr (Background, example_request, start_response 1 1), s') \<and>
     swarm_peers s' False example_ih = {example_peer}"
proof -
  have "peer_storage (memory_storage 7 rev) store_ok (\<lambda>ps. swarm_peers ps True) (\<lambda>ps. swarm_peers ps False) (\<lambda>p. True)"
    by (rule memory_peer_storage) simp
  from swarm_interaction_correct [OF this example_store(1), of example_request Background "start_response 1 1"]
  show ?thesis
    by (auto simp: example_store Background_def Let_def example_swarm_peers effect_leechers_def)
      (auto simp: example_request_def)
qed

text \<open>
  C4: The response to an announce, for any pre hooks that let the request through without
  putting peers into the response, over any storage that keeps its contract. The storage is
  not changed. \<open>Complete\<close> and \<open>Incomplete\<close> are the numbers of seeders and of leechers (of
  both swarms for a V2 hash). The peers are distinct, IPv4 and IPv6 peers are in their
  lists; they are peers of the swarm, leechers only for a seeder, at most \<open>NumWant\<close> many,
  and all of them when there are fewer than \<open>NumWant\<close>. When there are none, or \<open>NumWant\<close> is
  0, the announcing peers themselves are returned and counted once more.
\<close>

theorem Logic_HandleAnnounce_correct:
  assumes "peer_storage st I sds lcs pok" and "I s'"
    and "run_announce pre c req (start_response ai mi) s = Ret (Inr (c', req', resp'), s')"
    and "is_infohash (areq_InfoHash req')" and "\<not> ctx_SkipResponseHook c'"
    and "aresp_IPv4Peers resp' = []" and "aresp_IPv6Peers resp' = []"
  shows "\<exists>v4 v6. Logic_HandleAnnounce (NewLogic ai mi st pre post) c req s =
     Ret (Inr (c', req',
       (let ih = areq_InfoHash req';
            r = resp'\<lparr>aresp_Complete := of_nat (\<Sum>h \<in> hashes ih. card (sds s' h)),
                     aresp_Incomplete := of_nat (\<Sum>h \<in> hashes ih. card (lcs s' h))\<rparr>
        in (if areq_NumWant req' = 0 \<or> num_offered (areq_Left req' = 0) (sds s') (lcs s') ih = 0
            then bump req' r else r)\<lparr>aresp_IPv4Peers := v4, aresp_IPv6Peers := v6\<rparr>)), s') \<and>
     good_peers req' (sds s') (lcs s') v4 v6"
  using peer_storage.response_ok [OF assms(1,2,4-7)] assms(3)
  by (simp add: Logic_HandleAnnounce_NewLogic Let_def)

theorem Logic_HandleAnnounce_correct_witness:
  "\<exists>v4 v6. Logic_HandleAnnounce (NewLogic 1800 900 (memory_storage 7 rev) [] []) Background example_request
       (NewPeerStorage 1) =
     Ret (Inr (Background, example_request,
       (start_response 1800 900)\<lparr>aresp_Incomplete := 1, aresp_IPv4Peers := v4, aresp_IPv6Peers := v6\<rparr>),
       NewPeerStorage 1) \<and> set v4 \<union> set v6 = {example_peer}"
proof -
  have st: "peer_storage (memory_storage 7 rev) store_ok (\<lambda>ps. swarm_peers ps True) (\<lambda>ps. swarm_peers ps False) (\<lambda>p. True)"
    by (rule memory_peer_storage) simp
  have no: "num_offered sd (swarm_peers (NewPeerStorage 1) True) (swarm_peers (NewPeerStorage 1) False) ih = 0"
    for sd ih by (cases sd) (simp_all add: num_offered_def example_swarm_peers)
  have v: "valid_peers {example_peer} = {example_peer}"
    by (auto simp: valid_peers_def example_peer_def Peer_Addr_def)
  have left: "areq_Left example_request \<noteq> 0" by (simp add: example_request_def)
  show ?thesis
    using Logic_HandleAnnounce_correct [OF st example_store(1), of "[]" Background example_request 1800 900
        "NewPeerStorage 1" Background example_request "start_response 1800 900" "[]"]
    by (auto simp: example_store Background_def start_response_def Let_def example_swarm_peers no bump_def left
        good_peers_def v)
qed

text \<open>
  C32: The response to a scrape: the info hashes asked for, in their order, each with the
  numbers of its seeders and leechers (of both swarms for a V2 hash); neither the scrape nor
  the work after it changes the storage.
\<close>

theorem Logic_HandleScrape_correct:
  assumes "peer_storage st I sds lcs pok" and "I s'"
    and "run_scrape pre c req \<lparr>sresp_Data = []\<rparr> s = Ret (Inr (c', req', \<lparr>sresp_Data = []\<rparr>), s')"
    and "list_all is_infohash (sreq_InfoHashes req')" and "\<not> ctx_SkipResponseHook c'"
  shows "\<exists>xs. Logic_HandleScrape (NewLogic ai mi st pre post) c req s =
       Ret (Inr (c', req', \<lparr>sresp_Data = xs\<rparr>), s') \<and>
     map (\<lambda>x. (scr_InfoHash x, scr_Complete x, scr_Incomplete x)) xs =
       map (\<lambda>ih. (ih, of_nat (\<Sum>h \<in> hashes ih. card (sds s' h)), of_nat (\<Sum>h \<in> hashes ih. card (lcs s' h))))
         (sreq_InfoHashes req') \<and>
     Logic_AfterScrape (NewLogic ai mi st pre []) c' req' \<lparr>sresp_Data = xs\<rparr> s' = Ret s'"
  using peer_storage.response_scrape_all_ok [OF assms(1,2) _ assms(5), of req' "\<lparr>sresp_Data = []\<rparr>"] assms(3,4)
  by (auto simp: Logic_HandleScrape_NewLogic scrape_leaves_storage list_all_iff)

theorem Logic_HandleScrape_correct_witness:
  "\<exists>xs. Logic_HandleScrape (NewLogic 1800 900 (memory_storage 7 rev) [] []) Background
      \<lparr>sreq_RequestAddresses = [], sreq_InfoHashes = [example_ih], sreq_Params = None\<rparr> (NewPeerStorage 1) =
     Ret (Inr (Background, \<lparr>sreq_RequestAddresses = [], sreq_InfoHashes = [example_ih], sreq_Params = None\<rparr>,
       \<lparr>sresp_Data = xs\<rparr>), NewPeerStorage 1) \<and> map scr_InfoHash xs = [example_ih]"
proof -
  let ?req = "\<lparr>sreq_RequestAddresses = [], sreq_InfoHashes = [example_ih], sreq_Params = None\<rparr>"
  have st: "peer_storage (memory_storage 7 rev) store_ok (\<lambda>ps. swarm_peers ps True) (\<lambda>ps. swarm_peers ps False) (\<lambda>p. True)"
    by (rule memory_peer_storage) simp
  show ?thesis
    using Logic_HandleScrape_correct [OF st example_store(1), of "[]" Background ?req "NewPeerStorage 1" Background ?req 1800 900 "[]"]
    by (auto simp: example_store Background_def)
qed

text \<open>
  A hook that refuses a request ends its handling: the hooks after it, the response hook
  among them, do not run, and the error is the answer. A nil hook is only noticed when a
  request reaches it, as a panic.
\<close>

theorem hook_chain_stops:
  assumes "run_announce pre c req (start_response ai mi) s = Ret (Inr (c', req', resp'), s')"
  shows "(hook_HandleAnnounce h c' req' resp' s' = Ret (Inl e, s'') \<longrightarrow>
     Logic_HandleAnnounce (NewLogic ai mi st (pre @ Some h # rest) post) c req s = Ret (Inl e, s'')) \<and>
   Logic_HandleAnnounce (NewLogic ai mi st (pre @ None # rest) post) c req s = Panic nil_deref"
  using assms by (auto simp: Logic_HandleAnnounce_NewLogic run_announce_append)

theorem hook_chain_stops_witness:
  "Logic_HandleAnnounce (NewLogic 1800 900 (memory_storage 7 rev) [None] []) Background example_request
     (NewPeerStorage 1) = Panic nil_deref"
  using hook_chain_stops [of "[]" Background example_request 1800 900 "NewPeerStorage 1"] by simp

end
