(* ===== verification/HttpFrontend.thy ===== *)
theory HttpFrontend
  imports HttpParser HttpWriter MiddlewareProps
begin

section \<open>The HTTP frontend, \<open>frontend/http/frontend.go\<close>\<close>

text \<open>
  Configuration, routing, and the handlers of the three routes. The server of \<open>fasthttp\<close>
  stays outside: a handler is a function from the request to what it writes, and the work it
  leaves for after the response.
\<close>

subsection \<open>Configuration\<close>

record HttpConfig =
  hc_Listen :: ListenOptions
  hc_ReadTimeout :: duration
  hc_WriteTimeout :: duration
  hc_IdleTimeout :: duration
  hc_EnableKeepAlive :: bool
  hc_UseTLS :: bool
  hc_TLSCertPath :: bytes
  hc_TLSKeyPath :: bytes
  hc_AnnounceRoutes :: "bytes list"
  hc_ScrapeRoutes :: "bytes list"
  hc_PingRoutes :: "bytes list"
  hc_ParseOptions :: HttpParseOptions

definition errTLSNotProvided :: goerror where
  "errTLSNotProvided = OtherError ''tls certificate/key not provided''"

definition defaultReadTimeout :: duration where "defaultReadTimeout = 2 * second"
definition defaultWriteTimeout :: duration where "defaultWriteTimeout = 2 * second"
definition defaultIdleTimeout :: duration where "defaultIdleTimeout = 30 * second"
definition DefaultAnnounceRoute :: bytes where "DefaultAnnounceRoute = str ''/announce''"
definition DefaultScrapeRoute :: bytes where "DefaultScrapeRoute = str ''/scrape''"

definition HttpConfig_Validate :: "HttpConfig \<Rightarrow> goerror + HttpConfig" where
  "HttpConfig_Validate cfg =
     (let v = cfg\<lparr>hc_Listen := ListenOptions_Validate (hc_Listen cfg)\<rparr> in
      if hc_UseTLS cfg \<and> (length (hc_TLSCertPath cfg) = 0 \<or> length (hc_TLSKeyPath cfg) = 0)
      then Inl errTLSNotProvided
      else
        let v = (if hc_ReadTimeout cfg \<le> 0 then v\<lparr>hc_ReadTimeout := defaultReadTimeout\<rparr> else v);
            v = (if hc_WriteTimeout cfg \<le> 0 then v\<lparr>hc_WriteTimeout := defaultWriteTimeout\<rparr> else v);
            v = (if hc_IdleTimeout cfg \<le> 0 then v\<lparr>hc_IdleTimeout := defaultIdleTimeout\<rparr> else v);
            v = (if length (hc_AnnounceRoutes cfg) = 0
                 then v\<lparr>hc_AnnounceRoutes := [DefaultAnnounceRoute]\<rparr> else v);
            v = (if length (hc_ScrapeRoutes cfg) = 0
                 then v\<lparr>hc_ScrapeRoutes := [DefaultScrapeRoute]\<rparr> else v)
        in Inr (v\<lparr>hc_ParseOptions := (hc_ParseOptions cfg)
              \<lparr>hpo_ParseOptions := ParseOptions_Validate (hpo_ParseOptions (hc_ParseOptions cfg))\<rparr>\<rparr>))"

subsection \<open>Routing\<close>

text \<open>
  \<open>path.Clean\<close>: the shortest path that is lexically equivalent, component by component; the
  accumulator holds the components in reverse.
\<close>

definition clean_step :: "bool \<Rightarrow> bytes list \<Rightarrow> bytes \<Rightarrow> bytes list" where
  "clean_step rooted acc part =
     (if part = [] \<or> part = [46] then acc
      else if part = [46, 46]
      then if acc \<noteq> [] \<and> hd acc \<noteq> [46, 46] then tl acc else if rooted then acc else part # acc
      else part # acc)"

fun path_join :: "bytes list \<Rightarrow> bytes" where
  "path_join [] = []"
| "path_join [c] = c"
| "path_join (c # cs) = c @ 47 # path_join cs"

definition path_IsAbs :: "bytes \<Rightarrow> bool" where
  "path_IsAbs p \<longleftrightarrow> length p > 0 \<and> p ! 0 = 47"

definition path_Clean :: "bytes \<Rightarrow> bytes" where
  "path_Clean p =
     (let rooted = path_IsAbs p;
          out = (if rooted then [47] else []) @ path_join (rev (foldl (clean_step rooted) [] (bytes_Split 47 p)))
      in if out = [] then [46] else out)"

datatype http_route = AnnounceRoute | ScrapeRoute | PingRoute

definition abs_route :: "bytes \<Rightarrow> bytes" where
  "abs_route route = (let r = path_Clean route in if path_IsAbs r then r else 47 # r)"

definition http_routes :: "HttpConfig \<Rightarrow> (bytes, http_route) gomap" where
  "http_routes cfg =
     (let m1 = foldl (\<lambda>m r. m_set (abs_route r) AnnounceRoute m) [] (hc_AnnounceRoutes cfg);
          m2 = foldl (\<lambda>m r. m_set (path_Clean (abs_route r)) ScrapeRoute m) m1 (hc_ScrapeRoutes cfg)
      in foldl (\<lambda>m r. m_set (path_Clean (abs_route r)) PingRoute m) m2 (hc_PingRoutes cfg))"

subsection \<open>Handlers\<close>

text \<open>
  \<open>ho_status\<close> is \<open>None\<close> when the handler does not touch the status, which the server then sets. \<open>fin\<close> is what the request's
  own context reports as its error when the response is about to be written.
\<close>

record 's http_outcome =
  ho_status :: "nat option"
  ho_body :: bytes
  ho_err :: err
  ho_after :: "after_work option"
  ho_state :: 's

record 's httpFE =
  hfe_logic :: "'s Logic"
  hfe_options :: HttpParseOptions

definition announceRoute ::
  "'s httpFE \<Rightarrow> append_uint \<Rightarrow> (bytes \<Rightarrow> bytes) \<Rightarrow> (bytes \<Rightarrow> bytes) \<Rightarrow>
   ((addr \<times> bool) list \<Rightarrow> (addr \<times> bool) list) \<Rightarrow> ctx \<Rightarrow> err \<Rightarrow> HttpRequest \<Rightarrow> 's \<Rightarrow> 's http_outcome go" where
  "announceRoute f au uni trim ord reqCtx fin r s =
     (let out = \<lparr>ho_status = None, ho_body = [], ho_err = None, ho_after = None, ho_state = s\<rparr> in
      case http_parseAnnounce uni trim ord r (hfe_options f) of
        Inl e \<Rightarrow> Ret (out\<lparr>ho_err := Some e, ho_body := http_writeErrorResponse e\<rparr>)
      | Inr aReq \<Rightarrow>
          bind_go (Logic_HandleAnnounce (hfe_logic f) (InjectRouteParamsToContext reqCtx None) aReq s) (\<lambda>(res, s').
            case res of
              Inl e \<Rightarrow> Ret (out\<lparr>ho_err := Some e, ho_state := s',
                               ho_body := (if e \<noteq> Canceled then http_writeErrorResponse e else [])\<rparr>)
            | Inr (c, aReq', aResp) \<Rightarrow>
                if fin = None
                then bind_go (http_writeAnnounceResponse au aResp (hr_GetBool r (str ''compact''))
                                (\<not> hr_GetBool r (str ''no_peer_id''))) (\<lambda>(body, aResp').
                       Ret (out\<lparr>ho_body := body, ho_state := s',
                          ho_after := Some (AfterAnnounceWork (RemapRouteParamsToBgContext c)
                                              (aReq'\<lparr>areq_Params := None\<rparr>) aResp')\<rparr>))
                else Ret (out\<lparr>ho_err := fin, ho_state := s'\<rparr>)))"

definition scrapeRoute ::
  "'s httpFE \<Rightarrow> append_uint \<Rightarrow> (Scrape list \<Rightarrow> Scrape list) \<Rightarrow> (bytes \<Rightarrow> bytes) \<Rightarrow>
   ((addr \<times> bool) list \<Rightarrow> (addr \<times> bool) list) \<Rightarrow> ctx \<Rightarrow> err \<Rightarrow> HttpRequest \<Rightarrow> 's \<Rightarrow> 's http_outcome go" where
  "scrapeRoute f au sord trim ord reqCtx fin r s =
     (let out = \<lparr>ho_status = None, ho_body = [], ho_err = None, ho_after = None, ho_state = s\<rparr> in
      case http_parseScrape trim ord r (hfe_options f) of
        Inl e \<Rightarrow> Ret (out\<lparr>ho_err := Some e, ho_body := http_writeErrorResponse e\<rparr>)
      | Inr req \<Rightarrow>
          bind_go (Logic_HandleScrape (hfe_logic f) (InjectRouteParamsToContext reqCtx None) req s) (\<lambda>(res, s').
            case res of
              Inl e \<Rightarrow> Ret (out\<lparr>ho_err := Some e, ho_state := s',
                               ho_body := (if e \<noteq> Canceled then http_writeErrorResponse e else [])\<rparr>)
            | Inr (c, req', resp) \<Rightarrow>
                if fin = None
                then bind_go (http_writeScrapeResponse sord au resp) (\<lambda>(body, resp').
                       Ret (out\<lparr>ho_body := body, ho_state := s',
                          ho_after := Some (AfterScrapeWork (RemapRouteParamsToBgContext c)
                                              (req'\<lparr>sreq_Params := None\<rparr>) resp')\<rparr>))
                else Ret (out\<lparr>ho_err := fin, ho_state := s'\<rparr>)))"

definition ping :: "'s httpFE \<Rightarrow> err \<Rightarrow> 's \<Rightarrow> 's http_outcome" where
  "ping f fin s =
     (let out = \<lparr>ho_status = None, ho_body = [], ho_err = None, ho_after = None, ho_state = s\<rparr>;
          e = Logic_Ping (hfe_logic f) s
      in if e = Some Canceled then out
         else let status = (if e \<noteq> None then 503 else 200)
              in if fin = None then out\<lparr>ho_status := Some status\<rparr> else out)"

text \<open>\<open>notFound\<close> is the status and the body that \<open>NotFound\<close> of \<open>fasthttp\<close> sets.\<close>

definition http_handler ::
  "'s httpFE \<Rightarrow> (bytes, http_route) gomap \<Rightarrow> nat \<times> bytes \<Rightarrow> append_uint \<Rightarrow> (Scrape list \<Rightarrow> Scrape list) \<Rightarrow>
   (bytes \<Rightarrow> bytes) \<Rightarrow> (bytes \<Rightarrow> bytes) \<Rightarrow> ((addr \<times> bool) list \<Rightarrow> (addr \<times> bool) list) \<Rightarrow>
   ctx \<Rightarrow> err \<Rightarrow> HttpRequest \<Rightarrow> 's \<Rightarrow> 's http_outcome go" where
  "http_handler f routes notFound au sord uni trim ord reqCtx fin r s =
     (case m_get routes (hr_Path r) of
        Some AnnounceRoute \<Rightarrow> announceRoute f au uni trim ord reqCtx fin r s
      | Some ScrapeRoute \<Rightarrow> scrapeRoute f au sord trim ord reqCtx fin r s
      | Some PingRoute \<Rightarrow> Ret (ping f fin s)
      | None \<Rightarrow> Ret \<lparr>ho_status = Some (fst notFound), ho_body = snd notFound, ho_err = None, ho_after = None, ho_state = s\<rparr>)"

subsection \<open>Starting and closing\<close>

text \<open>
  \<open>loadKey\<close> is \<open>tls.LoadX509KeyPair\<close>; the server itself, started in a goroutine, is what
  \<open>runServer\<close> describes: what listening and serving returned decides how it ends.
\<close>

definition http_NewFrontend ::
  "(bytes \<Rightarrow> bytes \<Rightarrow> goerror + 'k) \<Rightarrow> goerror + HttpConfig \<Rightarrow> 's Logic \<Rightarrow>
   goerror + ('s httpFE \<times> HttpConfig \<times> 'k option \<times> (bytes, http_route) gomap)" where
  "http_NewFrontend loadKey c logic =
     (case c of Inl e \<Rightarrow> Inl e
      | Inr cfg0 \<Rightarrow>
          (case HttpConfig_Validate cfg0 of Inl e \<Rightarrow> Inl e
           | Inr cfg \<Rightarrow>
               let f = \<lparr>hfe_logic = logic, hfe_options = hc_ParseOptions cfg\<rparr> in
               if hc_UseTLS cfg
               then (case loadKey (hc_TLSCertPath cfg) (hc_TLSKeyPath cfg) of Inl e \<Rightarrow> Inl e
                     | Inr cert \<Rightarrow> Inr (f, cfg, Some cert, http_routes cfg))
               else Inr (f, cfg, None, http_routes cfg)))"

datatype server_end = ListenerStopped | ListenerFailed goerror | ServerClosed

definition runServer ::
  "goerror \<Rightarrow> 'k option \<Rightarrow> goerror + 'l \<Rightarrow> ('l \<Rightarrow> err) \<Rightarrow> ('l \<Rightarrow> err) \<Rightarrow> server_end" where
  "runServer errServerClosed tlsConfig listen serveHTTP serveTLS =
     (let err = (case listen of Inl e \<Rightarrow> Some e
                 | Inr ln \<Rightarrow> if tlsConfig = None then serveHTTP ln else serveTLS ln)
      in case err of None \<Rightarrow> ListenerStopped
         | Some e \<Rightarrow> if e \<noteq> errServerClosed then ListenerFailed e else ServerClosed)"

text \<open>\<open>onceCloser\<close>: only the first call shuts the server down and returns its error.\<close>

definition http_Close :: "err \<Rightarrow> bool \<Rightarrow> err \<times> bool" where
  "http_Close shutdown isClosed = (if isClosed then (None, isClosed) else (shutdown, True))"

end
