(* ===== verification/UdpParser.thy ===== *)
theory UdpParser
  imports Frontend
begin

unbundle bit_operations_syntax

section \<open>Parsing UDP requests, \<open>frontend/udp/params.go\<close> and \<open>parser.go\<close>\<close>

text \<open>
  The query string in the options of a packet, the options, announces and scrapes. Buffers
  never fail to grow, so writing the option data into one is appending. The Unicode case
  mapping of \<open>strings.ToLower\<close> is the argument \<open>uni\<close>, the order of a map iteration \<open>ord\<close>.
\<close>

subsection \<open>Query parameters\<close>

definition ErrInvalidQueryEscape :: goerror where
  "ErrInvalidQueryEscape = ClientError ''invalid query escape''"

definition is_amp :: "byte \<Rightarrow> bool" where
  "is_amp b \<longleftrightarrow> b = 38 \<or> b = 59"

definition parse_pair ::
  "(bytes \<Rightarrow> bytes) \<Rightarrow> bytes \<Rightarrow> (bytes, bytes) gomap \<Rightarrow> goerror + (bytes, bytes) gomap" where
  "parse_pair uni key params =
     (let (k, v) = (if 61 \<in> set key
                    then (takeWhile (\<lambda>b. b \<noteq> 61) key, tl (dropWhile (\<lambda>b. b \<noteq> 61) key))
                    else (key, []))
      in case QueryUnescape k of Inl _ \<Rightarrow> Inl ErrInvalidQueryEscape
         | Inr k' \<Rightarrow>
        (case QueryUnescape v of Inl _ \<Rightarrow> Inl ErrInvalidQueryEscape
         | Inr v' \<Rightarrow> Inr (m_set (ToLower uni k') v' params)))"

lemma length_tl_dropWhile: "q \<noteq> [] \<Longrightarrow> length (dropWhile P q) - Suc 0 < length q"
  using length_dropWhile_le [of P q] by (cases q) auto

function parse_pairs ::
  "(bytes \<Rightarrow> bytes) \<Rightarrow> bytes \<Rightarrow> (bytes, bytes) gomap \<Rightarrow> goerror + (bytes, bytes) gomap" where
  "parse_pairs uni query params =
     (if query = [] then Inr params
      else let key = takeWhile (\<lambda>b. \<not> is_amp b) query;
               query' = tl (dropWhile (\<lambda>b. \<not> is_amp b) query)
           in if key = [] then parse_pairs uni query' params
              else (case parse_pair uni key params of Inl e \<Rightarrow> Inl e
                    | Inr params' \<Rightarrow> parse_pairs uni query' params'))"
  by auto
termination
  by (relation "measure (\<lambda>(uni, query, params). length query)") (auto simp: length_tl_dropWhile)

declare parse_pairs.simps [simp del]

definition parseQuery :: "(bytes \<Rightarrow> bytes) \<Rightarrow> bytes \<Rightarrow> goerror + (bytes, bytes) gomap" where
  "parseQuery uni query =
     parse_pairs uni
       (if 63 \<in> set query then tl (dropWhile (\<lambda>b. b \<noteq> 63) query) else query) []"

definition queryParams_GetString ::
  "(bytes \<Rightarrow> bytes) \<Rightarrow> (bytes, bytes) gomap \<Rightarrow> bytes \<Rightarrow> bytes option" where
  "queryParams_GetString uni params key = m_get params (ToLower uni key)"

subsection \<open>Errors and constants\<close>

definition errMalformedPacket :: goerror where "errMalformedPacket = ClientError ''malformed packet''"
definition errUnknownAction :: goerror where "errUnknownAction = ClientError ''unknown action ID''"
definition errBadConnectionID :: goerror where "errBadConnectionID = ClientError ''bad connection ID''"
definition errUnknownOptionType :: goerror where "errUnknownOptionType = ClientError ''unknown option type''"
definition errInvalidInfoHash :: goerror where "errInvalidInfoHash = ClientError ''invalid info hash''"
definition errInvalidPeerID :: goerror where "errInvalidPeerID = ClientError ''invalid info hash''"

definition eventIDs :: "Event list" where
  "eventIDs = [EvNone, EvCompleted, EvStarted, EvStopped]"

record UdpRequest =
  ureq_Packet :: bytes
  ureq_IP :: addr

subsection \<open>Optional parameters\<close>

function option_data :: "bytes \<Rightarrow> bytes \<Rightarrow> goerror + bytes" where
  "option_data [] buf = Inr buf"
| "option_data (option # rest) buf =
     (if option = 0 then Inr buf
      else if option = 1 then option_data rest buf
      else if option = 2 then
        (case rest of
           [] \<Rightarrow> Inl errMalformedPacket
         | len # body \<Rightarrow>
             if unat len > length body then Inl errMalformedPacket
             else option_data (drop (unat len) body) (buf @ take (unat len) body))
      else Inl errUnknownOptionType)"
  by pat_completeness auto
termination by (relation "measure (\<lambda>(p, b). length p)") auto

definition handleOptionalParameters ::
  "(bytes \<Rightarrow> bytes) \<Rightarrow> bytes \<Rightarrow> goerror + (bytes, bytes) gomap" where
  "handleOptionalParameters uni packet =
     (if length packet = 0 then parseQuery uni []
      else case option_data packet [] of Inl e \<Rightarrow> Inl e | Inr buf \<Rightarrow> parseQuery uni buf)"

subsection \<open>Announces\<close>

definition bslice :: "nat \<Rightarrow> nat \<Rightarrow> bytes \<Rightarrow> bytes" where
  "bslice i j b = take (j - i) (drop i b)"

definition parseAnnounce ::
  "(bytes \<Rightarrow> bytes) \<Rightarrow> ((addr \<times> bool) list \<Rightarrow> (addr \<times> bool) list) \<Rightarrow> UdpRequest \<Rightarrow> bool \<Rightarrow> ParseOptions
     \<Rightarrow> goerror + AnnounceRequest" where
  "parseAnnounce uni ord r v6Action opts =
     (let p = ureq_Packet r; ipEnd = (if v6Action then 84 + 16 else 84 + 4) in
      if length p < ipEnd + 10 then Inl errMalformedPacket
      else case NewInfoHash (bslice 16 36 p) of Inl _ \<Rightarrow> Inl errInvalidInfoHash
      | Inr ih \<Rightarrow>
      (case NewPeerID (bslice 36 56 p) of Inl _ \<Rightarrow> Inl errInvalidPeerID
      | Inr pid \<Rightarrow>
        let eventID = unat (p ! 83) in
        if eventID \<ge> length eventIDs then Inl ErrUnknownEvent
        else
          let addrs = RequestAddresses_Add [] \<lparr>ra_Addr = ureq_IP r, ra_Provided = False\<rparr>;
              addrs' = (if po_AllowIPSpoofing opts
                        then (case AddrFromSlice (bslice 84 ipEnd p) of
                                None \<Rightarrow> addrs
                              | Some spoofed \<Rightarrow> RequestAddresses_Add addrs \<lparr>ra_Addr = spoofed, ra_Provided = True\<rparr>)
                        else addrs)
          in case handleOptionalParameters uni (drop (ipEnd + 10) p) of Inl e \<Rightarrow> Inl e
             | Inr params \<Rightarrow>
                 SanitizeAnnounce ord
                   \<lparr>areq_Event = eventIDs ! eventID, areq_InfoHash = ih, areq_EventProvided = True,
                    areq_NumWantProvided = True, areq_NumWant = be_word (bslice (ipEnd + 4) (ipEnd + 8) p),
                    areq_Left = be_word (bslice 64 72 p), areq_Downloaded = be_word (bslice 56 64 p),
                    areq_Uploaded = be_word (bslice 72 80 p),
                    areq_RequestPeer = \<lparr>rp_ID = pid, rp_Port = be_word (bslice (ipEnd + 8) (ipEnd + 10) p),
                                        rp_RequestAddresses = addrs'\<rparr>,
                    areq_Params = Some (queryParams_GetString uni params)\<rparr>
                   (po_MaxNumWant opts) (po_DefaultNumWant opts) (po_FilterPrivateIPs opts)))"

subsection \<open>Scrapes\<close>

function scrape_hashes :: "bytes \<Rightarrow> infohash list \<Rightarrow> goerror + infohash list" where
  "scrape_hashes p infoHashes =
     (if length p \<ge> InfoHashV1Len
      then (case NewInfoHash (take InfoHashV1Len p) of
              Inl e \<Rightarrow> Inl e
            | Inr ih \<Rightarrow> scrape_hashes (drop InfoHashV1Len p) (infoHashes @ [ih]))
      else Inr infoHashes)"
  by auto
termination by (relation "measure (\<lambda>(p, i). length p)") (auto simp: len_defs)

declare scrape_hashes.simps [simp del]

definition parseScrape ::
  "((addr \<times> bool) list \<Rightarrow> (addr \<times> bool) list) \<Rightarrow> UdpRequest \<Rightarrow> ParseOptions \<Rightarrow> goerror + ScrapeRequest" where
  "parseScrape ord r opts =
     (if length (ureq_Packet r) < 36 then Inl errMalformedPacket
      else let p = drop 16 (ureq_Packet r) in
        if length p mod InfoHashV1Len \<noteq> 0 then Inl errMalformedPacket
        else case scrape_hashes p [] of Inl e \<Rightarrow> Inl e
             | Inr infoHashes \<Rightarrow>
                 SanitizeScrape ord
                   \<lparr>sreq_RequestAddresses = [\<lparr>ra_Addr = ureq_IP r, ra_Provided = False\<rparr>],
                    sreq_InfoHashes = infoHashes, sreq_Params = None\<rparr>
                   (po_MaxScrapeInfoHashes opts) (po_FilterPrivateIPs opts))"

subsection \<open>Properties: query strings\<close>

text \<open>A query string as a client writes it: escaped pairs, joined by ampersands.\<close>

definition encode_pair :: "bytes \<times> bytes \<Rightarrow> bytes" where
  "encode_pair kv = QueryEscape (fst kv) @ [61] @ QueryEscape (snd kv)"

fun encode_query :: "(bytes \<times> bytes) list \<Rightarrow> bytes" where
  "encode_query [] = []"
| "encode_query [kv] = encode_pair kv"
| "encode_query (kv # kvs) = encode_pair kv @ [38] @ encode_query kvs"

definition store_pairs ::
  "(bytes \<Rightarrow> bytes) \<Rightarrow> (bytes, bytes) gomap \<Rightarrow> (bytes \<times> bytes) list \<Rightarrow> (bytes, bytes) gomap" where
  "store_pairs uni m kvs = foldl (\<lambda>m kv. m_set (ToLower uni (fst kv)) (snd kv) m) m kvs"

lemma escape_no_eq: "61 \<notin> set (QueryEscape k)" "\<forall>b \<in> set (QueryEscape k). b \<noteq> 61"
  using QueryEscape_delimiters [of _ k] by (auto simp: delimiters_def)

lemma takeWhile_escape: "takeWhile (\<lambda>b. b \<noteq> 61) (QueryEscape k @ 61 # v) = QueryEscape k"
  "dropWhile (\<lambda>b. b \<noteq> 61) (QueryEscape k @ 61 # v) = 61 # v"
  using escape_no_eq(2) [of k] by (simp_all add: takeWhile_append2 dropWhile_append2)

lemma parse_pair_encode [simp]:
  "parse_pair uni (encode_pair (k, v)) m = Inr (m_set (ToLower uni k) v m)"
  by (simp add: parse_pair_def encode_pair_def takeWhile_escape)

lemma encode_pair_amp: "b \<in> set (encode_pair kv) \<Longrightarrow> \<not> is_amp b"
  using QueryEscape_delimiters [of b "fst kv"] QueryEscape_delimiters [of b "snd kv"]
  by (auto simp: encode_pair_def is_amp_def delimiters_def)

lemma encode_pair_nonempty [simp]: "encode_pair kv \<noteq> []"
  by (simp add: encode_pair_def)

lemma takeWhile_pair:
  "takeWhile (\<lambda>b. \<not> is_amp b) (encode_pair kv @ 38 # q) = encode_pair kv"
  "dropWhile (\<lambda>b. \<not> is_amp b) (encode_pair kv @ 38 # q) = 38 # q"
  "takeWhile (\<lambda>b. \<not> is_amp b) (encode_pair kv) = encode_pair kv"
  "dropWhile (\<lambda>b. \<not> is_amp b) (encode_pair kv) = []"
  using encode_pair_amp [of _ kv]
  by (simp_all add: takeWhile_append2 dropWhile_append2 is_amp_def)

lemma parse_pairs_encode: "parse_pairs uni (encode_query kvs) m = Inr (store_pairs uni m kvs)"
proof (induction kvs arbitrary: m rule: encode_query.induct)
  case 1
  then show ?case by (simp add: parse_pairs.simps store_pairs_def)
next
  case (2 kv)
  show ?case
    by (cases kv) (simp add: parse_pairs.simps takeWhile_pair store_pairs_def)
next
  case (3 kv kv' kvs)
  have "parse_pairs uni (encode_query (kv # kv' # kvs)) m =
      parse_pairs uni (encode_query (kv' # kvs)) (m_set (ToLower uni (fst kv)) (snd kv) m)"
    by (cases kv, subst parse_pairs.simps) (simp add: takeWhile_pair del: encode_query.simps(2))
  then show ?case using "3.IH" by (simp add: store_pairs_def)
qed

lemma encode_query_question: "63 \<notin> set (encode_query kvs)"
proof -
  have "63 \<notin> set (encode_pair kv)" for kv
    using QueryEscape_delimiters [of 63 "fst kv"] QueryEscape_delimiters [of 63 "snd kv"]
    by (auto simp: encode_pair_def delimiters_def)
  then show ?thesis by (induction kvs rule: encode_query.induct) auto
qed

text \<open>
  Parsing a query string, with or without a path and a question mark before it, gives
  back the pairs it was written from: the keys in lower case, for a repeated key the last
  value, looked up without regard to case.
\<close>

theorem parseQuery_roundtrip:
  assumes "63 \<notin> set path"
  shows "parseQuery uni (encode_query kvs) = Inr (store_pairs uni [] kvs) \<and>
         parseQuery uni (path @ [63] @ encode_query kvs) = Inr (store_pairs uni [] kvs) \<and>
         queryParams_GetString uni (store_pairs uni [] (kvs @ [(k, v)])) k = Some v"
proof -
  have "dropWhile (\<lambda>b. b \<noteq> 63) (path @ 63 # encode_query kvs) = 63 # encode_query kvs"
    using assms by (induction path) auto
  then show ?thesis
    by (simp add: parseQuery_def encode_query_question parse_pairs_encode)
      (simp add: store_pairs_def queryParams_GetString_def)
qed

theorem parseQuery_roundtrip_witness:
  "parseQuery (\<lambda>s. s) (str ''/announce'' @ [63] @ encode_query [(str ''Key'', str ''a b'')]) =
     Inr [(str ''key'', str ''a b'')]"
  using parseQuery_roundtrip [of "str ''/announce''" "\<lambda>s. s" "[(str ''Key'', str ''a b'')]"]
  by (simp add: store_pairs_def ToLower_def is_ascii_def lower_byte_def m_set_def)

subsection \<open>Properties: packets\<close>

lemma bslice_append: "length a = i \<Longrightarrow> length b = j - i \<Longrightarrow> bslice i j (a @ b @ c) = b"
  by (simp add: bslice_def)

text \<open>
  An announce packet of BEP 15: connection ID, action and transaction ID in \<open>head\<close>, the
  fields, and the options of BEP 41.
\<close>

definition encode_announce ::
  "bytes \<Rightarrow> infohash \<Rightarrow> peerid \<Rightarrow> u64 \<Rightarrow> u64 \<Rightarrow> u64 \<Rightarrow> u32 \<Rightarrow> bytes \<Rightarrow> u32 \<Rightarrow> u32 \<Rightarrow> u16 \<Rightarrow> bytes \<Rightarrow> bytes" where
  "encode_announce head ih pid downloaded left uploaded event ip key numwant port opts =
     head @ ih @ pid @ be_bytes 8 downloaded @ be_bytes 8 left @ be_bytes 8 uploaded @ be_bytes 4 event @
     ip @ be_bytes 4 key @ be_bytes 4 numwant @ be_bytes 2 port @ opts"

lemma announce_slices:
  assumes "length head = 16" and "length ih = 20" and "length pid = 20" and "length ip = n"
    and "p = encode_announce head ih pid downloaded left uploaded event ip key numwant port opts"
  shows "bslice 16 36 p = ih" and "bslice 36 56 p = pid" and "bslice 56 64 p = be_bytes 8 downloaded"
    and "bslice 64 72 p = be_bytes 8 left" and "bslice 72 80 p = be_bytes 8 uploaded"
    and "bslice 84 (84 + n) p = ip" and "bslice (84 + n + 4) (84 + n + 8) p = be_bytes 4 numwant"
    and "bslice (84 + n + 8) (84 + n + 10) p = be_bytes 2 port" and "drop (84 + n + 10) p = opts"
    and "length p = 84 + n + 10 + length opts" and "p ! 83 = ucast event"
  using assms by (simp_all add: encode_announce_def bslice_def nth_append numeral_eq_Suc)

lemma parseAnnounce_encode:
  assumes "length head = 16" and "length ih = 20" and "length pid = 20"
    and "length ip = (if v6 then 16 else 4)" and "event < 4"
    and "handleOptionalParameters uni opts = Inr params"
  shows "parseAnnounce uni ord
     \<lparr>ureq_Packet = encode_announce head ih pid downloaded left uploaded event ip key numwant port opts,
      ureq_IP = src\<rparr> v6 po =
     SanitizeAnnounce ord
       \<lparr>areq_Event = eventIDs ! unat event, areq_InfoHash = ih, areq_EventProvided = True,
        areq_NumWantProvided = True, areq_NumWant = numwant, areq_Left = left, areq_Downloaded = downloaded,
        areq_Uploaded = uploaded,
        areq_RequestPeer = \<lparr>rp_ID = pid, rp_Port = port, rp_RequestAddresses =
          (let a = RequestAddresses_Add [] \<lparr>ra_Addr = src, ra_Provided = False\<rparr> in
           if po_AllowIPSpoofing po
           then RequestAddresses_Add a \<lparr>ra_Addr = the (AddrFromSlice ip), ra_Provided = True\<rparr> else a)\<rparr>,
        areq_Params = Some (queryParams_GetString uni params)\<rparr>
       (po_MaxNumWant po) (po_DefaultNumWant po) (po_FilterPrivateIPs po)"
proof -
  have ev: "unat (ucast event :: byte) = unat event" "unat event < 4"
    using assms(5) by (auto simp: word_less_nat_alt unsigned_ucast_eq take_bit_nat_eq_self)
  have ip: "\<exists>a. AddrFromSlice ip = Some a" using assms(4) by (auto simp: AddrFromSlice_Some_iff)
  note sl = announce_slices [OF assms(1-4) refl, of downloaded left uploaded event key numwant port opts]
  show ?thesis
  proof (cases v6)
    case True
    then show ?thesis
      using sl ip assms ev by (auto simp: parseAnnounce_def Let_def NewInfoHash_def NewPeerID_def len_defs
          eventIDs_def be_word_be_bytes_full)
  next
    case False
    then show ?thesis
      using sl ip assms ev by (auto simp: parseAnnounce_def Let_def NewInfoHash_def NewPeerID_def len_defs
          eventIDs_def be_word_be_bytes_full)
  qed
qed

text \<open>
  C26: Parsing an announce packet recovers the fields it was built from, in both packet
  formats: whatever the header, the key and the options, the request that is sanitized has
  the packet's info hash, peer ID, counters, event, number of peers wanted and port, the
  source address and, when spoofing is allowed, the address in the packet.
\<close>

theorem parseAnnounce_roundtrip:
  assumes "length head = 16" and "length ih = 20" and "length pid = 20"
    and "length ip = (if v6 then 16 else 4)" and "event < 4"
    and "handleOptionalParameters uni opts = Inr params"
  shows "parseAnnounce uni ord
     \<lparr>ureq_Packet = encode_announce head ih pid downloaded left uploaded event ip key numwant port opts,
      ureq_IP = src\<rparr> v6 po =
     SanitizeAnnounce ord
       \<lparr>areq_Event = eventIDs ! unat event, areq_InfoHash = ih, areq_EventProvided = True,
        areq_NumWantProvided = True, areq_NumWant = numwant, areq_Left = left, areq_Downloaded = downloaded,
        areq_Uploaded = uploaded,
        areq_RequestPeer = \<lparr>rp_ID = pid, rp_Port = port, rp_RequestAddresses =
          (let a = RequestAddresses_Add [] \<lparr>ra_Addr = src, ra_Provided = False\<rparr> in
           if po_AllowIPSpoofing po
           then RequestAddresses_Add a \<lparr>ra_Addr = the (AddrFromSlice ip), ra_Provided = True\<rparr> else a)\<rparr>,
        areq_Params = Some (queryParams_GetString uni params)\<rparr>
       (po_MaxNumWant po) (po_DefaultNumWant po) (po_FilterPrivateIPs po)"
  using assms by (rule parseAnnounce_encode)

theorem parseAnnounce_roundtrip_witness:
  "\<exists>r. parseAnnounce (\<lambda>s. s) rev
     \<lparr>ureq_Packet = encode_announce (replicate 16 9) (replicate 20 1) (replicate 20 2) 10 20 30 2 [0, 0, 0, 0] 5 50 6881 [],
      ureq_IP = AddrV4 0x01020304\<rparr> False example_options = Inr r \<and>
     areq_InfoHash r = replicate 20 1 \<and> areq_Left r = 20 \<and> areq_Event r = EvStarted \<and> areq_NumWant r = 50"
proof -
  have o: "handleOptionalParameters (\<lambda>s. s) [] = Inr []"
    by (simp add: handleOptionalParameters_def parseQuery_def parse_pairs.simps)
  show ?thesis
    using parseAnnounce_roundtrip [of "replicate 16 9" "replicate 20 1" "replicate 20 2" "[0, 0, 0, 0]" False 2
        "\<lambda>s. s" "[]" "[]" rev 10 20 30 5 50 6881 "AddrV4 0x01020304" example_options] o
    by (simp add: example_options_def RequestAddresses_Add_def RequestAddress_IsValid_def IsUnspecified_def
        IsMulticast_def broadcast4_def v4_byte_def AddrFromSlice_def SanitizeAnnounce_def Sanitize_def Let_def
        usable_address_def eventIDs_def m_set_def be_word_def)
qed

lemma parse_pairs_error: "parse_pairs uni q m = Inl e \<Longrightarrow> e = ErrInvalidQueryEscape"
proof (induction uni q m rule: parse_pairs.induct)
  case (1 uni query params)
  then show ?case
    by (subst (asm) parse_pairs.simps)
      (auto simp: Let_def parse_pair_def split: if_splits sum.splits prod.splits)
qed

lemma option_data_error:
  "option_data p buf = Inl e \<Longrightarrow> e = errMalformedPacket \<or> e = errUnknownOptionType"
  by (induction p buf rule: option_data.induct) (auto split: if_splits list.splits)

lemma handleOptionalParameters_error:
  "handleOptionalParameters uni p = Inl e \<Longrightarrow>
     e \<in> {ErrInvalidQueryEscape, errMalformedPacket, errUnknownOptionType}"
  by (auto simp: handleOptionalParameters_def parseQuery_def split: if_splits sum.splits
      dest: parse_pairs_error option_data_error)

lemma SanitizeAnnounce_error: "SanitizeAnnounce ord r m d fp = Inl e \<Longrightarrow> e \<in> {ErrInvalidIP, ErrInvalidPort}"
  by (auto simp: SanitizeAnnounce_def Let_def split: if_splits prod.splits)

lemma scrape_hashes_ok: "\<exists>ihs. scrape_hashes p acc = Inr ihs"
proof (induction p acc rule: scrape_hashes.induct)
  case (1 p acc)
  then show ?case
    by (subst scrape_hashes.simps) (auto simp: NewInfoHash_def len_defs)
qed

lemmas udp_errors = errMalformedPacket_def errUnknownOptionType_def ErrInvalidQueryEscape_def
  errInvalidInfoHash_def errInvalidPeerID_def ErrUnknownEvent_def ErrInvalidIP_def ErrInvalidPort_def

text \<open>
  Whatever the packet, a request that is not understood is answered with an error meant
  for the client: parsing an announce or a scrape never ends in an internal error, and a
  packet too short for its format is malformed.
\<close>

theorem udp_parse_client_errors:
  "(parseAnnounce uni ord r v6 opts = Inl e \<longrightarrow> (\<exists>msg. e = ClientError msg)) \<and>
   (parseScrape ord r opts = Inl e \<longrightarrow> (\<exists>msg. e = ClientError msg)) \<and>
   (length (ureq_Packet r) < (if v6 then 110 else 98) \<longrightarrow> parseAnnounce uni ord r v6 opts = Inl errMalformedPacket) \<and>
   (length (ureq_Packet r) < 36 \<longrightarrow> parseScrape ord r opts = Inl errMalformedPacket)"
proof -
  have ann: "\<exists>msg. e = ClientError msg" if "parseAnnounce uni ord r v6 opts = Inl e"
    using that
    by (auto simp: parseAnnounce_def Let_def udp_errors split: if_splits sum.splits
        dest!: SanitizeAnnounce_error handleOptionalParameters_error)
  have "\<exists>msg. e = ClientError msg" if "parseScrape ord r opts = Inl e"
    using that scrape_hashes_ok [of "drop 16 (ureq_Packet r)" "[]"]
    by (auto simp: parseScrape_def SanitizeScrape_def Let_def udp_errors split: if_splits sum.splits prod.splits)
  with ann show ?thesis by (auto simp: parseAnnounce_def parseScrape_def Let_def)
qed

theorem udp_parse_client_errors_witness:
  "parseScrape rev \<lparr>ureq_Packet = [1, 2, 3], ureq_IP = AddrZero\<rparr> example_options = Inl errMalformedPacket"
  using udp_parse_client_errors [where r = "\<lparr>ureq_Packet = [1, 2, 3], ureq_IP = AddrZero\<rparr>" and ord = rev
      and opts = example_options] by simp

lemma scrape_hashes_concat:
  "list_all (\<lambda>ih. length ih = InfoHashV1Len) ihs \<Longrightarrow> scrape_hashes (concat ihs) acc = Inr (acc @ ihs)"
proof (induction ihs arbitrary: acc)
  case Nil
  then show ?case by (subst scrape_hashes.simps) (simp add: len_defs)
next
  case (Cons ih ihs)
  then show ?case
    by (subst scrape_hashes.simps) (simp add: NewInfoHash_def)
qed

text \<open>
  Parsing a scrape packet recovers the info hashes that follow its header, one or more,
  in their order; the request that is sanitized has them, the source address and no
  parameters.
\<close>

theorem parseScrape_roundtrip:
  assumes "length head = 16" and "ihs \<noteq> []" and "list_all (\<lambda>ih. length ih = InfoHashV1Len) ihs"
  shows "parseScrape ord \<lparr>ureq_Packet = head @ concat ihs, ureq_IP = src\<rparr> opts =
     SanitizeScrape ord
       \<lparr>sreq_RequestAddresses = [\<lparr>ra_Addr = src, ra_Provided = False\<rparr>], sreq_InfoHashes = ihs, sreq_Params = None\<rparr>
       (po_MaxScrapeInfoHashes opts) (po_FilterPrivateIPs opts)"
proof -
  have len: "length (concat ihs) = InfoHashV1Len * length ihs"
    using assms(3) by (induction ihs) auto
  have "0 < length ihs" using assms(2) by simp
  then have "20 \<le> 20 * length ihs" by linarith
  then show ?thesis
    using assms(1) len scrape_hashes_concat [OF assms(3), of "[]"]
    by (auto simp: parseScrape_def Let_def len_defs)
qed

theorem parseScrape_roundtrip_witness:
  "parseScrape rev \<lparr>ureq_Packet = replicate 16 0 @ concat [replicate 20 1, replicate 20 2], ureq_IP = AddrV4 7\<rparr>
     example_options =
   SanitizeScrape rev
       \<lparr>sreq_RequestAddresses = [\<lparr>ra_Addr = AddrV4 7, ra_Provided = False\<rparr>],
        sreq_InfoHashes = [replicate 20 1, replicate 20 2], sreq_Params = None\<rparr> 50 False"
  using parseScrape_roundtrip [of "replicate 16 0" "[replicate 20 1, replicate 20 2]" rev "AddrV4 7" example_options]
  by (simp add: len_defs example_options_def)

end
