(* ===== verification/Pkg.thy ===== *)
theory Pkg
  imports Prelude "HOL-Library.Signed_Division"
begin

unbundle bit_operations_syntax

section \<open>Packages \<open>pkg/xorshift\<close>, \<open>pkg/timecache\<close> and \<open>pkg/bytepool\<close>\<close>

text \<open>
  The two pseudo-random generators, the cached clock and the pool of packet buffers.
\<close>

subsection \<open>Pseudo-random numbers\<close>

definition XoRoShiRo128SS :: "u64 \<Rightarrow> u64 \<Rightarrow> u64 \<times> u64 \<times> u64" where
  "XoRoShiRo128SS s0 s1 =
     (let r = s0 * 5;
          r' = (push_bit 7 r OR drop_bit 57 r) * 9;
          t = s1 XOR s0;
          s0' = (push_bit 24 s0 OR drop_bit 40 s0) XOR t XOR push_bit 16 t;
          s1' = push_bit 37 t OR drop_bit 27 t
      in (r', s0', s1'))"

definition XorShift64S :: "u64 \<Rightarrow> u64 \<times> u64" where
  "XorShift64S s =
     (let s1 = s XOR drop_bit 12 s;
          s2 = s1 XOR push_bit 25 s1;
          s3 = s2 XOR drop_bit 27 s2
      in (s3 * 0x2545F4914F6CDD1D, s3))"

lemma rotl_shifts:
  fixes x :: u64
  assumes "0 < k" and "k < 64"
  shows "push_bit k x OR drop_bit (64 - k) x = word_rotl k x"
proof (rule bit_word_eqI)
  fix i :: nat
  assume "i < LENGTH(64)"
  then have i: "i < 64" by simp
  have rot: "bit (word_rotl k x) i = bit x ((i + (64 - k)) mod 64)"
    using i assms by (simp add: bit_word_rotl_iff)
  have sh: "bit (push_bit k x OR drop_bit (64 - k) x) i \<longleftrightarrow> k \<le> i \<and> bit x (i - k) \<or> bit x (64 - k + i)"
    using i by (auto simp: bit_simps)
  show "bit (push_bit k x OR drop_bit (64 - k) x) i = bit (word_rotl k x) i"
  proof (cases "k \<le> i")
    case True
    then have "(i + (64 - k)) mod 64 = i - k" using i assms by (simp add: mod_if)
    moreover have "\<not> bit x (64 - k + i)"
      using True assms bit_imp_le_length [of x "64 - k + i"] by auto
    ultimately show ?thesis unfolding rot sh using True by simp
  next
    case False
    then have "(i + (64 - k)) mod 64 = 64 - k + i" using i assms by simp
    then show ?thesis unfolding rot sh using False by simp
  qed
qed

lemma rotl_inj: "word_rotl k x = word_rotl k y \<longleftrightarrow> x = (y :: u64)"
  by (metis word_rot_lr)

lemma xor_zero:
  fixes x y :: u64
  assumes "x XOR y = 0"
  shows "x = y"
proof (rule bit_word_eqI)
  fix i :: nat
  show "bit x i = bit y i" using arg_cong [OF assms, of "\<lambda>w. bit w i"] by (simp add: bit_simps)
qed

lemma xor_cancel:
  fixes a b c :: u64
  assumes "a XOR b = c XOR b"
  shows "a = c"
proof (rule bit_word_eqI)
  fix i :: nat
  show "bit a i = bit c i" using arg_cong [OF assms, of "\<lambda>w. bit w i"] by (auto simp: bit_simps)
qed

lemma xorshift_right_zero:
  fixes z :: u64
  assumes "z = drop_bit k z" and "0 < k"
  shows "z = 0"
proof -
  have "z = drop_bit (n * k) z" for n
  proof (induction n)
    case (Suc n)
    have "z = drop_bit k (drop_bit (n * k) z)" using assms(1) Suc.IH by metis
    then show ?case by (simp add: add.commute)
  qed simp
  then have "z = drop_bit (64 * k) z" .
  moreover have "drop_bit (64 * k) z = 0"
    using assms(2) bit_imp_le_length [of z] by (intro bit_word_eqI) (auto simp: bit_simps)
  ultimately show ?thesis by metis
qed

lemma xor_drop_inj:
  fixes x y :: u64
  assumes "x XOR drop_bit k x = y XOR drop_bit k y" and "0 < k"
  shows "x = y"
proof -
  have "x XOR y = drop_bit k (x XOR y)"
  proof (rule bit_word_eqI)
    fix i :: nat
    show "bit (x XOR y) i = bit (drop_bit k (x XOR y)) i"
      using arg_cong [OF assms(1), of "\<lambda>w. bit w i"] by (auto simp: bit_simps)
  qed
  from xorshift_right_zero [OF this assms(2)] show ?thesis by (rule xor_zero)
qed

lemma xorshift_left_zero:
  fixes z :: u64
  assumes "z = push_bit k z" and "0 < k"
  shows "z = 0"
proof -
  have "z = push_bit (n * k) z" for n
  proof (induction n)
    case (Suc n)
    have "z = push_bit k (push_bit (n * k) z)" using assms(1) Suc.IH by metis
    then show ?case by (simp add: add.commute)
  qed simp
  then have "z = push_bit (64 * k) z" .
  moreover have "push_bit (64 * k) z = 0"
    using assms(2) bit_imp_le_length [of z] by (intro bit_word_eqI) (auto simp: bit_simps)
  ultimately show ?thesis by metis
qed

lemma xor_push_inj:
  fixes x y :: u64
  assumes "x XOR push_bit k x = y XOR push_bit k y" and "0 < k"
  shows "x = y"
proof -
  have "x XOR y = push_bit k (x XOR y)"
  proof (rule bit_word_eqI)
    fix i :: nat
    show "bit (x XOR y) i = bit (push_bit k (x XOR y)) i"
      using arg_cong [OF assms(1), of "\<lambda>w. bit w i"] by (auto simp: bit_simps)
  qed
  from xorshift_left_zero [OF this assms(2)] show ?thesis by (rule xor_zero)
qed

text \<open>
  \<open>XorShift64S\<close> moves through its states without losing one: different states have
  different successors, the state 0 stays 0 and no other state leads there, so a generator
  seeded with a nonzero value never gets stuck.
\<close>

theorem XorShift64S_injective:
  "(snd (XorShift64S s) = snd (XorShift64S t) \<longleftrightarrow> s = t) \<and> (snd (XorShift64S s) = 0 \<longleftrightarrow> s = 0)"
proof -
  have inj: "s = t" if "snd (XorShift64S s) = snd (XorShift64S t)" for s t
  proof -
    define f where "f = (\<lambda>s :: u64. s XOR drop_bit 12 s)"
    define g where "g = (\<lambda>s :: u64. s XOR push_bit 25 s)"
    have st: "snd (XorShift64S s) = g (f s) XOR drop_bit 27 (g (f s))" for s
      unfolding XorShift64S_def Let_def snd_conv f_def g_def ..
    have "g (f s) = g (f t)" using that unfolding st by (rule xor_drop_inj) simp
    then have "f s = f t" unfolding g_def by (rule xor_push_inj) simp
    then show ?thesis unfolding f_def by (rule xor_drop_inj) simp
  qed
  moreover have "snd (XorShift64S 0) = 0" by (simp add: XorShift64S_def)
  ultimately show ?thesis using inj [of s t] inj [of s 0] by auto
qed

text \<open>
  \<open>XoRoShiRo128SS\<close> written with shifts is the generator written with rotations, and its
  state transition is injective; the state of two zeros is its only fixed trap.
\<close>

theorem XoRoShiRo128SS_rotations:
  "XoRoShiRo128SS s0 s1 =
     (word_rotl 7 (s0 * 5) * 9,
      word_rotl 24 s0 XOR (s1 XOR s0) XOR push_bit 16 (s1 XOR s0),
      word_rotl 37 (s1 XOR s0)) \<and>
   (snd (XoRoShiRo128SS s0 s1) = snd (XoRoShiRo128SS t0 t1) \<longleftrightarrow> s0 = t0 \<and> s1 = t1) \<and>
   (snd (XoRoShiRo128SS s0 s1) = (0, 0) \<longleftrightarrow> s0 = 0 \<and> s1 = 0)"
proof -
  have rot: "XoRoShiRo128SS s0 s1 =
     (word_rotl 7 (s0 * 5) * 9,
      word_rotl 24 s0 XOR (s1 XOR s0) XOR push_bit 16 (s1 XOR s0),
      word_rotl 37 (s1 XOR s0))" for s0 s1
    using rotl_shifts [of 7 "s0 * 5"] rotl_shifts [of 24 s0] rotl_shifts [of 37 "s1 XOR s0"]
    by (simp add: XoRoShiRo128SS_def Let_def)
  have inj: "s0 = t0 \<and> s1 = t1" if "snd (XoRoShiRo128SS s0 s1) = snd (XoRoShiRo128SS t0 t1)" for s0 s1 t0 t1
  proof -
    have t: "s1 XOR s0 = t1 XOR t0" using that by (simp add: rot rotl_inj)
    then have "word_rotl 24 s0 XOR (t1 XOR t0) XOR push_bit 16 (t1 XOR t0) =
        word_rotl 24 t0 XOR (t1 XOR t0) XOR push_bit 16 (t1 XOR t0)"
      using that by (simp add: rot)
    then have "s0 = t0" using rotl_inj by (blast dest: xor_cancel)
    with t show ?thesis using xor_cancel by blast
  qed
  have "snd (XoRoShiRo128SS 0 0) = (0, 0)" by (simp add: XoRoShiRo128SS_def)
  then show ?thesis using rot [of s0 s1] inj [of s0 s1 t0 t1] inj [of s0 s1 0 0] by auto
qed

subsection \<open>The cached clock\<close>

text \<open>
  The clock holds the nanoseconds since the epoch. \<open>Run\<close> stores the time it starts at and
  then the time of every tick, until it notices that the cache is closed.
\<close>

datatype tc_event = TcTick int | TcClosed

fun tc_loop :: "int \<Rightarrow> tc_event list \<Rightarrow> int" where
  "tc_loop clock [] = clock"
| "tc_loop clock (TcTick now # es) = tc_loop now es"
| "tc_loop clock (TcClosed # es) = clock"

definition TimeCache_Run :: "int \<Rightarrow> tc_event list \<Rightarrow> int" where
  "TimeCache_Run now es = tc_loop now es"

definition NowUnix :: "int \<Rightarrow> int" where
  "NowUnix clock =
     (let nsec = clock; sec = nsec sdiv 1000000000; nsec' = nsec - sec * 1000000000
      in if nsec' < 0 then sec - 1 else sec)"

lemma sdiv_floor:
  assumes "0 < (b :: int)"
  shows "(if a - (a sdiv b) * b < 0 then a sdiv b - 1 else a sdiv b) = a div b"
proof (cases "0 \<le> a")
  case True
  then have "a sdiv b = a div b" using assms by (simp add: signed_divide_int_def sgn_if)
  moreover have "a - a div b * b = a mod b" by (simp add: minus_div_mult_eq_mod)
  ultimately show ?thesis using assms by (simp add: pos_mod_sign [THEN leD])
next
  case False
  then have s: "a sdiv b = - ((- a) div b)" using assms by (simp add: signed_divide_int_def sgn_if)
  show ?thesis
  proof (cases "a mod b = 0")
    case True
    then have "(- a) div b = - (a div b)" using assms by (simp add: zdiv_zminus1_eq_if)
    then show ?thesis using s True by (simp add: minus_div_mult_eq_mod)
  next
    case False
    then have "(- a) div b = - (a div b) - 1" using assms by (simp add: zdiv_zminus1_eq_if)
    then have q: "a sdiv b = a div b + 1" using s by simp
    have "a - (a div b + 1) * b = a mod b - b"
      using minus_div_mult_eq_mod [of a b] by (simp add: algebra_simps)
    then have "a - (a sdiv b) * b < 0" unfolding q using pos_mod_bound [OF assms, of a] by simp
    then show ?thesis using q by simp
  qed
qed

lemma tc_loop_last:
  "tc_loop clock es = last (clock # [t. TcTick t \<leftarrow> takeWhile (\<lambda>e. e \<noteq> TcClosed) es])"
  by (induction clock es rule: tc_loop.induct) auto

text \<open>
  The cached clock reads the time of the last tick taken before closing (the start time
  when there was none), and \<open>NowUnix\<close> is its number of whole seconds, rounded down for times
  before 1970 too.
\<close>

theorem NowUnix_floor:
  "NowUnix (TimeCache_Run start es) =
     last (start # [t. TcTick t \<leftarrow> takeWhile (\<lambda>e. e \<noteq> TcClosed) es]) div 1000000000"
  unfolding NowUnix_def Let_def TimeCache_Run_def tc_loop_last [symmetric] by (rule sdiv_floor) simp

subsection \<open>The pool of packet buffers\<close>

text \<open>
  \<open>sync.Pool\<close> hands out a pooled buffer or makes a new one and may drop pooled buffers at
  any time. A buffer of capacity \<open>n\<close> is the list of its \<open>n\<close> bytes; \<open>Put\<close> extends the slice to
  its capacity and zeroes it. The steps of the users of a pool: take a buffer, write into it
  (a read from the socket), give it back.
\<close>

definition BytePool_New :: "nat \<Rightarrow> bytes" where
  "BytePool_New n = replicate n 0"

fun zero_out :: "bytes \<Rightarrow> bytes" where
  "zero_out [] = []"
| "zero_out (_ # bs) = 0 # zero_out bs"

definition BytePool_Put :: "bytes \<Rightarrow> bytes list \<Rightarrow> bytes list" where
  "BytePool_Put b pool = zero_out b # pool"

record pool_state =
  pool_free :: "bytes list"
  pool_taken :: "(nat \<times> bytes) list"

inductive pool_step :: "nat \<Rightarrow> pool_state \<Rightarrow> pool_state \<Rightarrow> bool" for n :: nat where
  GetNew: "pool_step n s (s\<lparr>pool_taken := (i, BytePool_New n) # pool_taken s\<rparr>)"
| GetOld: "pool_free s = xs @ b # ys \<Longrightarrow>
    pool_step n s (s\<lparr>pool_free := xs @ ys, pool_taken := (i, b) # pool_taken s\<rparr>)"
| Drop: "pool_free s = xs @ b # ys \<Longrightarrow> pool_step n s (s\<lparr>pool_free := xs @ ys\<rparr>)"
| Write: "\<lbrakk>pool_taken s = xs @ (i, b) # ys; length b' = length b\<rbrakk> \<Longrightarrow>
    pool_step n s (s\<lparr>pool_taken := xs @ (i, b') # ys\<rparr>)"
| Put: "pool_taken s = xs @ (i, b) # ys \<Longrightarrow>
    pool_step n s (s\<lparr>pool_free := BytePool_Put b (pool_free s), pool_taken := xs @ ys\<rparr>)"

inductive_cases pool_stepE: "pool_step n s s'"

lemma zero_out_replicate [simp]: "zero_out b = replicate (length b) 0"
  by (induction b) auto

lemma pool_step_keeps:
  assumes "pool_step n s s'"
    and "\<forall>b \<in> set (pool_free s). b = BytePool_New n" and "\<forall>(i, b) \<in> set (pool_taken s). length b = n"
  shows "(\<forall>b \<in> set (pool_free s'). b = BytePool_New n) \<and> (\<forall>(i, b) \<in> set (pool_taken s'). length b = n)"
  using assms by (elim pool_stepE) (auto simp: BytePool_New_def BytePool_Put_def)

text \<open>
  However the users of a packet pool interleave, a buffer in the pool holds only zero
  bytes and has the pool's length: a request never sees bytes of an earlier one, and a
  buffer handed out never has another length.
\<close>

theorem pool_zeroed:
  assumes "(pool_step n)\<^sup>*\<^sup>* \<lparr>pool_free = [], pool_taken = []\<rparr> s"
  shows "pool_free s = replicate (length (pool_free s)) (BytePool_New n) \<and>
     list_all (\<lambda>(i, b). length b = n) (pool_taken s)"
proof -
  have "(\<forall>b \<in> set (pool_free s). b = BytePool_New n) \<and> (\<forall>(i, b) \<in> set (pool_taken s). length b = n)"
    using assms
  proof (induction rule: rtranclp_induct)
    case (step s s')
    then show ?case using pool_step_keeps [OF step.hyps(2)] by simp
  qed simp
  then show ?thesis by (simp add: list_all_iff replicate_length_same [symmetric])
qed

theorem pool_zeroed_witness:
  "pool_free \<lparr>pool_free = [[0, 0]], pool_taken = []\<rparr> = [BytePool_New 2]"
proof -
  let ?s0 = "\<lparr>pool_free = [], pool_taken = []\<rparr>"
  let ?s1 = "?s0\<lparr>pool_taken := [(0, BytePool_New 2)]\<rparr>"
  let ?s2 = "?s1\<lparr>pool_taken := [(0, [7, 8])]\<rparr>"
  let ?s3 = "?s2\<lparr>pool_free := BytePool_Put [7, 8] [], pool_taken := []\<rparr>"
  have 1: "pool_step 2 ?s0 ?s1" using pool_step.GetNew [of 2 ?s0 0] by simp
  have 2: "pool_step 2 ?s1 ?s2"
    using pool_step.Write [of ?s1 "[]" 0 "BytePool_New 2" "[]" "[7, 8]" 2] by (simp add: BytePool_New_def)
  have 3: "pool_step 2 ?s2 ?s3" using pool_step.Put [of ?s2 "[]" 0 "[7, 8]" "[]" 2] by simp
  note steps = rtranclp.rtrancl_into_rtrancl [of "pool_step 2", OF rtranclp.rtrancl_into_rtrancl [of "pool_step 2", OF
      r_into_rtranclp [of "pool_step 2", OF 1] 2] 3]
  from pool_zeroed [OF steps] show ?thesis by (simp add: BytePool_Put_def)
qed

end
