(* ===== verification/UdpConnId.thy ===== *)
theory UdpConnId
  imports Bittorrent Pkg
begin

unbundle bit_operations_syntax

section \<open>UDP connection IDs, \<open>frontend/udp/connection_id.go\<close>\<close>

text \<open>
  A connection ID is a salt byte, the two low bytes of the time it was made at (in seconds),
  and the first five bytes of a keyed MAC over salt, full time and address. The keyed MAC
  (\<open>hmac\<close> over \<open>xxhash\<close>) is the parameter \<open>mac\<close>; what the code relies on is that its output is
  eight bytes long. Times are \<open>int64\<close> seconds, \<open>ttl\<close> and \<open>maxClockSkew\<close> are \<open>int64\<close> nanoseconds,
  as in the source. The slice that is validated has eight bytes.
\<close>

subsection \<open>Generating and validating\<close>

definition ttl :: int where
  "ttl = 2 * 60 * second"

definition connIDLen :: nat where "connIDLen = 8"
definition buffLen :: nat where "buffLen = 9"
definition hmacLen :: nat where "hmacLen = 5"

lemmas connid_lens = connIDLen_def buffLen_def hmacLen_def

type_synonym mac = "bytes \<Rightarrow> bytes \<Rightarrow> bytes"

definition mac_ok :: "mac \<Rightarrow> bool" where
  "mac_ok mac \<longleftrightarrow> (\<forall>key msg. length (mac key msg) = 8)"

text \<open>The buffer that is hashed: the salt and the eight bytes of the time.\<close>

definition connid_buff :: "byte \<Rightarrow> int \<Rightarrow> bytes" where
  "connid_buff salt ts = salt # be_bytes 8 (word_of_int ts :: u64)"

text \<open>\<open>seed\<close> is what the operating system's random source (or the clock) gave to \<open>reset\<close>.\<close>

definition Generate :: "mac \<Rightarrow> bytes \<Rightarrow> u64 \<Rightarrow> addr \<Rightarrow> int \<Rightarrow> bytes" where
  "Generate mac key seed ip now =
     (let (r, s) = XorShift64S seed;
          buff = connid_buff (ucast r) now;
          scratch = mac key (buff @ AsSlice ip)
      in [buff ! 0, buff ! 7, buff ! 8] @ take hmacLen scratch)"

definition restore_time :: "int \<Rightarrow> byte \<Rightarrow> byte \<Rightarrow> int" where
  "restore_time nowTS hi lo =
     (nowTS AND push_bit 16 (drop_bit 16 (NOT 0))) OR push_bit 8 (uint hi) OR uint lo"

definition Validate :: "mac \<Rightarrow> bytes \<Rightarrow> int \<Rightarrow> bytes \<Rightarrow> addr \<Rightarrow> int \<Rightarrow> bool" where
  "Validate mac key maxClockSkew connectionID ip nowTS =
     (let ts = restore_time nowTS (connectionID ! 1) (connectionID ! 2);
          buff = connid_buff (connectionID ! 0) ts;
          scratch = mac key (buff @ AsSlice ip);
          res = (take hmacLen scratch = take hmacLen (drop (connIDLen - hmacLen) connectionID));
          res' = (wrap64 (ts - maxClockSkew) < nowTS \<and> res)
      in nowTS < wrap64 (wrap64 (ts + ttl) + maxClockSkew) \<and> res')"

subsection \<open>The time in a connection ID\<close>

lemma restore_time_eq: "restore_time nowTS hi lo = nowTS - nowTS mod 65536 + uint hi * 256 + uint lo"
proof -
  have lo: "0 \<le> uint lo" "uint lo < 256" using uint_bounded [of lo] by simp_all
  have hi: "0 \<le> uint hi" "uint hi < 256" using uint_bounded [of hi] by simp_all
  have m: "nowTS AND push_bit 16 (drop_bit 16 (NOT 0)) = nowTS - nowTS mod 65536"
  proof -
    have "nowTS AND push_bit 16 (drop_bit 16 (NOT 0)) = push_bit 16 (drop_bit 16 nowTS)"
      by (rule bit_eqI) (auto simp: bit_simps)
    also have "\<dots> = nowTS div 65536 * 65536" by (simp add: push_bit_eq_mult drop_bit_eq_div)
    finally show ?thesis by (simp add: minus_mod_eq_div_mult)
  qed
  have d: "push_bit 8 (uint hi) = uint hi * 256" by (simp add: push_bit_eq_mult)
  define a where "a = nowTS - nowTS mod 65536"
  have a16: "take_bit 16 a = 0" by (simp add: a_def take_bit_eq_mod minus_mod_eq_mult_div)
  have "a AND (uint hi * 256 OR uint lo) = 0"
  proof (rule bit_eqI)
    fix n
    have "\<not> bit a n" if "n < 16"
      using a16 that by (metis bit_0_eq bit_take_bit_iff bot_apply bot_bool_def)
    moreover have "\<not> bit (push_bit 8 (uint hi)) n" if "16 \<le> n"
      using that bit_uint_iff [of hi "n - 8"] bit_imp_le_length [of hi "n - 8"] by (auto simp: bit_push_bit_iff_int)
    moreover have "\<not> bit (uint lo) n" if "16 \<le> n"
      using that bit_imp_le_length [of lo n] by (auto simp: bit_uint_iff)
    ultimately show "bit (a AND (uint hi * 256 OR uint lo)) n = bit (0 :: int) n"
      unfolding d [symmetric] by (cases "n < 16") (auto simp: bit_simps)
  qed
  then have 1: "a OR (uint hi * 256 OR uint lo) = a + (uint hi * 256 OR uint lo)"
    by (rule disjunctive_add_eq_or [symmetric])
  have "uint hi * 256 AND uint lo = 0"
  proof (rule bit_eqI)
    fix n
    show "bit (uint hi * 256 AND uint lo) n = bit (0 :: int) n"
      unfolding d [symmetric] using bit_imp_le_length [of lo n] by (auto simp: bit_simps bit_uint_iff)
  qed
  then have 2: "uint hi * 256 OR uint lo = uint hi * 256 + uint lo"
    by (rule disjunctive_add_eq_or [symmetric])
  show ?thesis
    unfolding restore_time_def m d a_def [symmetric] or.assoc using 1 unfolding 2 by simp
qed

lemma connid_buff_bytes:
  "length (connid_buff salt ts) = buffLen" "connid_buff salt ts ! 0 = salt"
  "uint (connid_buff salt ts ! 7) = ts div 256 mod 256" "uint (connid_buff salt ts ! 8) = ts mod 256"
proof -
  let ?w = "word_of_int ts :: u64"
  have l: "be_bytes 8 ?w = map (\<lambda>i. ucast (drop_bit (8 * i) ?w)) [7, 6, 5, 4, 3, 2, 1, 0]"
    by (simp add: numeral_eq_Suc)
  show "length (connid_buff salt ts) = buffLen" by (simp add: connid_buff_def buffLen_def)
  show "connid_buff salt ts ! 0 = salt" by (simp add: connid_buff_def)
  have u: "uint ?w = ts mod 2 ^ 64" by (simp add: uint_word_of_int)
  have "connid_buff salt ts ! 8 = ucast ?w" by (simp add: connid_buff_def l)
  then have "uint (connid_buff salt ts ! 8) = uint ?w mod 256"
    by (simp add: unsigned_ucast_eq take_bit_eq_mod)
  then show "uint (connid_buff salt ts ! 8) = ts mod 256" unfolding u by (simp add: mod_mod_cancel)
  have "connid_buff salt ts ! 7 = ucast (drop_bit 8 ?w)" by (simp add: connid_buff_def l)
  then have "uint (connid_buff salt ts ! 7) = uint ?w div 256 mod 256"
    by (simp add: unsigned_ucast_eq take_bit_eq_mod drop_bit_eq_div uint_div_distrib)
  also have "\<dots> = ts div 256 mod 256"
  proof -
    have "ts mod 2 ^ 64 = 256 * (ts div 256 mod 2 ^ 56) + ts mod 256"
      using zmod_zmult2_eq [of "2 ^ 56" ts 256] by simp
    then have "ts mod 2 ^ 64 div 256 = ts div 256 mod 2 ^ 56" by simp
    then show ?thesis unfolding u by (simp add: mod_mod_cancel)
  qed
  finally show "uint (connid_buff salt ts ! 7) = ts div 256 mod 256" .
qed

lemma low_two_bytes: "ts div 256 mod 256 * 256 + ts mod 256 = ts mod (65536 :: int)"
  using zmod_zmult2_eq [of 256 ts 256] by simp

lemma restore_time_same_window:
  assumes "now div 65536 = t div (65536 :: int)"
  shows "restore_time now (connid_buff salt t ! 7) (connid_buff salt t ! 8) = t"
proof -
  have "now - now mod 65536 = t div 65536 * 65536"
    using minus_mod_eq_div_mult [of now 65536] assms by simp
  then have "restore_time now (connid_buff salt t ! 7) (connid_buff salt t ! 8) =
      t div 65536 * 65536 + (t div 256 mod 256 * 256 + t mod 256)"
    by (simp add: restore_time_eq connid_buff_bytes)
  then show ?thesis by (simp add: low_two_bytes div_mult_mod_eq)
qed

lemma restore_time_window: "restore_time now hi lo div 65536 = now div 65536"
proof -
  have "uint hi < 256" "uint lo < 256" "0 \<le> uint hi" "0 \<le> uint lo"
    using uint_bounded [of hi] uint_bounded [of lo] by simp_all
  then have b: "0 \<le> uint hi * 256 + uint lo" "uint hi * 256 + uint lo < 65536" by simp_all
  have "restore_time now hi lo = (uint hi * 256 + uint lo) + now div 65536 * 65536"
    by (simp add: restore_time_eq minus_mod_eq_div_mult)
  then show ?thesis using b by simp
qed

lemma window_close: "a div 65536 = b div (65536 :: int) \<Longrightarrow> a - b < 65536 \<and> b - a < 65536"
  by presburger

lemma Generate_bytes:
  fixes seed ip now key mac
  defines "salt \<equiv> ucast (fst (XorShift64S seed)) :: byte"
  shows "Generate mac key seed ip now = [salt, connid_buff salt now ! 7, connid_buff salt now ! 8] @
     take hmacLen (mac key (connid_buff salt now @ AsSlice ip))"
  by (simp add: Generate_def Let_def case_prod_unfold salt_def connid_buff_bytes(2))

lemma length_Generate: "mac_ok mac \<Longrightarrow> length (Generate mac key seed ip now) = connIDLen"
  by (simp add: Generate_bytes mac_ok_def connid_lens)

subsection \<open>Properties\<close>

definition example_mac :: mac where
  "example_mac key msg = be_bytes 8 (foldl (\<lambda>a b. a * 31 + ucast b) 7 (key @ msg) :: u64)"

lemma example_mac_ok: "mac_ok example_mac"
  by (simp add: mac_ok_def example_mac_def)

lemma Validate_Generate:
  assumes "mac_ok mac" and "0 \<le> t" and "now < 2 ^ 62" and "now div 65536 = t div 65536"
    and "0 \<le> skew" and "skew \<le> 30 * second" and "t - skew < now"
  shows "length (Generate mac key seed ip t) = 8 \<and>
         Validate mac key skew (Generate mac key seed ip t) ip now"
proof -
  let ?salt = "ucast (fst (XorShift64S seed)) :: byte"
  have ts: "restore_time now (Generate mac key seed ip t ! 1) (Generate mac key seed ip t ! 2) = t"
    using restore_time_same_window [OF assms(4)] by (simp add: Generate_bytes)
  have "t < now + 65536" "now < t + 65536" using window_close [OF assms(4)] by simp_all
  then have bounds: "wrap64 (t - skew) = t - skew" "wrap64 (t + ttl) = t + ttl"
      "wrap64 (t + ttl + skew) = t + ttl + skew" "now < t + ttl + skew"
    using assms(2-6) by (simp_all add: wrap64_id second_def ttl_def)
  show ?thesis
    using assms(1,7) bounds ts length_Generate [OF assms(1), of key seed ip t]
    unfolding Validate_def Let_def ts
    by (simp add: Generate_bytes mac_ok_def connid_lens)
qed

text \<open>
  A connection ID handed out to an address is accepted from this address as long as the
  clock has not left the window of 65536 seconds it was made in and has not gone back by
  the allowed skew or more: neither the salt nor the key matters.
\<close>

theorem connid_roundtrip:
  assumes "mac_ok mac" and "0 \<le> t" and "now < 2 ^ 62" and "now div 65536 = t div 65536"
    and "0 \<le> skew" and "skew \<le> 30 * second" and "t - skew < now"
  shows "length (Generate mac key seed ip t) = 8 \<and>
         Validate mac key skew (Generate mac key seed ip t) ip now"
  using assms by (rule Validate_Generate)

theorem connid_roundtrip_witness:
  "Validate example_mac [1, 2, 3] (10 * second) (Generate example_mac [1, 2, 3] 42 (AddrV4 7) 1000) (AddrV4 7) 1100"
  using connid_roundtrip [of example_mac 1000 1100 "10 * second" "[1, 2, 3]" 42 "AddrV4 7"]
  by (simp add: example_mac_ok second_def)

text \<open>
  C31: Validation has no effective expiry. For a clock between 1970 and the year 2106 and every
  skew the configuration can leave (up to 30 seconds), the two comparisons with the time in
  the ID, which mix seconds with nanoseconds, are always true once the skew is 65536
  nanoseconds or more: an ID is accepted exactly when its last five bytes are the MAC of its
  salt, its time completed by the clock, and the address. The two minutes of BEP 15 are not
  enforced.
\<close>

theorem Validate_ignores_age:
  assumes "0 \<le> now" and "now < 2 ^ 32" and "65536 \<le> skew" and "skew \<le> 30 * second"
  shows "Validate mac key skew cid ip now \<longleftrightarrow>
     take 5 (drop 3 cid) =
       take 5 (mac key (connid_buff (cid ! 0) (restore_time now (cid ! 1) (cid ! 2)) @ AsSlice ip))"
proof -
  define ts where "ts = restore_time now (cid ! 1) (cid ! 2)"
  have "ts div 65536 = now div 65536" by (simp add: ts_def restore_time_window)
  note win = this
  have "0 \<le> ts" using win assms(1) pos_imp_zdiv_nonneg_iff [of 65536 ts] pos_imp_zdiv_nonneg_iff [of 65536 now] by simp
  moreover have "- 65536 < now - ts" "now - ts < 65536" using window_close [OF win] by simp_all
  moreover from this have "ts < 2 ^ 33" using assms(2) by simp
  ultimately have "wrap64 (ts - skew) < now" "now < wrap64 (wrap64 (ts + ttl) + skew)"
    using assms(3,4) by (simp_all add: wrap64_id second_def ttl_def)
  then show ?thesis
    unfolding Validate_def Let_def ts_def [symmetric] by (auto simp: connid_lens)
qed

theorem Validate_ignores_age_witness:
  "Validate example_mac [1, 2, 3] (10 * second) (Generate example_mac [1, 2, 3] 42 (AddrV4 7) 1000) (AddrV4 7) 60000"
proof -
  let ?salt = "ucast (fst (XorShift64S 42)) :: byte"
  have ts: "restore_time 60000 (connid_buff ?salt 1000 ! 7) (connid_buff ?salt 1000 ! 8) = 1000"
    by (rule restore_time_same_window) simp
  show ?thesis
    using Validate_ignores_age [of 60000 "10 * second" example_mac "[1, 2, 3]"
        "Generate example_mac [1, 2, 3] 42 (AddrV4 7) 1000" "AddrV4 7"] ts
    by (simp add: second_def Generate_bytes hmacLen_def)
qed

text \<open>
  An ID does not survive the end of its window. If it is accepted in another window of
  65536 seconds, the MAC has a collision: it agrees in five bytes on the messages with the
  time the ID was made at and with another time. So an ID made in the last second of a
  window is refused a second later.
\<close>

theorem connid_other_window:
  assumes "mac_ok mac" and "now div 65536 \<noteq> t div 65536"
    and "Validate mac key skew (Generate mac key seed ip t) ip now"
  shows "\<exists>salt ts. ts \<noteq> t \<and> ts div 65536 = now div 65536 \<and>
     take 5 (mac key (connid_buff salt ts @ AsSlice ip)) = take 5 (mac key (connid_buff salt t @ AsSlice ip))"
proof -
  let ?salt = "ucast (fst (XorShift64S seed)) :: byte"
  define ts where "ts = restore_time now (connid_buff ?salt t ! 7) (connid_buff ?salt t ! 8)"
  have w: "ts div 65536 = now div 65536" by (simp add: ts_def restore_time_window)
  have "take 5 (mac key (connid_buff ?salt ts @ AsSlice ip)) = take 5 (mac key (connid_buff ?salt t @ AsSlice ip))"
    using assms(1,3) unfolding Validate_def Let_def
    by (simp add: Generate_bytes connid_lens mac_ok_def ts_def)
  moreover have "ts \<noteq> t" using w assms(2) by auto
  ultimately show ?thesis using w by blast
qed

definition const_mac :: mac where
  "const_mac key msg = replicate 8 0"

theorem connid_other_window_witness:
  "\<exists>salt ts. ts \<noteq> 1000 \<and> ts div 65536 = (70000 :: int) div 65536 \<and>
     take 5 (const_mac [] (connid_buff salt ts @ AsSlice (AddrV4 7))) =
     take 5 (const_mac [] (connid_buff salt 1000 @ AsSlice (AddrV4 7)))"
proof -
  have "Validate const_mac [] (10 * second) (Generate const_mac [] 42 (AddrV4 7) 1000) (AddrV4 7) 70000"
  proof -
    define cid where "cid = Generate const_mac [] 42 (AddrV4 7) 1000"
    define ts where "ts = restore_time 70000 (cid ! 1) (cid ! 2)"
    have "ts div 65536 = 1" by (simp add: ts_def restore_time_window)
    then have "0 \<le> ts" "ts < 131072" by presburger+
    then show ?thesis
      unfolding cid_def [symmetric] Validate_def Let_def ts_def [symmetric]
      by (simp add: wrap64_id second_def ttl_def cid_def Generate_bytes const_mac_def connid_lens)
  qed
  then show ?thesis
    using connid_other_window [of const_mac 70000 1000 "[]" "10 * second" 42 "AddrV4 7"]
    by (simp add: mac_ok_def const_mac_def)
qed

subsection \<open>The reusable generator\<close>

text \<open>
  The generator of the source keeps its hash, its buffers and its seed between calls and is
  pooled. \<open>g_input\<close> is what was written to the keyed hash since its last reset.
\<close>

definition scratchLen :: nat where "scratchLen = 16"

record ConnectionIDGenerator =
  g_input :: bytes
  g_connID :: bytes
  g_buff :: bytes
  g_scratch :: bytes
  g_maxClockSkew :: int
  g_s :: u64

definition NewConnectionIDGenerator :: "int \<Rightarrow> ConnectionIDGenerator" where
  "NewConnectionIDGenerator maxClockSkew =
     \<lparr>g_input = [], g_connID = replicate connIDLen 0, g_buff = replicate buffLen 0,
      g_scratch = replicate scratchLen 0, g_maxClockSkew = maxClockSkew, g_s = 0\<rparr>"

definition gen_reset :: "u64 option \<Rightarrow> ConnectionIDGenerator \<Rightarrow> ConnectionIDGenerator" where
  "gen_reset init g = g\<lparr>g_input := [], g_connID := take connIDLen (g_connID g), g_buff := take buffLen (g_buff g),
     g_scratch := [], g_s := (case init of Some r \<Rightarrow> r | None \<Rightarrow> g_s g)\<rparr>"

text \<open>\<open>binary.BigEndian.PutUint64\<close> at an offset, and \<open>copy\<close> into a slice from an offset.\<close>

definition put_at :: "nat \<Rightarrow> bytes \<Rightarrow> bytes \<Rightarrow> bytes" where
  "put_at i bs dst = take i dst @ take (length dst - i) bs @ drop (i + length bs) dst"

definition gen_Generate ::
  "mac \<Rightarrow> bytes \<Rightarrow> u64 \<Rightarrow> addr \<Rightarrow> int \<Rightarrow> ConnectionIDGenerator \<Rightarrow> bytes \<times> ConnectionIDGenerator" where
  "gen_Generate mac key seed ip now g =
     (let g = gen_reset (Some seed) g;
          (r, s) = XorShift64S (g_s g);
          g = g\<lparr>g_s := s, g_buff := (g_buff g)[0 := ucast r]\<rparr>;
          g = g\<lparr>g_buff := put_at 1 (be_bytes 8 (word_of_int now :: u64)) (g_buff g)\<rparr>;
          g = g\<lparr>g_input := g_input g @ g_buff g\<rparr>;
          g = g\<lparr>g_input := g_input g @ AsSlice ip\<rparr>;
          g = g\<lparr>g_scratch := g_scratch g @ mac key (g_input g)\<rparr>;
          g = g\<lparr>g_connID := (g_connID g)[0 := g_buff g ! 0, 1 := g_buff g ! 7, 2 := g_buff g ! 8]\<rparr>;
          g = g\<lparr>g_connID := put_at (connIDLen - hmacLen) (take hmacLen (g_scratch g)) (g_connID g)\<rparr>
      in (take connIDLen (g_connID g), g))"

definition gen_Validate ::
  "mac \<Rightarrow> bytes \<Rightarrow> bytes \<Rightarrow> addr \<Rightarrow> int \<Rightarrow> ConnectionIDGenerator \<Rightarrow> bool \<times> ConnectionIDGenerator" where
  "gen_Validate mac key connectionID ip nowTS g =
     (let g = gen_reset None g;
          g = g\<lparr>g_buff := (g_buff g)[0 := connectionID ! 0]\<rparr>;
          ts = restore_time nowTS (connectionID ! 1) (connectionID ! 2);
          g = g\<lparr>g_buff := put_at 1 (be_bytes 8 (word_of_int ts :: u64)) (g_buff g)\<rparr>;
          g = g\<lparr>g_input := g_input g @ g_buff g\<rparr>;
          g = g\<lparr>g_input := g_input g @ AsSlice ip\<rparr>;
          g = g\<lparr>g_scratch := g_scratch g @ mac key (g_input g)\<rparr>;
          res = (take hmacLen (g_scratch g) = take hmacLen (drop (connIDLen - hmacLen) connectionID));
          res = (wrap64 (ts - g_maxClockSkew g) < nowTS \<and> res);
          res = (nowTS < wrap64 (wrap64 (ts + ttl) + g_maxClockSkew g) \<and> res)
      in (res, g))"

definition gen_ok :: "int \<Rightarrow> ConnectionIDGenerator \<Rightarrow> bool" where
  "gen_ok skew g \<longleftrightarrow> length (g_connID g) = connIDLen \<and> length (g_buff g) = buffLen \<and> g_maxClockSkew g = skew"

lemma gen_ok_New: "gen_ok skew (NewConnectionIDGenerator skew)"
  by (simp add: gen_ok_def NewConnectionIDGenerator_def)

lemma put_buff: "length b = 9 \<Longrightarrow> put_at (Suc 0) (be_bytes 8 (w :: u64)) (b[0 := x]) = x # be_bytes 8 w"
  by (cases b) (simp_all add: put_at_def)

lemma put_connID:
  assumes "length c = 8" and "length m = 5"
  shows "put_at 3 m (c[0 := x, 1 := y, 2 := z]) = [x, y, z] @ m"
  using assms by (auto simp: put_at_def list_eq_iff_nth_eq nth_append nth_Cons' nth_list_update numeral_3_eq_3)

lemma gen_Generate_eq:
  assumes "gen_ok skew g" and "mac_ok mac"
  shows "fst (gen_Generate mac key seed ip now g) = Generate mac key seed ip now"
    and "gen_ok skew (snd (gen_Generate mac key seed ip now g))"
proof -
  define buff where "buff = connid_buff (ucast (fst (XorShift64S seed))) now"
  define scr where "scr = mac key (buff @ AsSlice ip)"
  define cid where "cid = [buff ! 0, buff ! 7, buff ! 8] @ take 5 scr"
  have g: "take 9 (g_buff g) = g_buff g" "take 8 (g_connID g) = g_connID g" "length (g_buff g) = 9"
    "length (g_connID g) = 8" "g_maxClockSkew g = skew"
    using assms(1) by (simp_all add: gen_ok_def connid_lens)
  have l: "length (take 5 scr) = 5" using assms(2) by (simp add: mac_ok_def scr_def)
  have b: "put_at 1 (be_bytes 8 (word_of_int now :: u64)) ((g_buff g)[0 := ucast (fst (XorShift64S seed))]) = buff"
    using put_buff [OF g(3)] by (simp add: buff_def connid_buff_def)
  have c: "put_at 3 (take 5 scr) ((g_connID g)[0 := buff ! 0, 1 := buff ! 7, 2 := buff ! 8]) = cid"
    unfolding cid_def by (rule put_connID [OF g(4) l])
  have len: "length cid = 8" "length buff = 9" using l by (simp_all add: cid_def buff_def connid_buff_def)
  have eq: "gen_Generate mac key seed ip now g = (cid, g\<lparr>g_input := buff @ AsSlice ip, g_connID := cid, g_buff := buff,
      g_scratch := scr, g_s := snd (XorShift64S seed)\<rparr>)"
    unfolding gen_Generate_def gen_reset_def Let_def connid_lens case_prod_unfold
    by (simp add: g(1,2) b [simplified] c [simplified] len scr_def [symmetric])
  show "fst (gen_Generate mac key seed ip now g) = Generate mac key seed ip now"
    unfolding eq Generate_def Let_def case_prod_unfold hmacLen_def
    by (simp add: cid_def scr_def buff_def)
  show "gen_ok skew (snd (gen_Generate mac key seed ip now g))"
    unfolding eq gen_ok_def connid_lens by (simp add: len g(5))
qed

lemma gen_Validate_eq:
  assumes "gen_ok skew g"
  shows "fst (gen_Validate mac key cid ip now g) = Validate mac key skew cid ip now"
    and "gen_ok skew (snd (gen_Validate mac key cid ip now g))"
  using assms
  by (simp_all add: gen_Validate_def Validate_def Let_def gen_reset_def put_buff connid_buff_def gen_ok_def connid_lens)

datatype gen_call = CallGenerate u64 addr int | CallValidate bytes addr int

fun gen_calls :: "mac \<Rightarrow> bytes \<Rightarrow> gen_call list \<Rightarrow> ConnectionIDGenerator \<Rightarrow> (bytes + bool) list" where
  "gen_calls mac key [] g = []"
| "gen_calls mac key (CallGenerate seed ip now # cs) g =
     (let (out, g') = gen_Generate mac key seed ip now g in Inl out # gen_calls mac key cs g')"
| "gen_calls mac key (CallValidate cid ip now # cs) g =
     (let (res, g') = gen_Validate mac key cid ip now g in Inr res # gen_calls mac key cs g')"

fun gen_result :: "mac \<Rightarrow> bytes \<Rightarrow> int \<Rightarrow> gen_call \<Rightarrow> bytes + bool" where
  "gen_result mac key skew (CallGenerate seed ip now) = Inl (Generate mac key seed ip now)"
| "gen_result mac key skew (CallValidate cid ip now) = Inr (Validate mac key skew cid ip now)"

lemma gen_calls_eq:
  assumes "mac_ok mac"
  shows "gen_ok skew g \<Longrightarrow> gen_calls mac key cs g = map (gen_result mac key skew) cs"
proof (induction cs arbitrary: g)
  case (Cons c cs)
  then show ?case
    using gen_Generate_eq [OF _ assms] gen_Validate_eq by (cases c) (auto simp: case_prod_unfold Let_def)
qed simp

text \<open>
  A generator can be pooled and reused without cleanup. Whatever sequence of calls of
  \<open>Generate\<close> and \<open>Validate\<close> goes through one generator, each call returns what it would return
  on a fresh one: neither the buffers nor the hash nor the seed of earlier calls matter.
\<close>

theorem generator_reusable:
  assumes "mac_ok mac"
  shows "gen_calls mac key cs (NewConnectionIDGenerator skew) = map (gen_result mac key skew) cs"
  by (rule gen_calls_eq [OF assms gen_ok_New])

theorem generator_reusable_witness:
  "gen_calls example_mac [1, 2, 3] [CallGenerate 42 (AddrV4 7) 1000, CallValidate (replicate 8 0) (AddrV4 7) 1000,
      CallGenerate 42 (AddrV4 7) 1000] (NewConnectionIDGenerator (10 * second)) ! 2 =
   Inl (Generate example_mac [1, 2, 3] 42 (AddrV4 7) 1000)"
  using generator_reusable [OF example_mac_ok, of "[1, 2, 3]" "[CallGenerate 42 (AddrV4 7) 1000,
      CallValidate (replicate 8 0) (AddrV4 7) 1000, CallGenerate 42 (AddrV4 7) 1000]" "10 * second"]
  by simp

end
