(* ===== verification/UdpFrontend.thy ===== *)
theory UdpFrontend
  imports UdpParser UdpConnId MiddlewareProps
begin

unbundle bit_operations_syntax

section \<open>The UDP frontend, \<open>frontend/udp/writer.go\<close> and \<open>frontend.go\<close>\<close>

text \<open>
  Encoding of responses, the configuration, starting the sockets, the receive loop and the
  handling of one packet. The outcome of handling a packet is what is written back, the
  action and error that go to the metrics, the work left for after the response, and the
  state of the storage.
\<close>

subsection \<open>Responses\<close>

definition connectActionID :: u32 where "connectActionID = 0"
definition announceActionID :: u32 where "announceActionID = 1"
definition scrapeActionID :: u32 where "scrapeActionID = 2"
definition errorActionID :: u32 where "errorActionID = 3"
definition announceV6ActionID :: u32 where "announceV6ActionID = 4"

lemmas action_defs = connectActionID_def announceActionID_def scrapeActionID_def errorActionID_def
  announceV6ActionID_def

definition initialConnectionID :: bytes where
  "initialConnectionID = [0, 0, 0x04, 0x17, 0x27, 0x10, 0x19, 0x80]"

definition writeHeader :: "bytes \<Rightarrow> u32 \<Rightarrow> bytes" where
  "writeHeader txID action = be_bytes 4 action @ txID"

definition writeErrorResponse :: "bytes \<Rightarrow> goerror \<Rightarrow> bytes" where
  "writeErrorResponse txID e =
     writeHeader txID errorActionID @
     str (case e of ClientError m \<Rightarrow> m | _ \<Rightarrow> ''mochi internal error'') @ [0]"

definition write_peer :: "Peer \<Rightarrow> bytes" where
  "write_peer p = AsSlice (Peer_Addr p) @ be_bytes 2 (Peer_Port p)"

definition writeAnnounceResponse :: "bytes \<Rightarrow> AnnounceResponse \<Rightarrow> bool \<Rightarrow> bool \<Rightarrow> bytes" where
  "writeAnnounceResponse txID resp v6Action v6Peers =
     writeHeader txID (if v6Action then announceV6ActionID else announceActionID) @
     be_bytes 4 (word_of_int (aresp_Interval resp sdiv second) :: u32) @
     be_bytes 4 (aresp_Incomplete resp) @ be_bytes 4 (aresp_Complete resp) @
     concat (map write_peer (if v6Peers then aresp_IPv6Peers resp else aresp_IPv4Peers resp))"

definition writeScrapeResponse :: "bytes \<Rightarrow> ScrapeResponse \<Rightarrow> bytes" where
  "writeScrapeResponse txID resp =
     writeHeader txID scrapeActionID @
     concat (map (\<lambda>s. be_bytes 4 (scr_Complete s) @ be_bytes 4 (scr_Snatches s) @ be_bytes 4 (scr_Incomplete s))
       (sresp_Data resp))"

definition writeConnectionID :: "bytes \<Rightarrow> bytes \<Rightarrow> bytes" where
  "writeConnectionID txID connID = writeHeader txID connectActionID @ connID"

subsection \<open>Configuration\<close>

definition defaultKeyLen :: nat where "defaultKeyLen = 32"
definition maxAllowedClockSkew :: duration where "maxAllowedClockSkew = 30 * second"
definition defaultMaxClockSkew :: duration where "defaultMaxClockSkew = 10 * second"

definition allowedGeneratedPrivateKeyRunes :: bytes where
  "allowedGeneratedPrivateKeyRunes = str ''abcdefghijklmnopqrstuvwxyzABCDEFGHIJKLMNOPQRSTUVWXYZ1234567890''"

record UdpConfig =
  uc_Listen :: ListenOptions
  uc_PrivateKey :: bytes
  uc_MaxClockSkew :: duration
  uc_Parse :: ParseOptions

definition abs_skew :: "int \<Rightarrow> int" where
  "abs_skew x = (let sb = drop_bit 63 x in wrap64 ((x XOR sb) + (sb AND 1)))"

text \<open>\<open>rnd\<close> are the bytes the random source returned for the private key.\<close>

definition UdpConfig_Validate :: "bytes \<Rightarrow> UdpConfig \<Rightarrow> UdpConfig" where
  "UdpConfig_Validate rnd cfg =
     (let lo = ListenOptions_Validate (uc_Listen cfg);
          lo1 = (if lo_Workers (uc_Listen cfg) = 0 then lo\<lparr>lo_Workers := 1\<rparr> else lo);
          lo2 = (if lo_Workers lo1 > 1 \<and> \<not> lo_ReusePort lo1 then lo1\<lparr>lo_ReusePort := True\<rparr> else lo1);
          pk = (if uc_PrivateKey cfg = []
                then map (\<lambda>b. allowedGeneratedPrivateKeyRunes !
                              (unat b mod length allowedGeneratedPrivateKeyRunes)) (take defaultKeyLen rnd)
                else uc_PrivateKey cfg);
          sk = abs_skew (uc_MaxClockSkew cfg);
          sk' = (if sk = 0 \<or> sk > maxAllowedClockSkew then defaultMaxClockSkew else sk)
      in \<lparr>uc_Listen = lo2, uc_PrivateKey = pk, uc_MaxClockSkew = sk',
          uc_Parse = ParseOptions_Validate (uc_Parse cfg)\<rparr>)"

subsection \<open>Starting and receiving\<close>

text \<open>
  One turn of the receive loop: the closing signal, an error of the read (a timeout or not),
  or a packet with its source. The requests that were handed to a goroutine, and how the
  loop ended (\<open>None\<close> while it still runs).
\<close>

datatype udp_event = Closing | ReadError goerror bool | Received bytes addrport

fun serve :: "udp_event list \<Rightarrow> UdpRequest list \<times> err option" where
  "serve [] = ([], None)"
| "serve (Closing # es) = ([], Some None)"
| "serve (ReadError e timeout # es) = (if timeout then serve es else ([], Some (Some e)))"
| "serve (Received packet src # es) =
     (if length packet = 0 then serve es
      else let (rs, x) = serve es
           in (\<lparr>ureq_Packet = packet, ureq_IP = Unmap (ap_addr src)\<rparr> # rs, x))"

subsection \<open>Handling a packet\<close>

record 's udp_outcome =
  uo_action :: string
  uo_err :: err
  uo_written :: "bytes list"
  uo_after :: "after_work option"
  uo_state :: 's

record 's udpFE =
  fe_logic :: "'s Logic"
  fe_options :: ParseOptions
  fe_mac :: mac
  fe_key :: bytes
  fe_skew :: int

definition handle_announce ::
  "'s udpFE \<Rightarrow> (bytes \<Rightarrow> bytes) \<Rightarrow> ((addr \<times> bool) list \<Rightarrow> (addr \<times> bool) list) \<Rightarrow> ctx \<Rightarrow> UdpRequest \<Rightarrow>
   bytes \<Rightarrow> bool \<Rightarrow> 's \<Rightarrow> 's udp_outcome go" where
  "handle_announce f uni ord c r txID v6Action s =
     (let out = \<lparr>uo_action = ''announce'', uo_err = None, uo_written = [], uo_after = None, uo_state = s\<rparr> in
      case parseAnnounce uni ord r v6Action (fe_options f) of
        Inl e \<Rightarrow> Ret (out\<lparr>uo_err := Some e, uo_written := [writeErrorResponse txID e]\<rparr>)
      | Inr req \<Rightarrow>
          bind_go (Logic_HandleAnnounce (fe_logic f) (InjectRouteParamsToContext c (Some [])) req s) (\<lambda>(res, s').
            case res of
              Inl e \<Rightarrow> Ret (out\<lparr>uo_err := Some e, uo_state := s',
                               uo_written := (if e \<noteq> Canceled then [writeErrorResponse txID e] else [])\<rparr>)
            | Inr (c', req', resp) \<Rightarrow>
                if ctx_Err c' = None
                then Ret (out\<lparr>uo_state := s', uo_written := [writeAnnounceResponse txID resp v6Action (Is6 (ureq_IP r))],
                              uo_after := Some (AfterAnnounceWork (RemapRouteParamsToBgContext c') req' resp)\<rparr>)
                else Ret (out\<lparr>uo_err := ctx_Err c', uo_state := s'\<rparr>)))"

definition handle_scrape ::
  "'s udpFE \<Rightarrow> ((addr \<times> bool) list \<Rightarrow> (addr \<times> bool) list) \<Rightarrow> ctx \<Rightarrow> UdpRequest \<Rightarrow>
   bytes \<Rightarrow> 's \<Rightarrow> 's udp_outcome go" where
  "handle_scrape f ord c r txID s =
     (let out = \<lparr>uo_action = ''scrape'', uo_err = None, uo_written = [], uo_after = None, uo_state = s\<rparr> in
      case parseScrape ord r (fe_options f) of
        Inl e \<Rightarrow> Ret (out\<lparr>uo_err := Some e, uo_written := [writeErrorResponse txID e]\<rparr>)
      | Inr req \<Rightarrow>
          bind_go (Logic_HandleScrape (fe_logic f) (InjectRouteParamsToContext c (Some [])) req s) (\<lambda>(res, s').
            case res of
              Inl e \<Rightarrow> Ret (out\<lparr>uo_err := Some e, uo_state := s',
                               uo_written := (if e \<noteq> Canceled then [writeErrorResponse txID e] else [])\<rparr>)
            | Inr (c', req', resp) \<Rightarrow>
                if ctx_Err c' = None
                then Ret (out\<lparr>uo_state := s', uo_written := [writeScrapeResponse txID resp],
                              uo_after := Some (AfterScrapeWork (RemapRouteParamsToBgContext c') req' resp)\<rparr>)
                else Ret (out\<lparr>uo_err := ctx_Err c', uo_state := s'\<rparr>)))"

text \<open>\<open>now\<close> is the cached clock in seconds, \<open>seed\<close> the random seed of a new connection ID.\<close>

definition handleRequest ::
  "'s udpFE \<Rightarrow> (bytes \<Rightarrow> bytes) \<Rightarrow> ((addr \<times> bool) list \<Rightarrow> (addr \<times> bool) list) \<Rightarrow> u64 \<Rightarrow> int \<Rightarrow> ctx \<Rightarrow>
   UdpRequest \<Rightarrow> 's \<Rightarrow> 's udp_outcome go" where
  "handleRequest f uni ord seed now c r s =
     (let p = ureq_Packet r;
          out = \<lparr>uo_action = [], uo_err = None, uo_written = [], uo_after = None, uo_state = s\<rparr> in
      if length p < 16 then Ret (out\<lparr>uo_err := Some errMalformedPacket\<rparr>)
      else
        let connID = bslice 0 8 p; actionID = be_word (bslice 8 12 p) :: u32; txID = bslice 12 16 p in
        if actionID \<noteq> connectActionID \<and> \<not> Validate (fe_mac f) (fe_key f) (fe_skew f) connID (ureq_IP r) now
        then Ret (out\<lparr>uo_err := Some errBadConnectionID, uo_written := [writeErrorResponse txID errBadConnectionID]\<rparr>)
        else if actionID = connectActionID
        then if connID \<noteq> initialConnectionID
             then Ret (out\<lparr>uo_action := ''connect'', uo_err := Some errMalformedPacket\<rparr>)
             else Ret (out\<lparr>uo_action := ''connect'',
                    uo_written := [writeConnectionID txID (Generate (fe_mac f) (fe_key f) seed (ureq_IP r) now)]\<rparr>)
        else if actionID = announceActionID \<or> actionID = announceV6ActionID
        then handle_announce f uni ord c r txID (actionID = announceV6ActionID) s
        else if actionID = scrapeActionID then handle_scrape f ord c r txID s
        else Ret (out\<lparr>uo_err := Some errUnknownAction, uo_written := [writeErrorResponse txID errUnknownAction]\<rparr>))"

subsection \<open>Starting and closing\<close>

text \<open>
  \<open>NewFrontend\<close> opens one socket per worker; the error it ends with is that of the last
  attempt, whatever came before. A socket that could not be opened stays nil. The arguments
  are the outcome of reading the configuration, the random bytes for a missing key, and what
  \<open>ListenUDP\<close> returns at each attempt.
\<close>

record 'c udp_sockets =
  us_sockets :: "'c option list"
  us_closed :: bool

fun open_sockets :: "(goerror + 'c) list \<Rightarrow> 'c option list \<Rightarrow> err \<Rightarrow> 'c option list \<times> err" where
  "open_sockets [] socks e = (socks, e)"
| "open_sockets (Inr c # rs) socks e = open_sockets rs (socks @ [Some c]) None"
| "open_sockets (Inl x # rs) socks e = open_sockets rs (socks @ [None]) (Some x)"

text \<open>
  The sockets that are not nil are closed as a group, once; \<open>cls\<close> is what closing a socket
  returns. The outer option of the result is that of \<open>CloseGroup\<close>, which may not return.
\<close>

definition udp_Close :: "('c \<Rightarrow> err) \<Rightarrow> 'c udp_sockets \<Rightarrow> err option \<times> 'c udp_sockets" where
  "udp_Close cls u =
     (if us_closed u then (Some None, u)
      else (CloseGroup (map (\<lambda>s. Some (cls s)) [s. Some s \<leftarrow> us_sockets u]), u\<lparr>us_closed := True\<rparr>))"

definition udp_NewFrontend ::
  "('c \<Rightarrow> err) \<Rightarrow> goerror + UdpConfig \<Rightarrow> bytes \<Rightarrow> mac \<Rightarrow> 's Logic \<Rightarrow> (nat \<Rightarrow> goerror + 'c) \<Rightarrow>
   goerror + ('s udpFE \<times> 'c udp_sockets \<times> err)" where
  "udp_NewFrontend cls c rnd mac logic listen =
     (case c of Inl e \<Rightarrow> Inl e
      | Inr cfg0 \<Rightarrow>
          let cfg = UdpConfig_Validate rnd cfg0;
              f = \<lparr>fe_logic = logic, fe_options = uc_Parse cfg, fe_mac = mac, fe_key = uc_PrivateKey cfg,
                   fe_skew = uc_MaxClockSkew cfg\<rparr>;
              (socks, err) = open_sockets (map listen [0..<lo_Workers (uc_Listen cfg)]) [] None;
              u = \<lparr>us_sockets = socks, us_closed = False\<rparr>
          in Inr (f, if err \<noteq> None then snd (udp_Close cls u) else u, err))"

end
