(* ===== verification/UdpProps.thy ===== *)
theory UdpProps
  imports UdpFrontend
begin

unbundle bit_operations_syntax

section \<open>Properties of the UDP frontend\<close>

text \<open>
  What a packet can do without a valid connection ID, that connecting leads to one, what a
  client reads from a response, the configuration, the sockets, the receive loop, and a
  complete announce over any storage that keeps its contract.
\<close>

subsection \<open>Properties: what a packet can do\<close>

definition udp_authorized :: "'s udpFE \<Rightarrow> int \<Rightarrow> UdpRequest \<Rightarrow> bool" where
  "udp_authorized f now r \<longleftrightarrow> 16 \<le> length (ureq_Packet r) \<and>
     (be_word (bslice 8 12 (ureq_Packet r)) :: u32) \<noteq> connectActionID \<and>
     Validate (fe_mac f) (fe_key f) (fe_skew f) (bslice 0 8 (ureq_Packet r)) (ureq_IP r) now"

definition is_connect :: "UdpRequest \<Rightarrow> bool" where
  "is_connect r \<longleftrightarrow> 16 \<le> length (ureq_Packet r) \<and>
     (be_word (bslice 8 12 (ureq_Packet r)) :: u32) = connectActionID \<and>
     bslice 0 8 (ureq_Packet r) = initialConnectionID"

text \<open>
  C23: A packet without a valid connection ID has no effect but at most one short reply: the
  storage is untouched, nothing is scheduled for later, and what is written back is at most
  26 bytes. Packets under 16 bytes and connection requests without the magic number get no
  reply at all; a correct connection request gets 16 bytes, no more than it sent.
\<close>

theorem udp_unauthorized_harmless:
  assumes "\<not> udp_authorized f now r" and "mac_ok (fe_mac f)"
  shows "\<exists>out. handleRequest f uni ord seed now c r s = Ret out \<and> uo_state out = s \<and> uo_after out = None \<and>
     length (uo_written out) \<le> 1 \<and> list_all (\<lambda>w. length w \<le> 26) (uo_written out) \<and>
     (length (ureq_Packet r) < 16 \<longrightarrow> uo_written out = []) \<and>
     (be_word (bslice 8 12 (ureq_Packet r)) = (0 :: u32) \<and> \<not> is_connect r \<longrightarrow> uo_written out = []) \<and>
     (is_connect r \<longrightarrow> (\<exists>w. uo_written out = [w] \<and> length w = 16 \<and> uo_err out = None))"
proof -
  have l: "length (writeErrorResponse tx errBadConnectionID) = 22 + length tx" for tx
    by (simp add: writeErrorResponse_def writeHeader_def errBadConnectionID_def)
  have g: "length (Generate (fe_mac f) (fe_key f) seed (ureq_IP r) now) = 8"
    using length_Generate [OF assms(2)] by (simp add: connIDLen_def)
  show ?thesis
    using assms(1) g
    by (auto simp: handleRequest_def Let_def udp_authorized_def is_connect_def l bslice_def writeConnectionID_def
        writeHeader_def connectActionID_def)
qed

text \<open>
  C24: Connecting works: a correct connection request is answered with the connect action,
  the client's transaction ID and a connection ID, and every packet with this ID from the
  same address is let through in the same window of 65536 seconds.
\<close>

theorem udp_connect_then_authorized:
  assumes "is_connect r" and "mac_ok (fe_mac f)" and "0 < fe_skew f" and "fe_skew f \<le> 30 * second"
    and "0 \<le> t" and "t \<le> now" and "now < 2 ^ 62" and "now div 65536 = t div 65536"
  shows "\<exists>out cid. handleRequest f uni ord seed t c r s = Ret out \<and>
     uo_written out = [be_bytes 4 connectActionID @ bslice 12 16 (ureq_Packet r) @ cid] \<and> length cid = 8 \<and>
     (\<forall>r'. ureq_IP r' = ureq_IP r \<longrightarrow> 16 \<le> length (ureq_Packet r') \<longrightarrow> bslice 0 8 (ureq_Packet r') = cid \<longrightarrow>
        be_word (bslice 8 12 (ureq_Packet r')) \<noteq> connectActionID \<longrightarrow> udp_authorized f now r')"
proof -
  let ?cid = "Generate (fe_mac f) (fe_key f) seed (ureq_IP r) t"
  have v: "length ?cid = 8 \<and> Validate (fe_mac f) (fe_key f) (fe_skew f) ?cid (ureq_IP r) now"
    using Validate_Generate [OF assms(2,5,7,8) _ assms(4), of "fe_key f" seed "ureq_IP r"] assms(3,6) by simp
  have "handleRequest f uni ord seed t c r s = Ret \<lparr>uo_action = ''connect'', uo_err = None,
      uo_written = [writeConnectionID (bslice 12 16 (ureq_Packet r)) ?cid], uo_after = None, uo_state = s\<rparr>"
    using assms(1) by (simp add: handleRequest_def Let_def is_connect_def)
  then show ?thesis
    using v by (intro exI conjI) (auto simp: writeConnectionID_def writeHeader_def udp_authorized_def)
qed

lemma write_txid:
  assumes "length tx = 4"
  shows "bslice 4 8 (writeErrorResponse tx e) = tx" "bslice 4 8 (writeAnnounceResponse tx resp v6a v6p) = tx"
    "bslice 4 8 (writeScrapeResponse tx sresp) = tx" "bslice 4 8 (writeConnectionID tx cid) = tx"
  using assms by (simp_all add: writeErrorResponse_def writeAnnounceResponse_def writeScrapeResponse_def
      writeConnectionID_def writeHeader_def bslice_def)

definition replies_to :: "bytes \<Rightarrow> bytes list \<Rightarrow> bool" where
  "replies_to tx ws \<longleftrightarrow> length ws \<le> 1 \<and> list_all (\<lambda>w. bslice 4 8 w = tx) ws"

lemma replies_to_simps [simp]:
  "replies_to tx []" "replies_to tx [w] \<longleftrightarrow> bslice 4 8 w = tx"
  by (simp_all add: replies_to_def)

lemma handle_announce_written:
  assumes "length tx = 4" and h: "handle_announce f uni ord c r tx v6 s = Ret out"
  shows "replies_to tx (uo_written out)"
proof (cases "parseAnnounce uni ord r v6 (fe_options f)")
  case (Inr req)
  show ?thesis
  proof (cases "Logic_HandleAnnounce (fe_logic f) (InjectRouteParamsToContext c (Some [])) req s")
    case (Ret x)
    obtain res s' where x: "x = (res, s')" by (cases x)
    show ?thesis
      using h Inr Ret x write_txid [OF assms(1)]
      by (cases res) (auto simp: handle_announce_def Let_def split: if_splits)
  qed (use h Inr in \<open>simp add: handle_announce_def Let_def\<close>)
qed (use h write_txid [OF assms(1)] in \<open>auto simp: handle_announce_def Let_def\<close>)

lemma handle_scrape_written:
  assumes "length tx = 4" and h: "handle_scrape f ord c r tx s = Ret out"
  shows "replies_to tx (uo_written out)"
proof (cases "parseScrape ord r (fe_options f)")
  case (Inr req)
  show ?thesis
  proof (cases "Logic_HandleScrape (fe_logic f) (InjectRouteParamsToContext c (Some [])) req s")
    case (Ret x)
    obtain res s' where x: "x = (res, s')" by (cases x)
    show ?thesis
      using h Inr Ret x write_txid [OF assms(1)]
      by (cases res) (auto simp: handle_scrape_def Let_def split: if_splits)
  qed (use h Inr in \<open>simp add: handle_scrape_def Let_def\<close>)
qed (use h write_txid [OF assms(1)] in \<open>auto simp: handle_scrape_def Let_def\<close>)

text \<open>
  Every reply carries the transaction ID of the packet it answers, and there is at most
  one reply.
\<close>

theorem udp_reply_txid:
  assumes "handleRequest f uni ord seed now c r s = Ret out"
  shows "length (uo_written out) \<le> 1 \<and>
         list_all (\<lambda>w. bslice 4 8 w = bslice 12 16 (ureq_Packet r)) (uo_written out)"
proof (cases "length (ureq_Packet r) < 16")
  case True
  then show ?thesis using assms by (auto simp: handleRequest_def Let_def)
next
  case False
  let ?tx = "bslice 12 16 (ureq_Packet r)"
  have tx: "length ?tx = 4" using False by (simp add: bslice_def)
  have "replies_to ?tx (uo_written out)"
    using assms False write_txid [OF tx] unfolding handleRequest_def Let_def
    by (auto split: if_splits dest!: handle_announce_written [OF tx] handle_scrape_written [OF tx])
  then show ?thesis by (simp add: replies_to_def)
qed

definition example_fe :: "peerStore udpFE" where
  "example_fe = \<lparr>fe_logic = NewLogic (1800 * second) (900 * second) (memory_storage 7 rev) [] [],
     fe_options = example_options, fe_mac = example_mac, fe_key = [1, 2, 3], fe_skew = 10 * second\<rparr>"

definition example_connect :: UdpRequest where
  "example_connect = \<lparr>ureq_Packet = initialConnectionID @ [0, 0, 0, 0] @ [9, 8, 7, 6], ureq_IP = AddrV4 7\<rparr>"

lemma example_is_connect: "is_connect example_connect"
  by (simp add: is_connect_def example_connect_def initialConnectionID_def bslice_def be_word_def connectActionID_def)

lemma example_fe_simps: "fe_mac example_fe = example_mac" "fe_skew example_fe = 10 * second"
  by (simp_all add: example_fe_def)

theorem udp_unauthorized_harmless_witness:
  "\<exists>out. handleRequest example_fe (\<lambda>s. s) rev 42 1000 Background \<lparr>ureq_Packet = [1, 2], ureq_IP = AddrV4 7\<rparr>
     (NewPeerStorage 1) = Ret out \<and> uo_written out = []"
  using udp_unauthorized_harmless [of example_fe 1000 "\<lparr>ureq_Packet = [1, 2], ureq_IP = AddrV4 7\<rparr>"
      "\<lambda>s. s" rev 42 Background "NewPeerStorage 1"]
  by (auto simp: udp_authorized_def example_fe_simps example_mac_ok)

theorem udp_connect_then_authorized_witness:
  "\<exists>out cid. handleRequest example_fe (\<lambda>s. s) rev 42 1000 Background example_connect (NewPeerStorage 1) = Ret out \<and>
     uo_written out = [be_bytes 4 connectActionID @ [9, 8, 7, 6] @ cid] \<and>
     udp_authorized example_fe 1100 \<lparr>ureq_Packet = cid @ [0, 0, 0, 1] @ [9, 8, 7, 6], ureq_IP = AddrV4 7\<rparr>"
proof -
  obtain out cid where o: "handleRequest example_fe (\<lambda>s. s) rev 42 1000 Background example_connect (NewPeerStorage 1) = Ret out"
    "uo_written out = [be_bytes 4 connectActionID @ bslice 12 16 (ureq_Packet example_connect) @ cid]" "length cid = 8"
    "\<forall>r'. ureq_IP r' = ureq_IP example_connect \<longrightarrow> 16 \<le> length (ureq_Packet r') \<longrightarrow>
        bslice 0 8 (ureq_Packet r') = cid \<longrightarrow>
        be_word (bslice 8 12 (ureq_Packet r')) \<noteq> connectActionID \<longrightarrow> udp_authorized example_fe 1100 r'"
    using udp_connect_then_authorized [OF example_is_connect, of example_fe 1000 1100 "\<lambda>s. s" rev 42 Background "NewPeerStorage 1"]
    by (auto simp: example_fe_simps example_mac_ok second_def)
  have tx: "bslice 12 16 (ureq_Packet example_connect) = [9, 8, 7, 6]"
    by (simp add: example_connect_def initialConnectionID_def bslice_def)
  have "udp_authorized example_fe 1100 \<lparr>ureq_Packet = cid @ [0, 0, 0, 1] @ [9, 8, 7, 6], ureq_IP = AddrV4 7\<rparr>"
    using o(3,4) by (simp add: example_connect_def bslice_def be_word_def connectActionID_def)
  then show ?thesis using o(1,2) tx by auto
qed

theorem udp_reply_txid_witness:
  "\<exists>out. handleRequest example_fe (\<lambda>s. s) rev 42 1000 Background example_connect (NewPeerStorage 1) = Ret out \<and>
     list_all (\<lambda>w. bslice 4 8 w = [9, 8, 7, 6]) (uo_written out)"
proof -
  have "\<not> udp_authorized example_fe 1000 example_connect"
    using example_is_connect by (simp add: udp_authorized_def is_connect_def)
  then obtain out where "handleRequest example_fe (\<lambda>s. s) rev 42 1000 Background example_connect (NewPeerStorage 1) = Ret out"
    using example_is_connect by (auto simp: handleRequest_def Let_def is_connect_def)
  moreover have tx: "bslice 12 16 (ureq_Packet example_connect) = [9, 8, 7, 6]"
    by (simp add: example_connect_def initialConnectionID_def bslice_def)
  ultimately show ?thesis using udp_reply_txid [of example_fe "\<lambda>s. s" rev 42 1000 Background example_connect] by auto
qed

subsection \<open>Properties: what a client reads\<close>

text \<open>A client's view of the peers in a response: addresses of \<open>n\<close> bytes, each with a port.\<close>

function decode_peers :: "nat \<Rightarrow> bytes \<Rightarrow> (addr \<times> u16) list option" where
  "decode_peers n bs =
     (if bs = [] then Some []
      else if length bs < n + 2 then None
      else case AddrFromSlice (take n bs) of None \<Rightarrow> None
           | Some a \<Rightarrow>
               (case decode_peers n (drop (n + 2) bs) of None \<Rightarrow> None
                | Some ps \<Rightarrow> Some ((a, be_word (take 2 (drop n bs))) # ps)))"
  by auto
termination by (relation "measure (\<lambda>(n, bs). length bs)") auto

declare decode_peers.simps [simp del]

lemma length_write_peer: "length (write_peer p) = BitLen (Peer_Addr p) div 8 + 2"
  by (simp add: write_peer_def)

lemma decode_peers_write:
  assumes "list_all (\<lambda>p. BitLen (Peer_Addr p) = 8 * n \<and> zone (Peer_Addr p) = []) ps" and "0 < n"
  shows "decode_peers n (concat (map write_peer ps)) = Some (map (\<lambda>p. (Peer_Addr p, Peer_Port p)) ps)"
  using assms(1)
proof (induction ps)
  case Nil
  then show ?case by (simp add: decode_peers.simps)
next
  case (Cons p ps)
  then have len: "BitLen (Peer_Addr p) = 8 * n" "zone (Peer_Addr p) = []" by simp_all
  then have "addr_IsValid (Peer_Addr p)" using assms(2) by (cases "Peer_Addr p") auto
  then have a: "AddrFromSlice (AsSlice (Peer_Addr p)) = Some (Peer_Addr p)"
    using len by (simp add: AddrFromSlice_AsSlice)
  have l: "length (AsSlice (Peer_Addr p)) = n" using len by simp
  define bs where "bs = concat (map write_peer (p # ps))"
  have bs: "bs = AsSlice (Peer_Addr p) @ be_bytes 2 (Peer_Port p) @ concat (map write_peer ps)"
    by (simp add: bs_def write_peer_def)
  then have ge: "n + 2 \<le> length bs" using l by simp
  then have ne: "bs \<noteq> []" by auto
  have parts: "take n bs = AsSlice (Peer_Addr p)" "drop (n + 2) bs = concat (map write_peer ps)"
    "be_word (take 2 (drop n bs)) = Peer_Port p"
    using l by (simp_all add: bs be_word_be_bytes_full)
  have "decode_peers n bs = (case decode_peers n (concat (map write_peer ps)) of None \<Rightarrow> None
       | Some xs \<Rightarrow> Some ((Peer_Addr p, Peer_Port p) # xs))"
    unfolding decode_peers.simps [of n bs] parts a using ge ne by simp
  then have "decode_peers n (concat (map write_peer (p # ps))) = (case decode_peers n (concat (map write_peer ps)) of
      None \<Rightarrow> None | Some xs \<Rightarrow> Some ((Peer_Addr p, Peer_Port p) # xs))" by (simp only: bs_def)
  then show ?case using Cons by simp
qed

text \<open>
  C27: What a client reads from an announce response: the action of the packet format, its
  transaction ID, the interval in whole seconds (for intervals a \<open>uint32\<close> can hold), the
  numbers of leechers and seeders, and exactly the peers of its address family, each with
  its port.
\<close>

theorem writeAnnounceResponse_roundtrip:
  fixes resp txID v6Action v6Peers
  defines "w \<equiv> writeAnnounceResponse txID resp v6Action v6Peers"
    and "ps \<equiv> (if v6Peers then aresp_IPv6Peers resp else aresp_IPv4Peers resp)"
  assumes "length txID = 4" and "0 \<le> aresp_Interval resp" and "aresp_Interval resp < 2 ^ 32 * second"
    and "list_all (\<lambda>p. (if v6Peers then Is6 (Peer_Addr p) else Is4 (Peer_Addr p)) \<and> zone (Peer_Addr p) = []) ps"
  shows "be_word (bslice 0 4 w) = (if v6Action then 4 else 1 :: u32) \<and> bslice 4 8 w = txID \<and>
     int (unat (be_word (bslice 8 12 w) :: u32)) = aresp_Interval resp div second \<and>
     be_word (bslice 12 16 w) = aresp_Incomplete resp \<and> be_word (bslice 16 20 w) = aresp_Complete resp \<and>
     decode_peers (if v6Peers then 16 else 4) (drop 20 w) = Some (map (\<lambda>p. (Peer_Addr p, Peer_Port p)) ps)"
proof -
  let ?i = "word_of_int (aresp_Interval resp sdiv second) :: u32"
  let ?act = "if v6Action then announceV6ActionID else announceActionID"
  let ?n = "if v6Peers then 16 else 4 :: nat"
  have w: "w = be_bytes 4 ?act @ txID @ be_bytes 4 ?i @ be_bytes 4 (aresp_Incomplete resp) @
      be_bytes 4 (aresp_Complete resp) @ concat (map write_peer ps)"
    by (simp add: w_def ps_def writeAnnounceResponse_def writeHeader_def)
  have sl: "bslice 0 4 w = be_bytes 4 ?act" "bslice 4 8 w = txID" "bslice 8 12 w = be_bytes 4 ?i"
    "bslice 12 16 w = be_bytes 4 (aresp_Incomplete resp)" "bslice 16 20 w = be_bytes 4 (aresp_Complete resp)"
    "drop 20 w = concat (map write_peer ps)"
    unfolding w using assms(3) by (simp_all add: bslice_def)
  have d: "aresp_Interval resp sdiv second = aresp_Interval resp div second"
    using assms(4) by (simp add: signed_divide_int_def second_def sgn_if)
  have b: "0 \<le> aresp_Interval resp div second" "aresp_Interval resp div second < 2 ^ 32"
    using assms(4,5) by (simp_all add: second_def div_less_iff_less_mult pos_imp_zdiv_nonneg_iff)
  have "int (unat ?i) = aresp_Interval resp div second"
    unfolding d using b by (simp add: uint_word_of_int take_bit_int_eq_self unsigned_of_int)
  moreover have "decode_peers ?n (concat (map write_peer ps)) = Some (map (\<lambda>p. (Peer_Addr p, Peer_Port p)) ps)"
  proof (rule decode_peers_write)
    have "BitLen a = 8 * ?n" if "if v6Peers then Is6 a else Is4 a" for a
      using that by (cases a) (auto split: if_splits)
    then show "list_all (\<lambda>p. BitLen (Peer_Addr p) = 8 * ?n \<and> zone (Peer_Addr p) = []) ps"
      using assms(6) by (auto simp: list_all_iff)
  qed simp
  ultimately show ?thesis
    unfolding sl by (auto simp: be_word_be_bytes_full announceV6ActionID_def announceActionID_def)
qed

theorem writeAnnounceResponse_roundtrip_witness:
  "decode_peers 4 (drop 20 (writeAnnounceResponse [1, 2, 3, 4]
     ((start_response (1800 * second) 0)\<lparr>aresp_IPv4Peers := [example_peer]\<rparr>) False False)) =
     Some [(AddrV4 0x01020304, 6881)]"
  using writeAnnounceResponse_roundtrip [of "[1, 2, 3, 4]"
      "(start_response (1800 * second) 0)\<lparr>aresp_IPv4Peers := [example_peer]\<rparr>" False False]
  by (simp add: start_response_def second_def example_peer_def Peer_Addr_def Peer_Port_def)

subsection \<open>Properties: configuration and sockets\<close>

lemma abs_skew_eq:
  assumes "- (2 ^ 63) < x" and "x < 2 ^ 63"
  shows "abs_skew x = \<bar>x\<bar>"
proof (cases "0 \<le> x")
  case True
  then have "drop_bit 63 x = 0" using assms by (simp add: drop_bit_eq_div)
  then show ?thesis using True assms by (simp add: abs_skew_def wrap64_id)
next
  case False
  then have "x div 2 ^ 63 = - 1" using assms by (simp add: div_pos_neg_trivial) 
  then have sb: "drop_bit 63 x = - 1" by (simp add: drop_bit_eq_div)
  have "x XOR - 1 = - x - 1" by (simp add: not_int_def [symmetric])
  then show ?thesis using False assms sb by (simp add: abs_skew_def wrap64_id)
qed

lemma abs_skew_min: "abs_skew (- (2 ^ 63)) = - (2 ^ 63)"
  by (simp add: abs_skew_def drop_bit_eq_div wrap64_def)

lemma UdpConfig_Validate_parse: "parse_options_ok (uc_Parse (UdpConfig_Validate rnd cfg))"
  by (simp add: UdpConfig_Validate_def Let_def ParseOptions_Validate_ok)

lemma UdpConfig_Validate_key:
  "defaultKeyLen \<le> length rnd \<Longrightarrow> uc_PrivateKey (UdpConfig_Validate rnd cfg) \<noteq> []"
  unfolding UdpConfig_Validate_def Let_def defaultKeyLen_def by auto

lemma UdpConfig_Validate_listen:
  "1 \<le> lo_Workers (uc_Listen (UdpConfig_Validate rnd cfg)) \<and>
   (1 < lo_Workers (uc_Listen (UdpConfig_Validate rnd cfg)) \<longrightarrow> lo_ReusePort (uc_Listen (UdpConfig_Validate rnd cfg))) \<and>
   lo_Addr (uc_Listen (UdpConfig_Validate rnd cfg)) \<noteq> []"
  unfolding UdpConfig_Validate_def Let_def ListenOptions_Validate_def DefaultListenAddress_def by auto

text \<open>
  The validated configuration of the UDP frontend has at least one worker, reuses the
  port when there are more, has a private key, positive parse limits, and a clock skew
  between one nanosecond and thirty seconds: the absolute value of the configured one where
  that is allowed. The one exception is the smallest \<open>int64\<close>, whose absolute value does not
  exist: it is kept and the skew is negative.
\<close>

theorem UdpConfig_Validate_correct:
  fixes rnd cfg
  defines "v \<equiv> UdpConfig_Validate rnd cfg" and "x \<equiv> uc_MaxClockSkew cfg"
  assumes "- (2 ^ 63) \<le> x" and "x < 2 ^ 63" and "defaultKeyLen \<le> length rnd"
  shows "1 \<le> lo_Workers (uc_Listen v) \<and> (1 < lo_Workers (uc_Listen v) \<longrightarrow> lo_ReusePort (uc_Listen v)) \<and>
     lo_Addr (uc_Listen v) \<noteq> [] \<and> uc_PrivateKey v \<noteq> [] \<and> parse_options_ok (uc_Parse v) \<and>
     uc_MaxClockSkew v = (if x = - (2 ^ 63) then x
       else if x \<noteq> 0 \<and> \<bar>x\<bar> \<le> maxAllowedClockSkew then \<bar>x\<bar> else defaultMaxClockSkew)"
proof -
  have sk: "uc_MaxClockSkew v = (if x = - (2 ^ 63) then x
       else if x \<noteq> 0 \<and> \<bar>x\<bar> \<le> maxAllowedClockSkew then \<bar>x\<bar> else defaultMaxClockSkew)"
  proof (cases "x = - (2 ^ 63)")
    case True
    then have "uc_MaxClockSkew v = - (2 ^ 63)"
      using abs_skew_min unfolding v_def UdpConfig_Validate_def Let_def
      by (simp add: x_def maxAllowedClockSkew_def second_def)
    then show ?thesis using True by simp
  next
    case False
    then have "abs_skew x = \<bar>x\<bar>" using assms(3,4) by (intro abs_skew_eq) simp_all
    then show ?thesis using False unfolding v_def UdpConfig_Validate_def Let_def x_def by auto
  qed
  show ?thesis
    using sk UdpConfig_Validate_key [OF assms(5), of cfg] UdpConfig_Validate_parse [of rnd cfg]
      UdpConfig_Validate_listen [of rnd cfg] unfolding v_def by blast
qed

definition example_udp_config :: UdpConfig where
  "example_udp_config = \<lparr>uc_Listen = \<lparr>lo_Addr = [], lo_ReusePort = False, lo_Workers = 0, lo_EnableRequestTiming = False\<rparr>,
     uc_PrivateKey = [], uc_MaxClockSkew = - (2 ^ 63), uc_Parse = example_options\<rparr>"

theorem UdpConfig_Validate_correct_witness:
  "uc_MaxClockSkew (UdpConfig_Validate (replicate 32 0) example_udp_config) = - (2 ^ 63) \<and>
   uc_PrivateKey (UdpConfig_Validate (replicate 32 0) example_udp_config) \<noteq> []"
  using UdpConfig_Validate_correct [of example_udp_config "replicate 32 0"]
  by (simp add: example_udp_config_def defaultKeyLen_def)

lemma open_sockets_eq:
  "open_sockets rs socks e =
     (socks @ map (\<lambda>r. case r of Inl x \<Rightarrow> None | Inr c \<Rightarrow> Some c) rs,
      if rs = [] then e else case last rs of Inl x \<Rightarrow> Some x | Inr _ \<Rightarrow> None)"
  by (induction rs socks e rule: open_sockets.induct) auto

lemma udp_NewFrontend_eq:
  fixes rnd cfg
  defines "v \<equiv> UdpConfig_Validate rnd cfg"
  shows "udp_NewFrontend cls (Inr cfg) rnd mac logic listen =
    (let e = (case listen (lo_Workers (uc_Listen v) - 1) of Inl x \<Rightarrow> Some x | Inr _ \<Rightarrow> None)
     in Inr (\<lparr>fe_logic = logic, fe_options = uc_Parse v, fe_mac = mac, fe_key = uc_PrivateKey v,
              fe_skew = uc_MaxClockSkew v\<rparr>,
             \<lparr>us_sockets = map (\<lambda>i. case listen i of Inl x \<Rightarrow> None | Inr c \<Rightarrow> Some c) [0..<lo_Workers (uc_Listen v)],
              us_closed = (e \<noteq> None)\<rparr>, e))"
proof -
  have n: "0 < lo_Workers (uc_Listen v)" unfolding v_def using UdpConfig_Validate_listen [of rnd cfg] by simp
  then have "last (map listen [0..<lo_Workers (uc_Listen v)]) = listen (lo_Workers (uc_Listen v) - 1)"
    by (simp add: last_map)
  then show ?thesis
    using n unfolding v_def
    by (simp add: udp_NewFrontend_def Let_def open_sockets_eq udp_Close_def comp_def)
qed

text \<open>
  Starting the UDP frontend tries one socket per worker and keeps those that could be
  opened, but fails only if the last attempt failed: it then closes the others and returns
  that error. A worker whose socket failed before goes unnoticed, and the frontend runs with
  fewer of them. What runs has a key and positive limits. Closing it afterwards always
  returns, with an error exactly when closing one of the open sockets fails.
\<close>

theorem udp_NewFrontend_correct:
  fixes rnd cfg
  defines "n \<equiv> lo_Workers (uc_Listen (UdpConfig_Validate rnd cfg))"
  assumes "udp_NewFrontend cls (Inr cfg) rnd mac logic listen = Inr (f, u, e)"
    and "defaultKeyLen \<le> length rnd"
  shows "0 < n \<and> us_sockets u = map (\<lambda>i. case listen i of Inl x \<Rightarrow> None | Inr c \<Rightarrow> Some c) [0..<n] \<and>
     (e = None \<longleftrightarrow> (\<exists>c. listen (n - 1) = Inr c)) \<and> (us_closed u \<longleftrightarrow> e \<noteq> None) \<and>
     fe_key f \<noteq> [] \<and> parse_options_ok (fe_options f) \<and>
     (e = None \<longrightarrow> (\<exists>r. fst (udp_Close cls u) = Some r \<and>
        (r = None \<longleftrightarrow> (\<forall>i < n. case listen i of Inl x \<Rightarrow> True | Inr c \<Rightarrow> cls c = None))))"
proof -
  have n: "0 < n" unfolding n_def using UdpConfig_Validate_listen [of rnd cfg] by simp
  have u: "us_sockets u = map (\<lambda>i. case listen i of Inl x \<Rightarrow> None | Inr c \<Rightarrow> Some c) [0..<n]"
    and e: "e = (case listen (n - 1) of Inl x \<Rightarrow> Some x | Inr _ \<Rightarrow> None)"
    and cl: "us_closed u \<longleftrightarrow> e \<noteq> None"
    and f: "fe_key f = uc_PrivateKey (UdpConfig_Validate rnd cfg)" "fe_options f = uc_Parse (UdpConfig_Validate rnd cfg)"
    using assms(2) by (simp_all add: udp_NewFrontend_eq Let_def n_def [symmetric]) auto
  have open_set: "set [s. Some s \<leftarrow> us_sockets u] = {c. \<exists>i < n. listen i = Inr c}"
    unfolding u by (auto split: sum.splits)
  have close: "CloseGroup (map (\<lambda>s. Some (cls s)) xs) = Some r \<longrightarrow> (r = None \<longleftrightarrow> (\<forall>c \<in> set xs. cls c = None))"
    "CloseGroup (map (\<lambda>s. Some (cls s)) xs) \<noteq> None" for xs r
    using CloseGroup_result [of "map (\<lambda>s. Some (cls s)) xs"] by (simp_all add: image_subset_iff) auto
  have "e = None \<longrightarrow> (\<exists>r. fst (udp_Close cls u) = Some r \<and>
      (r = None \<longleftrightarrow> (\<forall>i < n. case listen i of Inl x \<Rightarrow> True | Inr c \<Rightarrow> cls c = None)))"
  proof
    assume "e = None"
    then have g: "fst (udp_Close cls u) = CloseGroup (map (\<lambda>s. Some (cls s)) [s. Some s \<leftarrow> us_sockets u])"
      using cl by (simp add: udp_Close_def)
    then obtain r where r: "fst (udp_Close cls u) = Some r" using close(2) by (metis not_Some_eq)
    have "(\<forall>c \<in> set [s. Some s \<leftarrow> us_sockets u]. cls c = None) \<longleftrightarrow>
        (\<forall>i < n. case listen i of Inl x \<Rightarrow> True | Inr c \<Rightarrow> cls c = None)"
      unfolding open_set by (auto split: sum.splits)
    then show "\<exists>r. fst (udp_Close cls u) = Some r \<and>
      (r = None \<longleftrightarrow> (\<forall>i < n. case listen i of Inl x \<Rightarrow> True | Inr c \<Rightarrow> cls c = None))"
      using close(1) r unfolding g by blast
  qed
  then show ?thesis
    using n u e cl f UdpConfig_Validate_key [OF assms(3)] UdpConfig_Validate_parse by (auto split: sum.splits)
qed

theorem udp_NewFrontend_correct_witness:
  "\<exists>f u. udp_NewFrontend (\<lambda>c. None) (Inr (example_udp_config\<lparr>uc_Listen := (uc_Listen example_udp_config)\<lparr>lo_Workers := 2\<rparr>\<rparr>))
       (replicate 32 0) example_mac (fe_logic example_fe)
       (\<lambda>i. if i = 0 then Inl (OtherError ''in use'') else Inr i) = Inr (f, u, None) \<and>
     us_sockets u = [None, Some 1] \<and> \<not> us_closed u"
proof -
  let ?cfg = "example_udp_config\<lparr>uc_Listen := (uc_Listen example_udp_config)\<lparr>lo_Workers := 2\<rparr>\<rparr>"
  let ?l = "\<lambda>i :: nat. if i = 0 then Inl (OtherError ''in use'') else Inr i"
  have n: "lo_Workers (uc_Listen (UdpConfig_Validate (replicate 32 0) ?cfg)) = 2"
    by (simp add: UdpConfig_Validate_def Let_def ListenOptions_Validate_def example_udp_config_def)
  obtain f u e where r: "udp_NewFrontend (\<lambda>c. None) (Inr ?cfg) (replicate 32 0) example_mac (fe_logic example_fe) ?l =
      Inr (f, u, e)"
    unfolding udp_NewFrontend_eq Let_def by blast
  show ?thesis
    using udp_NewFrontend_correct [OF r] n r
    by (auto simp: defaultKeyLen_def upt_rec)
qed

definition live_events :: "udp_event list \<Rightarrow> udp_event list" where
  "live_events es = takeWhile (\<lambda>e. case e of Closing \<Rightarrow> False | ReadError x t \<Rightarrow> t | Received p a \<Rightarrow> True) es"

text \<open>
  The receive loop hands every packet that is not empty to a handler, once and in order,
  with the source address taken out of an IPv4-mapped form, until it is closed or a read
  fails; a read that times out does not end it.
\<close>

theorem serve_correct:
  "fst (serve es) = [\<lparr>ureq_Packet = p, ureq_IP = Unmap (ap_addr a)\<rparr>. Received p a \<leftarrow> live_events es, p \<noteq> []] \<and>
   (snd (serve es) = None \<longleftrightarrow> live_events es = es)"
  by (induction es rule: serve.induct) (auto simp: live_events_def case_prod_unfold Let_def)

subsection \<open>Properties: an announce over UDP\<close>

text \<open>
  C5: A complete announce over UDP, with the tracker's own hooks over any storage that keeps
  its contract: a packet with a valid connection ID that parses is answered with exactly one
  packet, the encoding of a response whose counts and peers are right for the swarm; the
  storage is not touched before the answer is out, and the update of the swarm is left to
  the work after it.
\<close>

theorem udp_announce_served:
  assumes "peer_storage st I sds lcs pok" and "I s" and "fe_logic f = NewLogic ai mi st [] []"
    and "udp_authorized f now r" and "be_word (bslice 8 12 (ureq_Packet r)) = announceActionID"
    and "parseAnnounce uni ord r False (fe_options f) = Inr req" and "is_infohash (areq_InfoHash req)"
    and "\<not> ctx_SkipResponseHook c" and "ctx_Err c = None"
  shows "\<exists>resp c'. handleRequest f uni ord seed now c r s =
       Ret \<lparr>uo_action = ''announce'', uo_err = None,
            uo_written = [writeAnnounceResponse (bslice 12 16 (ureq_Packet r)) resp False (Is6 (ureq_IP r))],
            uo_after = Some (AfterAnnounceWork c' req resp), uo_state = s\<rparr> \<and>
     \<not> ctx_SkipSwarmInteraction c' \<and> good_response ai mi req (sds s) (lcs s) resp"
proof -
  let ?c = "InjectRouteParamsToContext c (Some [])"
  have c: "\<not> ctx_SkipResponseHook ?c" "ctx_Err ?c = None"
    using assms(8,9) by (simp_all add: InjectRouteParamsToContext_def)
  obtain resp where resp: "Logic_HandleAnnounce (fe_logic f) ?c req s = Ret (Inr (?c, req, resp), s)"
    "good_response ai mi req (sds s) (lcs s) resp"
    using peer_storage.logic_announce_ok [OF assms(1,2,7) c(1), of ai mi "[]"] by (auto simp: assms(3))
  have act: "announceActionID \<noteq> connectActionID" "announceActionID \<noteq> announceV6ActionID" by (simp_all add: action_defs)
  have "handleRequest f uni ord seed now c r s =
       Ret \<lparr>uo_action = ''announce'', uo_err = None,
            uo_written = [writeAnnounceResponse (bslice 12 16 (ureq_Packet r)) resp False (Is6 (ureq_IP r))],
            uo_after = Some (AfterAnnounceWork (RemapRouteParamsToBgContext ?c) req resp), uo_state = s\<rparr>"
    using assms(4-6) resp(1) c(2) act
    by (simp add: handleRequest_def Let_def udp_authorized_def handle_announce_def)
  moreover have "\<not> ctx_SkipSwarmInteraction (RemapRouteParamsToBgContext ?c)"
    by (simp add: RemapRouteParamsToBgContext_def Background_def)
  ultimately show ?thesis using resp(2) by blast
qed

definition example_announce_packet :: UdpRequest where
  "example_announce_packet = \<lparr>ureq_Packet = encode_announce
       (Generate example_mac [1, 2, 3] 42 (AddrV4 0x01020304) 1000 @ [0, 0, 0, 1] @ [9, 8, 7, 6])
       (replicate 20 1) (replicate 20 2) 10 20 30 2 [0, 0, 0, 0] 5 50 6881 [],
     ureq_IP = AddrV4 0x01020304\<rparr>"

lemma example_packet_parsed:
  "\<exists>r. parseAnnounce (\<lambda>s. s) rev example_announce_packet False example_options = Inr r \<and>
     areq_InfoHash r = replicate 20 1"
proof -
  have o: "handleOptionalParameters (\<lambda>s. s) [] = Inr []"
    by (simp add: handleOptionalParameters_def parseQuery_def parse_pairs.simps)
  have l: "length (Generate example_mac [1, 2, 3] 42 (AddrV4 0x01020304) 1000 @ [0, 0, 0, 1] @ [9, 8, 7, 6]) = 16"
    using length_Generate [OF example_mac_ok] by (simp add: connIDLen_def)
  show ?thesis
    unfolding example_announce_packet_def
    by (subst parseAnnounce_encode [OF l _ _ _ _ o])
      (simp_all add: example_options_def RequestAddresses_Add_def RequestAddress_IsValid_def IsUnspecified_def
        IsMulticast_def broadcast4_def v4_byte_def AddrFromSlice_def SanitizeAnnounce_def Sanitize_def Let_def
        usable_address_def eventIDs_def m_set_def be_word_def)
qed

lemma example_packet_authorized:
  "udp_authorized example_fe 1100 example_announce_packet"
  "be_word (bslice 8 12 (ureq_Packet example_announce_packet)) = announceActionID"
  using Validate_Generate [OF example_mac_ok, of 1000 1100 "10 * second" "[1, 2, 3]" 42 "AddrV4 0x01020304"]
  by (simp_all add: example_announce_packet_def udp_authorized_def encode_announce_def bslice_def example_fe_def
      second_def be_word_def action_defs)

theorem udp_announce_served_witness:
  "\<exists>w c' req resp. handleRequest example_fe (\<lambda>s. s) rev 42 1100 Background example_announce_packet (NewPeerStorage 1) =
     Ret \<lparr>uo_action = ''announce'', uo_err = None, uo_written = [w],
          uo_after = Some (AfterAnnounceWork c' req resp), uo_state = NewPeerStorage 1\<rparr>"
proof -
  obtain req where r: "parseAnnounce (\<lambda>s. s) rev example_announce_packet False (fe_options example_fe) = Inr req"
    "areq_InfoHash req = replicate 20 1"
    using example_packet_parsed by (auto simp: example_fe_def)
  show ?thesis
    using udp_announce_served [OF memory_peer_storage [of rev 7] _ _ example_packet_authorized r(1),
        of "NewPeerStorage 1" "1800 * second" "900 * second" Background 42] r(2)
    by (auto simp: example_fe_def example_store is_infohash_def len_defs Background_def)
qed

end
