(* ===== verification/HttpProps.thy ===== *)
theory HttpProps
  imports HttpFrontend UdpProps
begin

unbundle bit_operations_syntax

section \<open>Properties of the HTTP frontend\<close>

text \<open>
  What a client reads from the bodies, compared with the bencoding of the values they stand
  for; what parsing accepts and where addresses come from; routing and configuration; and a
  complete announce over any storage that keeps its contract.
\<close>

subsection \<open>Bodies as bencoded values\<close>

lemma au_ok: "append_uint_ok au \<Longrightarrow> 0 \<le> n \<Longrightarrow> au n = Ret (Itoa (nat n))"
  by (simp add: append_uint_ok_def)

lemma benc_int_nonneg: "0 \<le> i \<Longrightarrow> benc_int i = str ''i'' @ Itoa (nat i) @ str ''e''"
  by (simp add: benc_int_def)

text \<open>The decimal text of the lengths of the keys that occur.\<close>

lemma Itoa_small: "n < 10 \<Longrightarrow> Itoa n = [48 + of_nat n]"
  by (subst Itoa.simps) simp

lemma Itoa_10s: "Itoa 10 = str ''10''" "Itoa 12 = str ''12''" "Itoa 14 = str ''14''" "Itoa 20 = str ''20''"
  by (subst Itoa.simps, simp add: Itoa_small of_char_def)+

lemma benc_str_key: "length k = n \<Longrightarrow> benc_str k = Itoa n @ [58] @ k"
  by (simp add: benc_str_def of_char_def)

lemma benc_keys:
  "benc_str (str ''complete'') = str ''8:complete''"
  "benc_str (str ''incomplete'') = str ''10:incomplete''"
  "benc_str (str ''interval'') = str ''8:interval''"
  "benc_str (str ''min interval'') = str ''12:min interval''"
  "benc_str (str ''peers'') = str ''5:peers''"
  "benc_str (str ''peers6'') = str ''6:peers6''"
  "benc_str (str ''ip'') = str ''2:ip''"
  "benc_str (str ''peer id'') = str ''7:peer id''"
  "benc_str (str ''port'') = str ''4:port''"
  "benc_str (str ''files'') = str ''5:files''"
  "benc_str (str ''downloaded'') = str ''10:downloaded''"
  "benc_str (str ''failure reason'') = str ''14:failure reason''"
proof -
  show "benc_str (str ''failure reason'') = str ''14:failure reason''"
    by (subst benc_str_key [where n = 14]) (simp_all add: Itoa_10s)
  show "benc_str (str ''min interval'') = str ''12:min interval''"
    by (subst benc_str_key [where n = 12]) (simp_all add: Itoa_10s)
  show "benc_str (str ''incomplete'') = str ''10:incomplete''" "benc_str (str ''downloaded'') = str ''10:downloaded''"
    by (subst benc_str_key [where n = 10]; simp add: Itoa_10s)+
qed (simp_all add: benc_str_def Itoa_small of_char_def)

lemma port_bytes_be: "port_bytes p = be_bytes 2 p"
  by (simp add: port_bytes_def numeral_2_eq_2)

text \<open>
  An error is answered with a dictionary that has the failure reason and nothing else; the
  reason is the text meant for the client, and never that of an internal error.
\<close>

theorem http_error_bencoded:
  "bdecode (http_writeErrorResponse e) = Some (BDict [(str ''failure reason'', BStr (error_message e))]) \<and>
   ((\<nexists>m. e = ClientError m) \<longrightarrow> error_message e = str ''mochi internal error'')"
proof -
  have "http_writeErrorResponse e = benc (BDict [(str ''failure reason'', BStr (error_message e))])"
    by (simp add: http_writeErrorResponse_def Let_def benc_keys [simplified] benc_str_def [of "error_message e"])
  then show ?thesis by (auto simp: error_message_def split: goerror.splits simp del: benc.simps)
qed

definition compact_value :: "Peer list \<Rightarrow> bytes" where
  "compact_value ps = concat (map write_peer ps)"

lemma length_compact_value:
  "list_all (\<lambda>p. BitLen (Peer_Addr p) = 8 * n) ps \<Longrightarrow> length (compact_value ps) = (n + 2) * length ps"
  by (induction ps) (auto simp: compact_value_def write_peer_def)

lemma BitLen_family: "Is6 a \<Longrightarrow> BitLen a = 128" "Is4 a \<Longrightarrow> BitLen a = 32"
  by (cases a; simp)+

lemma compactAddresses_eq:
  assumes "append_uint_ok au" and "list_all (\<lambda>p. if v6 then Is6 (Peer_Addr p) else Is4 (Peer_Addr p)) ps"
  shows "compactAddresses au ps v6 = Ret (if ps = [] then []
     else benc_str (if v6 then str ''peers6'' else str ''peers'') @ benc_str (compact_value ps))"
proof -
  have "list_all (\<lambda>p. BitLen (Peer_Addr p) = 8 * (if v6 then 16 else 4)) ps"
    using assms(2) unfolding list_all_iff by (auto simp: BitLen_family split: if_splits)
  from length_compact_value [OF this]
  have l: "length (compact_value ps) = ((if v6 then 16 else 4) + 2) * length ps" .
  have "nat ((if v6 then 18 else 6) * int (length ps)) = length (compact_value ps)"
    using l by (simp add: nat_mult_distrib split: if_splits)
  moreover have "concat (map (\<lambda>p. AsSlice (Peer_Addr p) @ port_bytes (Peer_Port p)) ps) = compact_value ps"
    by (simp add: compact_value_def write_peer_def [abs_def] port_bytes_be)
  moreover have "benc_str (compact_value ps) = Itoa (length (compact_value ps)) @ 58 # compact_value ps"
    by (simp add: benc_str_def of_char_def)
  ultimately show ?thesis
    using au_ok [OF assms(1), of "(if v6 then 18 else 6) * int (length ps)"]
    by (auto simp: compactAddresses_def Let_def benc_keys [simplified])
qed

definition response_pairs :: "AnnounceResponse \<Rightarrow> (bytes \<times> bval) list" where
  "response_pairs resp =
     [(str ''complete'', BInt (uint (aresp_Complete resp))), (str ''incomplete'', BInt (uint (aresp_Incomplete resp))),
      (str ''interval'', BInt (aresp_Interval resp)), (str ''min interval'', BInt (aresp_MinInterval resp))] @
     (if aresp_IPv4Peers resp = [] then [] else [(str ''peers'', BStr (compact_value (aresp_IPv4Peers resp)))]) @
     (if aresp_IPv6Peers resp = [] then [] else [(str ''peers6'', BStr (compact_value (aresp_IPv6Peers resp)))])"

lemma response_pairs_sorted: "sorted_wrt (<) (map fst (response_pairs resp))"
  by (simp add: response_pairs_def of_char_def Cons_less_Cons)

lemma whole_seconds_peers [simp]:
  "aresp_IPv4Peers (whole_seconds resp) = aresp_IPv4Peers resp" "aresp_IPv6Peers (whole_seconds resp) = aresp_IPv6Peers resp"
  "aresp_Complete (whole_seconds resp) = aresp_Complete resp" "aresp_Incomplete (whole_seconds resp) = aresp_Incomplete resp"
  by (simp_all add: whole_seconds_def Let_def)

lemma sdiv_second: "0 \<le> x \<Longrightarrow> x sdiv second = x div second"
  by (simp add: signed_divide_int_def second_def sgn_if)

lemma whole_seconds_eq:
  assumes "second \<le> aresp_Interval resp" and "0 \<le> aresp_MinInterval resp"
  shows "whole_seconds resp = resp\<lparr>aresp_Interval := aresp_Interval resp div second,
     aresp_MinInterval := aresp_MinInterval resp div second\<rparr>"
proof -
  have "0 < aresp_Interval resp" using assms(1) by (simp add: second_def)
  moreover have "0 < aresp_Interval resp div second" using assms(1) by (simp add: second_def pos_imp_zdiv_pos_iff)
  ultimately show ?thesis using assms(2) by (simp add: whole_seconds_def Let_def sdiv_second)
qed

lemma compact_response_eq:
  assumes "append_uint_ok au" and "0 \<le> aresp_Interval (whole_seconds resp)" and "0 \<le> aresp_MinInterval (whole_seconds resp)"
    and "list_all (\<lambda>p. Is4 (Peer_Addr p)) (aresp_IPv4Peers resp)" and "list_all (\<lambda>p. Is6 (Peer_Addr p)) (aresp_IPv6Peers resp)"
  shows "http_writeAnnounceResponse au resp True includePeerID =
     Ret (benc (BDict (response_pairs (whole_seconds resp))), whole_seconds resp)"
proof -
  note c4 = compactAddresses_eq [OF assms(1), of False "aresp_IPv4Peers resp", simplified, OF assms(4)]
  note c6 = compactAddresses_eq [OF assms(1), of True "aresp_IPv6Peers resp", simplified, OF assms(5)]
  show ?thesis
    using assms(2,3)
    by (simp add: http_writeAnnounceResponse_def Let_def au_ok [OF assms(1)] c4 c6 response_pairs_def
        benc_int_nonneg benc_keys [simplified])
qed

text \<open>
  C29: What a client that asked for the compact form reads: for an interval of at least a
  second the body is a bencoded dictionary with its keys in ascending order, holding the
  counts, both intervals in whole seconds and, for each address family that has peers,
  exactly these peers. The response handed to the post hooks has its intervals in seconds
  too.
\<close>

theorem http_announce_bencoded:
  assumes "append_uint_ok au" and "second \<le> aresp_Interval resp" and "0 \<le> aresp_MinInterval resp"
    and "list_all (\<lambda>p. Is4 (Peer_Addr p) \<and> zone (Peer_Addr p) = []) (aresp_IPv4Peers resp)"
    and "list_all (\<lambda>p. Is6 (Peer_Addr p) \<and> zone (Peer_Addr p) = []) (aresp_IPv6Peers resp)"
  shows "\<exists>body resp' kvs. http_writeAnnounceResponse au resp True includePeerID = Ret (body, resp') \<and>
     bdecode body = Some (BDict kvs) \<and> sorted_wrt (<) (map fst kvs) \<and>
     map_of kvs (str ''complete'') = Some (BInt (uint (aresp_Complete resp))) \<and>
     map_of kvs (str ''incomplete'') = Some (BInt (uint (aresp_Incomplete resp))) \<and>
     map_of kvs (str ''interval'') = Some (BInt (aresp_Interval resp div second)) \<and>
     map_of kvs (str ''min interval'') = Some (BInt (aresp_MinInterval resp div second)) \<and>
     (case map_of kvs (str ''peers'') of None \<Rightarrow> aresp_IPv4Peers resp = []
      | Some v \<Rightarrow> \<exists>b. v = BStr b \<and>
          decode_peers 4 b = Some (map (\<lambda>p. (Peer_Addr p, Peer_Port p)) (aresp_IPv4Peers resp))) \<and>
     (case map_of kvs (str ''peers6'') of None \<Rightarrow> aresp_IPv6Peers resp = []
      | Some v \<Rightarrow> \<exists>b. v = BStr b \<and>
          decode_peers 16 b = Some (map (\<lambda>p. (Peer_Addr p, Peer_Port p)) (aresp_IPv6Peers resp)))"
proof -
  note ws = whole_seconds_eq [OF assms(2,3)]
  have nn: "0 \<le> aresp_Interval (whole_seconds resp)" "0 \<le> aresp_MinInterval (whole_seconds resp)"
    using assms(2,3) by (simp_all add: ws second_def pos_imp_zdiv_nonneg_iff)
  have fam: "list_all (\<lambda>p. Is4 (Peer_Addr p)) (aresp_IPv4Peers resp)" "list_all (\<lambda>p. Is6 (Peer_Addr p)) (aresp_IPv6Peers resp)"
    using assms(4,5) by (auto simp: list_all_iff)
  have d4: "decode_peers 4 (compact_value (aresp_IPv4Peers resp)) = Some (map (\<lambda>p. (Peer_Addr p, Peer_Port p)) (aresp_IPv4Peers resp))"
    unfolding compact_value_def using assms(4) by (intro decode_peers_write) (auto simp: list_all_iff BitLen_family)
  have d6: "decode_peers 16 (compact_value (aresp_IPv6Peers resp)) = Some (map (\<lambda>p. (Peer_Addr p, Peer_Port p)) (aresp_IPv6Peers resp))"
    unfolding compact_value_def using assms(5) by (intro decode_peers_write) (auto simp: list_all_iff BitLen_family)
  let ?kvs = "response_pairs (whole_seconds resp)"
  have kvs: "map_of ?kvs (str ''complete'') = Some (BInt (uint (aresp_Complete resp)))"
     "map_of ?kvs (str ''incomplete'') = Some (BInt (uint (aresp_Incomplete resp)))"
     "map_of ?kvs (str ''interval'') = Some (BInt (aresp_Interval resp div second))"
     "map_of ?kvs (str ''min interval'') = Some (BInt (aresp_MinInterval resp div second))"
     "map_of ?kvs (str ''peers'') = (if aresp_IPv4Peers resp = [] then None else Some (BStr (compact_value (aresp_IPv4Peers resp))))"
     "map_of ?kvs (str ''peers6'') = (if aresp_IPv6Peers resp = [] then None else Some (BStr (compact_value (aresp_IPv6Peers resp))))"
    unfolding ws response_pairs_def by (simp_all add: of_char_def)
  show ?thesis
    using compact_response_eq [OF assms(1) nn fam, of includePeerID] response_pairs_sorted [of "whole_seconds resp"]
      kvs d4 d6 bdecode_benc [of "BDict ?kvs"]
    by (intro exI [of _ "benc (BDict ?kvs)"] exI [of _ "whole_seconds resp"] exI [of _ ?kvs])
      (simp del: benc.simps bdecode_benc)
qed

text \<open>
  With an interval of less than a second, but not zero, the minimal interval is not
  converted: the test that guards it looks at the interval, which is zero by then, and a
  client reads nanoseconds.
\<close>

theorem http_min_interval_unit:
  assumes "0 < aresp_Interval resp" and "aresp_Interval resp < second"
  shows "whole_seconds resp = resp\<lparr>aresp_Interval := 0\<rparr>"
  using assms by (simp add: whole_seconds_def Let_def sdiv_second)

text \<open>
  In the other form, the entry of a peer is never the dictionary it is meant to be: the
  port is written as two raw bytes where the decimal digits of an integer belong, and no
  port has its two bytes as its decimal text.
\<close>

theorem http_dict_port_wrong:
  assumes "append_uint_ok au" and "length (peer_ID peer) = 20"
  shows "\<exists>b. dictAddress au peer inc = Ret b \<and>
     b \<noteq> benc (BDict ([(str ''ip'', BStr (Addr_String (Peer_Addr peer)))] @
       (if inc then [(str ''peer id'', BStr (peer_ID peer))] else []) @
       [(str ''port'', BInt (uint (Peer_Port peer)))]))"
proof -
  define n where "n = unat (Peer_Port peer)"
  have ne: "port_bytes (Peer_Port peer) \<noteq> Itoa n"
  proof
    assume eq: "port_bytes (Peer_Port peer) = Itoa n"
    have two: "length (Itoa n) = 2" unfolding eq [symmetric] by (simp add: port_bytes_def)
    have "n < 100"
    proof (rule ccontr)
      assume "\<not> n < 100"
      then have "Itoa n = Itoa (n div 10 div 10) @ [48 + of_nat (n div 10 mod 10), 48 + of_nat (n mod 10)]"
        by (subst Itoa.simps, subst Itoa.simps) simp
      then show False using two by simp
    qed
    then have "unat (drop_bit 8 (Peer_Port peer)) = 0"
      by (simp only: unsigned_drop_bit_eq n_def) (simp add: drop_bit_eq_div take_bit_eq_mod)
    then have "hd (Itoa n) = 0"
      unfolding eq [symmetric] by (simp add: port_bytes_def unsigned_eq_0_iff)
    moreover have "is_digit (hd (Itoa n))" using hd_Itoa [of n] by auto
    ultimately show False by (simp add: is_digit_def)
  qed
  have i: "benc_int (uint (Peer_Port peer)) = str ''i'' @ Itoa n @ str ''e''"
    by (simp add: benc_int_nonneg n_def)
  show ?thesis
    using ne assms
    by (auto simp: dictAddress_def Let_def au_ok benc_keys [simplified] i benc_str_def [of "Addr_String _"]
        benc_str_def [of "peer_ID _"] Itoa_10s of_char_def)
qed

definition scrape_pair :: "Scrape \<Rightarrow> bytes \<times> bval" where
  "scrape_pair sc = (scr_InfoHash sc, BDict [(str ''complete'', BInt (uint (scr_Complete sc))),
     (str ''downloaded'', BInt (uint (scr_Snatches sc))), (str ''incomplete'', BInt (uint (scr_Incomplete sc)))])"

lemma write_scrapes_eq:
  assumes "append_uint_ok au"
  shows "write_scrapes au ss = Ret (concat (map (\<lambda>(k, v). benc_str k @ benc v) (map scrape_pair ss)))"
proof (induction ss)
  case (Cons sc ss)
  have "write_scrape au sc = Ret (benc_str (fst (scrape_pair sc)) @ benc (snd (scrape_pair sc)))"
    by (simp add: write_scrape_def au_ok [OF assms] scrape_pair_def benc_int_nonneg benc_keys [simplified]
        benc_str_def [of "scr_InfoHash sc"] of_char_def)
  then show ?case using Cons by (simp add: case_prod_unfold)
qed simp

lemma sort_key_mset: "mset (sort_key f xs) = mset xs"
  by simp

text \<open>
  What a client reads from a scrape: a bencoded dictionary of files with one entry per
  scraped info hash, the keys in ascending order, each with its three counts.
\<close>

theorem http_scrape_bencoded:
  assumes "append_uint_ok au" and "is_order ord"
  shows "\<exists>body data. http_writeScrapeResponse ord au resp = Ret (body, resp\<lparr>sresp_Data := data\<rparr>) \<and>
     bdecode body = Some (BDict [(str ''files'', BDict (map scrape_pair data))]) \<and>
     mset data = mset (sresp_Data resp) \<and> sorted (map scr_InfoHash data)"
proof -
  define data where "data = (if length (sresp_Data resp) > 1 then sort_key scr_InfoHash (ord (sresp_Data resp))
      else sresp_Data resp)"
  have m: "mset data = mset (sresp_Data resp)" using is_order_mset [OF assms(2)] by (simp add: data_def)
  have s: "sorted (map scr_InfoHash data)"
  proof (cases "length (sresp_Data resp) > 1")
    case False
    then obtain x where "sresp_Data resp = [] \<or> sresp_Data resp = [x]"
      by (cases "sresp_Data resp") (auto simp: length_Suc_conv)
    then show ?thesis by (auto simp: data_def)
  qed (simp add: data_def)
  let ?v = "BDict [(str ''files'', BDict (map scrape_pair data))]"
  have "http_writeScrapeResponse ord au resp = Ret (benc ?v, resp\<lparr>sresp_Data := data\<rparr>)"
    unfolding http_writeScrapeResponse_def Let_def data_def [symmetric] write_scrapes_eq [OF assms(1)] benc_BDict
    by (simp add: benc_BDict benc_keys [simplified] del: benc.simps)
  then show ?thesis using m s bdecode_benc [of ?v] by (intro exI [of _ "benc ?v"] exI [of _ data]) (simp del: benc.simps)
qed

subsection \<open>Parsing\<close>

lemma http_GetUint_word:
  assumes "http_request_ok r" and "hr_GetUint r k = (n, None)"
  shows "0 \<le> n" "n < 2 ^ 63" "uint (word_of_int n :: u64) = n" "uint (word_of_int n :: u16) = n mod 65536"
proof -
  show n: "0 \<le> n" "n < 2 ^ 63" using assms by (auto simp: http_request_ok_def dest!: spec [of _ k])
  then show "uint (word_of_int n :: u64) = n" by (simp add: unsigned_of_int take_bit_int_eq_self)
  show "uint (word_of_int n :: u16) = n mod 65536" by (simp add: unsigned_of_int take_bit_eq_mod)
qed

lemma infohashes_of_ok: "list_all is_infohash (infohashes_of bs)"
  by (induction bs) (auto split: sum.splits dest: NewInfoHash_is_infohash)

lemma NewEvent_error: "NewEvent uni s = (ev, Some e) \<Longrightarrow> e = ErrUnknownEvent"
  by (auto simp: NewEvent_def Let_def split: if_splits)

lemmas http_errors = errNoInfoHash_def errMultipleInfoHashes_def http_errInvalidPeerID_def
  errInvalidParameterLeft_def errInvalidParameterDownloaded_def errInvalidParameterUploaded_def
  errInvalidParameterNumWant_def ErrInvalidPort_def ErrInvalidIP_def ErrUnknownEvent_def

definition event_texts :: "bytes set" where
  "event_texts = {[], str ''none'', str ''started'', str ''stopped'', str ''completed''}"

text \<open>The parameters of an announce that are there and have a form the parser accepts.\<close>

definition http_wellformed :: "(bytes \<Rightarrow> bytes) \<Rightarrow> HttpRequest \<Rightarrow> bool" where
  "http_wellformed uni r \<longleftrightarrow>
     (\<forall>s. hr_Peek r (str ''event'') = Some s \<longrightarrow> ToLower uni s \<in> event_texts) \<and>
     length (http_InfoHashes r) = 1 \<and> (\<exists>pid. hr_Peek r (str ''peer_id'') = Some pid \<and> length pid = 20) \<and>
     (\<forall>k \<in> {str ''left'', str ''downloaded'', str ''uploaded'', str ''port''}. snd (hr_GetUint r k) = None) \<and>
     snd (hr_GetUint r (str ''numwant'')) \<in> {None, Some ErrNoArgValue}"

lemma NewEvent_ok:
  "snd (NewEvent uni s) = None \<longleftrightarrow> ToLower uni s \<in> event_texts"
  "NewEvent uni s = (ev, None) \<Longrightarrow> ToLower uni s = Event_String ev \<or> ToLower uni s = [] \<and> ev = EvNone"
  by (auto simp: NewEvent_def event_texts_def Let_def split: if_splits)

lemma SanitizeAnnounce_refused:
  assumes "is_order ord" and "SanitizeAnnounce ord req m d fp = Inl e"
  shows "e = ErrInvalidPort \<or> e = ErrInvalidIP"
    and "rp_Port (areq_RequestPeer req) = 0 \<or> \<not> (\<exists>a\<in>set (rp_RequestAddresses (areq_RequestPeer req)). usable_address fp a)"
  using SanitizeAnnounce_result [OF assms(1), where r = req and maxNumWant = m and defaultNumWant = d and fp = fp]
  by (auto simp: assms(2))

lemma http_parseAnnounce_cases:
  assumes "http_parseAnnounce uni trim ord r opts = res"
  obtains (refused) m where "\<not> http_wellformed uni r" "res = Inl (ClientError m)"
  | (parsed) ev ih pid n d u w we p where "http_wellformed uni r" "http_InfoHashes r = [ih]" "hr_Peek r (str ''peer_id'') = Some pid"
      "(case hr_Peek r (str ''event'') of None \<Rightarrow> (EvNone, None) | Some s \<Rightarrow> NewEvent uni s) = (ev, None)"
      "hr_GetUint r (str ''left'') = (n, None)" "hr_GetUint r (str ''downloaded'') = (d, None)"
      "hr_GetUint r (str ''uploaded'') = (u, None)" "hr_GetUint r (str ''numwant'') = (w, we)"
      "hr_GetUint r (str ''port'') = (p, None)"
      "res = SanitizeAnnounce ord
            \<lparr>areq_Event = ev, areq_InfoHash = ih, areq_EventProvided = (hr_Peek r (str ''event'') \<noteq> None),
             areq_NumWantProvided = (we = None), areq_NumWant = word_of_int w,
             areq_Left = word_of_int n, areq_Downloaded = word_of_int d, areq_Uploaded = word_of_int u,
             areq_RequestPeer = \<lparr>rp_ID = pid, rp_Port = word_of_int p, rp_RequestAddresses = requestedIPs trim r opts\<rparr>,
             areq_Params = Some (http_GetString r)\<rparr>
            (po_MaxNumWant (hpo_ParseOptions opts)) (po_DefaultNumWant (hpo_ParseOptions opts))
            (po_FilterPrivateIPs (hpo_ParseOptions opts))"
proof -
  obtain ev everr where ev: "(case hr_Peek r (str ''event'') of None \<Rightarrow> (EvNone, None) | Some s \<Rightarrow> NewEvent uni s) = (ev, everr)"
    by fastforce
  have everr: "everr = None \<or> everr = Some ErrUnknownEvent"
    using ev NewEvent_error by (cases everr) (auto split: option.splits)
  have evt: "everr = None \<longleftrightarrow> (\<forall>s. hr_Peek r (str ''event'') = Some s \<longrightarrow> ToLower uni s \<in> event_texts)"
    unfolding NewEvent_ok(1) [symmetric] using ev by (auto simp del: str_Cons split: option.splits)
  obtain n e1 where g1: "hr_GetUint r (str ''left'') = (n, e1)" by fastforce
  obtain d e2 where g2: "hr_GetUint r (str ''downloaded'') = (d, e2)" by fastforce
  obtain u e3 where g3: "hr_GetUint r (str ''uploaded'') = (u, e3)" by fastforce
  obtain w e4 where g4: "hr_GetUint r (str ''numwant'') = (w, e4)" by fastforce
  obtain p e5 where g5: "hr_GetUint r (str ''port'') = (p, e5)" by fastforce
  define pid where "pid = (case hr_Peek r (str ''peer_id'') of None \<Rightarrow> [] | Some b \<Rightarrow> b)"
  note eq = assms [unfolded http_parseAnnounce_def http_GetString_def Let_def ev g1 g2 g3 g4 g5 prod.case pid_def [symmetric]]
  have wf: "http_wellformed uni r \<longleftrightarrow> everr = None \<and> length (http_InfoHashes r) = 1 \<and> length pid = 20 \<and>
      e1 = None \<and> e2 = None \<and> e3 = None \<and> e5 = None \<and> (e4 = None \<or> e4 = Some ErrNoArgValue)"
    unfolding http_wellformed_def evt pid_def by (auto simp: g1 g2 g3 g4 g5 simp del: str_Cons split: option.splits)
  show thesis
  proof (cases "http_wellformed uni r")
    case True
    then have w: "everr = None" "length (http_InfoHashes r) = 1" "length pid = 20" "e1 = None" "e2 = None" "e3 = None"
      "e5 = None" "e4 = None \<or> e4 = Some ErrNoArgValue" by (simp_all add: wf)
    obtain ih where ih: "http_InfoHashes r = [ih]" using w(2) by (auto simp: length_Suc_conv)
    have gs: "http_GetString r = hr_Peek r" by (simp add: http_GetString_def fun_eq_iff)
    have pid: "hr_Peek r (str ''peer_id'') = Some pid" using w(3) by (auto simp: pid_def simp del: str_Cons split: option.splits)
    show ?thesis
      by (rule parsed [OF True ih pid ev [unfolded w(1)] g1 [unfolded w(4)] g2 [unfolded w(5)] g3 [unfolded w(6)] g4
          g5 [unfolded w(7)]])
        (use w ih gs in \<open>auto simp: eq [symmetric] NewPeerID_def len_defs simp del: str_Cons\<close>)
  next
    case False
    have len: "length (http_InfoHashes r) = 1 \<or> length (http_InfoHashes r) < 1 \<or> 1 < length (http_InfoHashes r)" by linarith
    consider "everr = Some ErrUnknownEvent" | "everr = None" "length (http_InfoHashes r) \<noteq> 1" |
      "everr = None" "length (http_InfoHashes r) = 1" "length pid \<noteq> 20" |
      "everr = None" "length (http_InfoHashes r) = 1" "length pid = 20"
      "\<not> (e1 = None \<and> e2 = None \<and> e3 = None \<and> e5 = None \<and> (e4 = None \<or> e4 = Some ErrNoArgValue))"
      using False everr unfolding wf by blast
    then have "\<exists>m. res = Inl (ClientError m)"
    proof cases
      case 1
      then show ?thesis unfolding eq [symmetric] by (simp add: http_errors)
    next
      case 2
      then show ?thesis unfolding eq [symmetric] using len by (auto simp: http_errors)
    next
      case 3
      then show ?thesis unfolding eq [symmetric] by (simp add: NewPeerID_def len_defs http_errors)
    next
      case 4
      then show ?thesis unfolding eq [symmetric]
        by (cases "e1 = None"; cases "e2 = None"; cases "e3 = None"; cases "e4 = None \<or> e4 = Some ErrNoArgValue")
          (simp_all add: NewPeerID_def len_defs http_errors)
    qed
    then show ?thesis using refused [OF False] by blast
  qed
qed

text \<open>
  C28: Parsing an announce over HTTP. It is refused, with an error meant for the client, exactly
  when a parameter is missing or malformed, when the port modulo 65536 is zero or when no
  address is usable. What is accepted has the one info hash of the query, the given peer ID of 20
  bytes, the named event, the three byte counts exactly as given, the given port modulo 65536,
  so that numbers above 65535 are taken for other ports, the wanted number of peers modulo
  \<open>2 ^ 32\<close> and cut to the maximum, or the default when it is not given, and the usable
  addresses, each once.
\<close>

theorem http_parseAnnounce_correct:
  assumes "http_request_ok r" and "is_order ord"
  shows "case http_parseAnnounce uni trim ord r opts of
      Inl e \<Rightarrow> (\<exists>msg. e = ClientError msg) \<and>
        \<not> (http_wellformed uni r \<and> fst (hr_GetUint r (str ''port'')) mod 65536 \<noteq> 0 \<and>
           (\<exists>a \<in> set (requestedIPs trim r opts). usable_address (po_FilterPrivateIPs (hpo_ParseOptions opts)) a))
    | Inr req \<Rightarrow>
        http_wellformed uni r \<and> http_InfoHashes r = [areq_InfoHash req] \<and> is_infohash (areq_InfoHash req) \<and>
        hr_Peek r (str ''peer_id'') = Some (rp_ID (areq_RequestPeer req)) \<and>
        (case hr_Peek r (str ''event'') of None \<Rightarrow> areq_Event req = EvNone \<and> \<not> areq_EventProvided req
         | Some s \<Rightarrow> areq_EventProvided req \<and>
             (ToLower uni s = Event_String (areq_Event req) \<or> ToLower uni s = [] \<and> areq_Event req = EvNone)) \<and>
        fst (hr_GetUint r (str ''left'')) = uint (areq_Left req) \<and>
        fst (hr_GetUint r (str ''downloaded'')) = uint (areq_Downloaded req) \<and>
        fst (hr_GetUint r (str ''uploaded'')) = uint (areq_Uploaded req) \<and>
        areq_NumWantProvided req = (snd (hr_GetUint r (str ''numwant'')) = None) \<and>
        uint (areq_NumWant req) = (if areq_NumWantProvided req
           then min (fst (hr_GetUint r (str ''numwant'')) mod 2 ^ 32) (uint (po_MaxNumWant (hpo_ParseOptions opts)))
           else uint (po_DefaultNumWant (hpo_ParseOptions opts))) \<and>
        uint (rp_Port (areq_RequestPeer req)) = fst (hr_GetUint r (str ''port'')) mod 65536 \<and>
        rp_Port (areq_RequestPeer req) \<noteq> 0 \<and>
        rp_RequestAddresses (areq_RequestPeer req) \<noteq> [] \<and>
        distinct (map ra_Addr (rp_RequestAddresses (areq_RequestPeer req))) \<and>
        ra_Addr ` set (rp_RequestAddresses (areq_RequestPeer req)) =
          ra_Addr ` {a \<in> set (requestedIPs trim r opts). usable_address (po_FilterPrivateIPs (hpo_ParseOptions opts)) a}"
proof (rule http_parseAnnounce_cases [OF refl, where uni = uni and trim = trim and ord = ord and r = r and opts = opts], goal_cases)
  case (1 m)
  then show ?case by simp
next
  case (2 ev ih pid n d u w we p)
  have ih: "is_infohash ih"
    using infohashes_of_ok [of "hr_PeekMulti r (str ''info_hash'')"] 2(2) by (simp add: http_InfoHashes_def)
  note words = http_GetUint_word [OF assms(1) 2(5)] http_GetUint_word [OF assms(1) 2(6)]
    http_GetUint_word [OF assms(1) 2(7)] http_GetUint_word [OF assms(1) 2(9)]
  show ?case
  proof (cases "http_parseAnnounce uni trim ord r opts")
    case (Inl e)
    note res = SanitizeAnnounce_refused [OF assms(2) 2(10) [symmetric, unfolded Inl]]
    have "(word_of_int p :: u16) = 0 \<Longrightarrow> p mod 65536 = 0" using words(16) by auto
    then show ?thesis unfolding Inl sum.case using res 2(9) by (auto simp: http_errors)
  next
    case (Inr req)
    note fields = SanitizeAnnounce_fields [OF assms(2) 2(10) [symmetric, unfolded Inr],
        unfolded AnnounceRequest.select_convs RequestPeer.select_convs]
    have num: "uint (min (word_of_int w :: u32) m) = min (w mod 2 ^ 32) (uint m)" for m
      by (auto simp: min_def word_le_def unsigned_of_int take_bit_eq_mod)
    have ev: "case hr_Peek r (str ''event'') of None \<Rightarrow> ev = EvNone
         | Some s \<Rightarrow> ToLower uni s = Event_String ev \<or> ToLower uni s = [] \<and> ev = EvNone"
      using 2(4) NewEvent_ok(2) by (auto simp del: str_Cons split: option.splits)
    show ?thesis
      unfolding Inr sum.case
      using ev fields(9-12)
      by (cases "hr_Peek r (str ''event'')") (simp_all add: fields(1-8,13,14) 2(1-3,5-9) ih words(3,7,11,16) num del: str_Cons)
  qed
qed








subsection \<open>Routing\<close>

lemma foldl_m_set: "m_get (foldl (\<lambda>m x. m_set (f x) v m) m xs) k = (if k \<in> f ` set xs then Some v else m_get m k)"
  by (induction xs arbitrary: m) (auto simp: m_get_set)

text \<open>
  Routing. A path is served by the ping, scrape or announce handler, in this order of
  precedence, exactly when it is one of the configured routes, cleaned and made absolute; any
  other path is not found.
\<close>

theorem http_routes_correct:
  "m_get (http_routes cfg) path =
    (if path \<in> (\<lambda>r. path_Clean (abs_route r)) ` set (hc_PingRoutes cfg) then Some PingRoute
     else if path \<in> (\<lambda>r. path_Clean (abs_route r)) ` set (hc_ScrapeRoutes cfg) then Some ScrapeRoute
     else if path \<in> abs_route ` set (hc_AnnounceRoutes cfg) then Some AnnounceRoute else None)"
  by (simp add: http_routes_def Let_def foldl_m_set)

text \<open>
  An announce route that is not absolute and whose cleaned form starts with a dot is stored
  with that dot, since announce routes, unlike the others, are not cleaned again.
\<close>

lemma announce_route_dot: "abs_route [] = str ''/.'' \<and> path_Clean (abs_route []) = str ''/''"
  by (simp add: abs_route_def path_Clean_def path_IsAbs_def clean_step_def of_char_def)

text \<open>
  A validated HTTP configuration has positive timeouts, at least one announce route and
  one scrape route, positive limits, an address to listen on, and a certificate and key if it
  uses TLS; it is refused exactly when TLS is wanted without both.
\<close>

theorem HttpConfig_Validate_correct:
  "case HttpConfig_Validate cfg of
     Inl e \<Rightarrow> e = errTLSNotProvided \<and> hc_UseTLS cfg \<and> (hc_TLSCertPath cfg = [] \<or> hc_TLSKeyPath cfg = [])
   | Inr v \<Rightarrow> 0 < hc_ReadTimeout v \<and> 0 < hc_WriteTimeout v \<and> 0 < hc_IdleTimeout v \<and>
       hc_AnnounceRoutes v \<noteq> [] \<and> hc_ScrapeRoutes v \<noteq> [] \<and> lo_Addr (hc_Listen v) \<noteq> [] \<and>
       parse_options_ok (hpo_ParseOptions (hc_ParseOptions v)) \<and>
       hc_UseTLS v = hc_UseTLS cfg \<and> (hc_UseTLS v \<longrightarrow> hc_TLSCertPath v \<noteq> [] \<and> hc_TLSKeyPath v \<noteq> [])"
proof (cases "hc_UseTLS cfg \<and> (hc_TLSCertPath cfg = [] \<or> hc_TLSKeyPath cfg = [])")
  case True
  then show ?thesis by (simp add: HttpConfig_Validate_def Let_def)
next
  case False
  then show ?thesis
    unfolding HttpConfig_Validate_def Let_def
    by (auto simp: ParseOptions_Validate_ok ListenOptions_Validate_def DefaultListenAddress_def
      defaultReadTimeout_def defaultWriteTimeout_def defaultIdleTimeout_def second_def)
qed

subsection \<open>Handlers\<close>

text \<open>
  C6: A complete announce over HTTP in the compact form, over any storage that keeps its
  contract and with no configured hooks: a request to an announce route that parses is answered
  with the bencoded form of a response that is right for the swarm, in whole seconds; the
  handler leaves the status as it is. The storage is not touched before the answer, and the
  update of the swarm is left to the work after it, on a context the end of the request does not
  cancel and with the parameters dropped.
\<close>

theorem http_announce_served:
  assumes "peer_storage st I sds lcs pok" and "I s" and "hfe_logic f = NewLogic ai mi st [] []"
    and "append_uint_ok au" and "second \<le> ai" and "0 \<le> mi" and "m_get routes (hr_Path r) = Some AnnounceRoute"
    and "http_parseAnnounce uni trim ord r (hfe_options f) = Inr req" and "is_infohash (areq_InfoHash req)"
    and "hr_GetBool r (str ''compact'')" and "\<not> ctx_SkipResponseHook c"
  shows "\<exists>resp c'. http_handler f routes nf au sord uni trim ord c None r s =
      Ret \<lparr>ho_status = None, ho_body = benc (BDict (response_pairs (whole_seconds resp))), ho_err = None,
           ho_after = Some (AfterAnnounceWork c' (req\<lparr>areq_Params := None\<rparr>) (whole_seconds resp)), ho_state = s\<rparr> \<and>
     ctx_Err c' = None \<and> \<not> ctx_SkipSwarmInteraction c' \<and> good_response ai mi req (sds s) (lcs s) resp"
proof -
  let ?c = "InjectRouteParamsToContext c None"
  have c: "\<not> ctx_SkipResponseHook ?c" using assms(11) by (simp add: InjectRouteParamsToContext_def)
  obtain resp where resp: "Logic_HandleAnnounce (hfe_logic f) ?c req s = Ret (Inr (?c, req, resp), s)"
    "good_response ai mi req (sds s) (lcs s) resp"
    using peer_storage.logic_announce_ok [OF assms(1,2,9) c, of ai mi "[]"] by (auto simp: assms(3))
  have i: "second \<le> aresp_Interval resp" "0 \<le> aresp_MinInterval resp"
    using resp(2) assms(5,6) by (simp_all add: good_response_def)
  then have nn: "0 \<le> aresp_Interval (whole_seconds resp)" "0 \<le> aresp_MinInterval (whole_seconds resp)"
    by (simp_all add: whole_seconds_eq second_def pos_imp_zdiv_nonneg_iff)
  note w = compact_response_eq [OF assms(4) nn, of "\<not> hr_GetBool r (str ''no_peer_id'')"]
  have "announceRoute f au uni trim ord c None r s =
      Ret \<lparr>ho_status = None, ho_body = benc (BDict (response_pairs (whole_seconds resp))), ho_err = None,
           ho_after = Some (AfterAnnounceWork (RemapRouteParamsToBgContext ?c) (req\<lparr>areq_Params := None\<rparr>)
             (whole_seconds resp)), ho_state = s\<rparr>"
    using w good_response_families [OF resp(2)] resp(1) assms(8,10)
    unfolding announceRoute_def Let_def by (simp del: benc.simps str_Cons)
  moreover have "http_handler f routes nf au sord uni trim ord c None r s = announceRoute f au uni trim ord c None r s"
    by (simp add: http_handler_def assms(7))
  ultimately show ?thesis
    using resp(2) by (intro exI [of _ resp] exI) (auto simp: RemapRouteParamsToBgContext_def Background_def)
qed

text \<open>
  A ping answers 200 when every pinger of the tracker succeeds and 503 when one fails;
  when the context was canceled, or the request is over, the status is left alone.
\<close>

theorem ping_correct:
  "ho_status (ping f fin s) =
     (if Logic_Ping (hfe_logic f) s = Some Canceled \<or> fin \<noteq> None then None
      else Some (if \<forall>p. p \<in> set (l_pingers (hfe_logic f)) \<longrightarrow> p s = None then 200 else 503)) \<and>
   ho_state (ping f fin s) = s"
proof -
  have "ping_all ps s = None \<longleftrightarrow> (\<forall>p. p \<in> set ps \<longrightarrow> p s = None)" for ps
    by (induction ps) (auto split: option.splits)
  then show ?thesis by (auto simp: ping_def Let_def Logic_Ping_def)
qed

subsection \<open>A request\<close>

definition example_au :: append_uint where
  "example_au n = (if n < 0 then Panic ''BUG: int must be positive'' else Ret (Itoa (nat n)))"

lemma example_au_ok: "append_uint_ok example_au"
  by (simp add: append_uint_ok_def example_au_def)

definition example_http :: HttpRequest where
  "example_http = \<lparr>hr_Peek = (\<lambda>k. if k = str ''peer_id'' then Some (replicate 20 2) else None),
     hr_PeekMulti = (\<lambda>k. if k = str ''info_hash'' then [replicate 20 1] else []),
     hr_GetUint = (\<lambda>k. if k = str ''numwant'' then (-1, Some ErrNoArgValue) else if k = str ''port'' then (6881, None) else (20, None)),
     hr_GetBool = (\<lambda>k. k = str ''compact''), hr_HeaderPeekAll = (\<lambda>k. []),
     hr_RemoteAddr = str ''1.2.3.4:5'', hr_Path = str ''/announce''\<rparr>"

definition example_http_options :: HttpParseOptions where
  "example_http_options = \<lparr>hpo_ParseOptions = example_options\<lparr>po_AllowIPSpoofing := False\<rparr>, hpo_RealIPHeader = []\<rparr>"

definition example_hfe :: "peerStore httpFE" where
  "example_hfe = \<lparr>hfe_logic = NewLogic (1800 * second) (900 * second) (memory_storage 7 rev) [] [],
     hfe_options = example_http_options\<rparr>"

lemma example_http_ok: "http_request_ok example_http"
  by (simp add: http_request_ok_def example_http_def)

lemma example_remote: "ParseAddrPort (str ''1.2.3.4:5'') = Some \<lparr>ap_addr = AddrV4 0x01020304, ap_port = 5\<rparr>"
  by (simp add: ParseAddrPort_def split_last_colon_def of_char_def ParseUint_def is_digit_def dec_value_def ParseAddr_def
      parseIPv4_def be_word_def)

lemma example_http_parsed:
  "\<exists>req. http_parseAnnounce (\<lambda>s. s) (\<lambda>s. s) rev example_http example_http_options = Inr req \<and>
     areq_InfoHash req = replicate 20 1"
  by (simp add: http_parseAnnounce_def example_http_def example_http_options_def http_GetString_def http_InfoHashes_def
      NewInfoHash_def len_defs NewPeerID_def requestedIPs_def Let_def example_remote [simplified] example_options_def
      RequestAddresses_Add_def RequestAddress_IsValid_def IsUnspecified_def IsMulticast_def broadcast4_def v4_byte_def
      SanitizeAnnounce_def Sanitize_def usable_address_def m_set_def)

theorem http_error_bencoded_witness:
  "bdecode (http_writeErrorResponse (OtherError ''disk full'')) =
     Some (BDict [(str ''failure reason'', BStr (str ''mochi internal error''))])"
  using http_error_bencoded [of "OtherError ''disk full''"] by simp

definition example_response :: AnnounceResponse where
  "example_response = \<lparr>aresp_Complete = 3, aresp_Incomplete = 4, aresp_Interval = 1800 * second,
     aresp_MinInterval = 900 * second,
     aresp_IPv4Peers = [\<lparr>peer_ID = replicate 20 2, peer_AddrPort = \<lparr>ap_addr = AddrV4 0x01020304, ap_port = 6881\<rparr>\<rparr>],
     aresp_IPv6Peers = []\<rparr>"

theorem http_announce_bencoded_witness:
  "\<exists>body resp' kvs. http_writeAnnounceResponse example_au example_response True False = Ret (body, resp') \<and>
     bdecode body = Some (BDict kvs) \<and> map_of kvs (str ''min interval'') = Some (BInt 900)"
  using http_announce_bencoded [OF example_au_ok, of example_response False]
  by (auto simp: example_response_def Peer_Addr_def second_def)

theorem http_min_interval_unit_witness:
  "aresp_MinInterval (whole_seconds (example_response\<lparr>aresp_Interval := 5\<rparr>)) = 900000000000"
  using http_min_interval_unit [of "example_response\<lparr>aresp_Interval := 5\<rparr>"]
  by (simp add: example_response_def second_def)

theorem http_dict_port_wrong_witness:
  "\<exists>b. dictAddress example_au (hd (aresp_IPv4Peers example_response)) False = Ret b \<and>
     b \<noteq> benc (BDict [(str ''ip'', BStr (str ''1.2.3.4'')), (str ''port'', BInt 6881)])"
proof -
  let ?p = "hd (aresp_IPv4Peers example_response)"
  have "Addr_String (Peer_Addr ?p) = str ''1.2.3.4''"
    by (simp add: example_response_def Peer_Addr_def string4_def v4_byte_def Itoa_small of_char_def)
  then show ?thesis
    using http_dict_port_wrong [OF example_au_ok, of ?p False]
    by (simp add: example_response_def Peer_Port_def del: benc.simps)
qed

theorem http_scrape_bencoded_witness:
  "\<exists>body. http_writeScrapeResponse rev example_au \<lparr>sresp_Data = []\<rparr> = Ret (body, \<lparr>sresp_Data = []\<rparr>) \<and>
     bdecode body = Some (BDict [(str ''files'', BDict [])])"
  using http_scrape_bencoded [OF example_au_ok, of rev "\<lparr>sresp_Data = []\<rparr>"] by auto

theorem http_parseAnnounce_correct_witness:
  "\<exists>req. http_parseAnnounce (\<lambda>s. s) (\<lambda>s. s) rev example_http example_http_options = Inr req \<and>
     uint (rp_Port (areq_RequestPeer req)) = 6881 \<and> uint (areq_Left req) = 20"
proof -
  obtain req where "http_parseAnnounce (\<lambda>s. s) (\<lambda>s. s) rev example_http example_http_options = Inr req"
    using example_http_parsed by blast
  then show ?thesis
    using http_parseAnnounce_correct [OF example_http_ok, where ord = rev and uni = "\<lambda>s. s" and trim = "\<lambda>s. s"
        and opts = example_http_options]
    by (simp add: example_http_def)
qed


definition example_http_config :: HttpConfig where
  "example_http_config = \<lparr>hc_Listen = \<lparr>lo_Addr = [], lo_ReusePort = False, lo_Workers = 0, lo_EnableRequestTiming = False\<rparr>,
     hc_ReadTimeout = 0, hc_WriteTimeout = 0, hc_IdleTimeout = 0, hc_EnableKeepAlive = False, hc_UseTLS = False,
     hc_TLSCertPath = [], hc_TLSKeyPath = [], hc_AnnounceRoutes = [], hc_ScrapeRoutes = [], hc_PingRoutes = [],
     hc_ParseOptions = example_http_options\<rparr>"

theorem HttpConfig_Validate_correct_witness:
  "case HttpConfig_Validate example_http_config of Inl e \<Rightarrow> False
   | Inr v \<Rightarrow> 0 < hc_ReadTimeout v \<and> hc_AnnounceRoutes v \<noteq> []"
  using HttpConfig_Validate_correct [of example_http_config]
  by (auto simp: example_http_config_def split: sum.splits)

lemma example_route:
  "m_get (http_routes (example_http_config\<lparr>hc_AnnounceRoutes := [str ''announce'']\<rparr>)) (hr_Path example_http) = Some AnnounceRoute"
  by code_simp

theorem http_announce_served_witness:
  "\<exists>body c' req resp. http_handler example_hfe (http_routes (example_http_config\<lparr>hc_AnnounceRoutes := [str ''announce'']\<rparr>))
      (404, str ''Not Found'') example_au (\<lambda>xs. xs) (\<lambda>s. s) (\<lambda>s. s) rev Background None example_http (NewPeerStorage 1) =
     Ret \<lparr>ho_status = None, ho_body = body, ho_err = None, ho_after = Some (AfterAnnounceWork c' req resp),
          ho_state = NewPeerStorage 1\<rparr>"
proof -
  obtain req where r: "http_parseAnnounce (\<lambda>s. s) (\<lambda>s. s) rev example_http (hfe_options example_hfe) = Inr req"
    "areq_InfoHash req = replicate 20 1"
    using example_http_parsed by (auto simp: example_hfe_def)
  have st: "peer_storage (memory_storage 7 rev) store_ok (\<lambda>ps. swarm_peers ps True) (\<lambda>ps. swarm_peers ps False) (\<lambda>p. True)"
    by (rule memory_peer_storage) simp
  have log: "hfe_logic example_hfe = NewLogic (1800 * second) (900 * second) (memory_storage 7 rev) [] []"
    by (simp add: example_hfe_def)
  have "hr_GetBool example_http (str ''compact'')" by (simp add: example_http_def)
  from http_announce_served [OF st example_store(1) log example_au_ok _ _ example_route r(1) _ this,
      of Background "(404, str ''Not Found'')" "\<lambda>xs. xs"] r(2)
  show ?thesis by (auto simp: second_def is_infohash_def len_defs Background_def simp del: benc.simps)
qed

theorem ping_correct_witness:
  "ho_status (ping example_hfe None (NewPeerStorage 1)) = Some 200"
  using ping_correct [of example_hfe None "NewPeerStorage 1"]
  by (simp add: example_hfe_def NewLogic_def responseHook_def memory_storage_def Logic_Ping_def memory_Ping_def)

end
