(* ===== verification/Approval.thy ===== *)
theory Approval
  imports MiddlewareProps
begin

section \<open>The approval hooks, \<open>middleware/clientapproval\<close> and \<open>middleware/torrentapproval\<close>\<close>

text \<open>
  Hooks that refuse an announce by the client software or by the torrent. Decoding a
  configuration (\<open>pkg/conf\<close>, over a third-party decoder) is an argument: the error or the
  decoded record. Torrent files, their hashes and the directory watcher come from packages
  that are not part of the sources; what the directory container reads from them are the
  fields of an event.
\<close>

subsection \<open>Client approval\<close>

definition ErrClientUnapproved :: goerror where
  "ErrClientUnapproved = ClientError ''client not allowed by mochi''"

record ClientConfig =
  cc_ClientIDList :: "bytes list"
  cc_Invert :: bool

definition NewClientID :: "peerid \<Rightarrow> bytes" where
  "NewClientID pid = (if pid ! 0 = 45 then take 6 (drop 1 pid) else take 6 pid)"

record client_hook =
  ch_clientIDs :: "(bytes, unit) gomap"
  ch_invert :: bool

fun add_client_ids :: "bytes list \<Rightarrow> (bytes, unit) gomap \<Rightarrow> goerror + (bytes, unit) gomap" where
  "add_client_ids [] m = Inr m"
| "add_client_ids (cid # cids) m =
     (if length cid \<noteq> 6 then Inl (OtherError ''client ID must be 6 bytes'')
      else add_client_ids cids (m_set cid () m))"

definition client_build :: "goerror + ClientConfig \<Rightarrow> goerror + client_hook" where
  "client_build config =
     (case config of Inl e \<Rightarrow> Inl e
      | Inr cfg \<Rightarrow>
          (case add_client_ids (cc_ClientIDList cfg) [] of Inl e \<Rightarrow> Inl e
           | Inr m \<Rightarrow> Inr \<lparr>ch_clientIDs = m, ch_invert = cc_Invert cfg\<rparr>))"

definition client_HandleAnnounce ::
  "client_hook \<Rightarrow> ctx \<Rightarrow> AnnounceRequest \<Rightarrow> AnnounceResponse \<Rightarrow> 's \<Rightarrow> 's announce_result" where
  "client_HandleAnnounce h c req resp s =
     (let contains = (m_get (ch_clientIDs h) (NewClientID (rp_ID (areq_RequestPeer req))) \<noteq> None)
      in Ret (if contains = ch_invert h then Inl ErrClientUnapproved else Inr (c, req, resp), s))"

definition client_HandleScrape ::
  "ctx \<Rightarrow> ScrapeRequest \<Rightarrow> ScrapeResponse \<Rightarrow> 's \<Rightarrow> 's scrape_result" where
  "client_HandleScrape c req resp s = Ret (Inr (c, req, resp), s)"

definition clientHook :: "client_hook \<Rightarrow> 's Hook" where
  "clientHook h = \<lparr>hook_HandleAnnounce = client_HandleAnnounce h, hook_HandleScrape = client_HandleScrape,
                   hook_Ping = None\<rparr>"

subsection \<open>The registry of containers\<close>

definition DefaultStorageCtxName :: bytes where
  "DefaultStorageCtxName = str ''MW_APPROVAL''"

definition ErrContainerDoesNotExist :: goerror where
  "ErrContainerDoesNotExist = OtherError ''torrent hash container with that name does not exist''"

definition container_Register ::
  "(bytes, 'b) gomap \<Rightarrow> bytes \<Rightarrow> 'b option \<Rightarrow> (bytes, 'b) gomap go" where
  "container_Register builders n c =
     (if length n = 0 then Panic ''middleware: could not register a Container with an empty name''
      else case c of
        None \<Rightarrow> Panic ''middleware: could not register a Container with nil builder constructor''
      | Some b \<Rightarrow> Ret (m_set n b builders))"

definition GetContainer ::
  "(bytes, 'c \<Rightarrow> 'ds \<Rightarrow> goerror + 'k) gomap \<Rightarrow> bytes \<Rightarrow> 'c \<Rightarrow> 'ds \<Rightarrow> goerror + 'k" where
  "GetContainer builders name config st =
     (case m_get builders name of None \<Rightarrow> Inl ErrContainerDoesNotExist | Some builder \<Rightarrow> builder config st)"

subsection \<open>The list container\<close>

definition DUMMY :: bytes where "DUMMY = str ''_''"

record ListConfig =
  lc_HashList :: "bytes list"
  lc_Invert :: bool
  lc_StorageCtx :: bytes

record ApprovalList =
  al_Invert :: bool
  al_StorageCtx :: bytes

fun list_entries :: "bytes list \<Rightarrow> goerror + Entry list" where
  "list_entries [] = Inr []"
| "list_entries (h # hs) =
     (case NewInfoHash h of Inl e \<Rightarrow> Inl e
      | Inr ih \<Rightarrow>
          (case list_entries hs of Inl e \<Rightarrow> Inl e
           | Inr es \<Rightarrow>
               Inr (\<lparr>e_Key = ih, e_Value = DUMMY\<rparr> #
                    (if length ih = InfoHashV2Len then [\<lparr>e_Key = TruncateV1 ih, e_Value = DUMMY\<rparr>] else []) @ es)))"

definition list_build ::
  "'s DataStorage \<Rightarrow> goerror + ListConfig \<Rightarrow> 's \<Rightarrow> (goerror + ApprovalList) \<times> 's" where
  "list_build st conf s =
     (case conf of Inl e \<Rightarrow> (Inl e, s)
      | Inr c \<Rightarrow>
          let l = \<lparr>al_Invert = lc_Invert c,
                   al_StorageCtx = (if length (lc_StorageCtx c) = 0 then DefaultStorageCtxName else lc_StorageCtx c)\<rparr> in
          if length (lc_HashList c) > 0
          then (case list_entries (lc_HashList c) of Inl e \<Rightarrow> (Inl e, s)
                | Inr es \<Rightarrow>
                    (case ds_Put st s (al_StorageCtx l) es of
                       (Some e, s') \<Rightarrow> (Inl e, s')
                     | (None, s') \<Rightarrow> (Inr l, s')))
          else (Inr l, s))"

text \<open>
  The test after the second lookup is on the error of the first one, which is nil there, so
  the error of the second is dropped.
\<close>

definition Approved :: "'s DataStorage \<Rightarrow> ApprovalList \<Rightarrow> 's \<Rightarrow> infohash \<Rightarrow> bool" where
  "Approved st l s hash =
     (let (contains, err) = ds_Contains st s (al_StorageCtx l) hash;
          contains' = (if err = None \<and> length hash = InfoHashV2Len
                       then let (containsV2, errV2) = ds_Contains st s (al_StorageCtx l) (TruncateV1 hash)
                            in (if err = None then contains \<or> containsV2 else contains)
                       else contains)
      in contains' \<noteq> al_Invert l)"

subsection \<open>The directory container\<close>

text \<open>
  An event of the watcher: the torrent's V1 hash, what loading the file gave (its info
  bytes, and the name in it where that can be decoded), and whether it was added or removed.
  \<open>sha256\<close> is the hash function.
\<close>

datatype dir_change = DirAdded | DirRemoved

record dir_event =
  de_Change :: dir_change
  de_InfoHash :: infohash
  de_File :: "goerror + bytes \<times> (goerror + bytes)"

definition directory_event ::
  "'s DataStorage \<Rightarrow> (bytes \<Rightarrow> bytes) \<Rightarrow> bytes \<Rightarrow> ApprovalList \<Rightarrow> dir_event \<Rightarrow> 's \<Rightarrow> 's" where
  "directory_event st sha256 cfgStorageCtx d ev s =
     (case de_File ev of Inl e \<Rightarrow> s
      | Inr (infoBytes, info) \<Rightarrow>
          let v2hash = (case NewInfoHash (sha256 infoBytes) of Inl e \<Rightarrow> [] | Inr h \<Rightarrow> h) in
          case de_Change ev of
            DirAdded \<Rightarrow>
              (let name = (case info of Inl e \<Rightarrow> [] | Inr n \<Rightarrow> n);
                   name' = (if length name = 0 then DUMMY else name)
               in snd (ds_Put st s (al_StorageCtx d)
                    [\<lparr>e_Key = de_InfoHash ev, e_Value = name'\<rparr>, \<lparr>e_Key = v2hash, e_Value = name'\<rparr>,
                     \<lparr>e_Key = TruncateV1 v2hash, e_Value = name'\<rparr>]))
          | DirRemoved \<Rightarrow>
              snd (ds_Delete st s cfgStorageCtx [de_InfoHash ev, v2hash, TruncateV1 v2hash]))"

record DirectoryConfig = ListConfig +
  dc_Path :: bytes

definition directory_build ::
  "(bytes \<Rightarrow> goerror + 'w) \<Rightarrow> goerror + DirectoryConfig \<Rightarrow> goerror + (ApprovalList \<times> 'w \<times> bytes)" where
  "directory_build newWatch conf =
     (case conf of Inl e \<Rightarrow> Inl e
      | Inr c \<Rightarrow>
          let d = \<lparr>al_Invert = lc_Invert c,
                   al_StorageCtx = (if length (lc_StorageCtx c) = 0 then DefaultStorageCtxName else lc_StorageCtx c)\<rparr>
          in case newWatch (dc_Path c) of Inl e \<Rightarrow> Inl e
             | Inr w \<Rightarrow> Inr (d, w, lc_StorageCtx c))"

definition directory_events ::
  "'s DataStorage \<Rightarrow> (bytes \<Rightarrow> bytes) \<Rightarrow> bytes \<Rightarrow> ApprovalList \<Rightarrow> dir_event list \<Rightarrow> 's \<Rightarrow> 's" where
  "directory_events st sha256 cfgStorageCtx d evs s =
     foldl (\<lambda>s ev. directory_event st sha256 cfgStorageCtx d ev s) s evs"

text \<open>\<open>closeWatch\<close> stops a watcher; a directory without one is \<open>None\<close>.\<close>

definition directory_Close :: "('w \<Rightarrow> 'w) \<Rightarrow> 'w option \<Rightarrow> err \<times> 'w option" where
  "directory_Close closeWatch watcher =
     (case watcher of None \<Rightarrow> (None, None) | Some w \<Rightarrow> (None, Some (closeWatch w)))"

subsection \<open>Torrent approval\<close>

definition ErrTorrentUnapproved :: goerror where
  "ErrTorrentUnapproved = ClientError ''torrent not allowed by mochi''"

record 'c baseConfig =
  bc_Source :: bytes
  bc_Preserve :: bool
  bc_Configuration :: "'c option"

text \<open>
  \<open>'ds\<close> is the type of storage handles: the one of the tracker, with whether it is
  preservable, and a new in-memory one.
\<close>

definition torrent_build ::
  "(bytes, 'c \<Rightarrow> 'ds \<Rightarrow> goerror + 'k) gomap \<Rightarrow> ('ds \<Rightarrow> bool) \<Rightarrow> 'ds \<Rightarrow> goerror + 'c baseConfig \<Rightarrow> 'ds \<Rightarrow> goerror + 'k" where
  "torrent_build builders preservable newMemory config st =
     (case config of Inl e \<Rightarrow> Inl e
      | Inr cfg \<Rightarrow>
          if length (bc_Source cfg) = 0 then Inl (OtherError ''source not provided'')
          else case bc_Configuration cfg of
            None \<Rightarrow> Inl (OtherError ''config not provided'')
          | Some configuration \<Rightarrow>
              let ds = (if \<not> bc_Preserve cfg \<and> preservable st then newMemory else st)
              in GetContainer builders (bc_Source cfg) configuration ds)"

definition torrent_HandleAnnounce ::
  "('s \<Rightarrow> infohash \<Rightarrow> bool) \<Rightarrow> ctx \<Rightarrow> AnnounceRequest \<Rightarrow> AnnounceResponse \<Rightarrow> 's \<Rightarrow> 's announce_result" where
  "torrent_HandleAnnounce approved c req resp s =
     Ret (if \<not> approved s (areq_InfoHash req) then Inl ErrTorrentUnapproved else Inr (c, req, resp), s)"

definition torrent_HandleScrape ::
  "ctx \<Rightarrow> ScrapeRequest \<Rightarrow> ScrapeResponse \<Rightarrow> 's \<Rightarrow> 's scrape_result" where
  "torrent_HandleScrape c req resp s = Ret (Inr (c, req, resp), s)"

definition torrentHook :: "('s \<Rightarrow> infohash \<Rightarrow> bool) \<Rightarrow> 's Hook" where
  "torrentHook approved = \<lparr>hook_HandleAnnounce = torrent_HandleAnnounce approved,
     hook_HandleScrape = torrent_HandleScrape, hook_Ping = None\<rparr>"

text \<open>\<open>closer\<close> is the \<open>Close\<close> method of the container \<open>c\<close>, where it has one.\<close>

definition torrent_Close :: "('c \<Rightarrow> err \<times> 'c) option \<Rightarrow> 'c \<Rightarrow> err \<times> 'c" where
  "torrent_Close closer c = (case closer of None \<Rightarrow> (None, c) | Some close \<Rightarrow> close c)"

subsection \<open>Properties\<close>

lemma add_client_ids_cases:
  "case add_client_ids cids m of
     Inl e \<Rightarrow> \<exists>cid \<in> set cids. length cid \<noteq> 6
   | Inr m' \<Rightarrow> (\<forall>cid \<in> set cids. length cid = 6) \<and> (\<forall>k. m_get m' k \<noteq> None \<longleftrightarrow> k \<in> set cids \<or> m_get m k \<noteq> None)"
proof (induction cids m rule: add_client_ids.induct)
  case (2 cid cids m)
  then show ?case by (auto simp: m_get_set split: sum.splits if_splits)
qed simp

text \<open>
  Client approval. Building the hook fails exactly when an ID of the list does not have
  six bytes. The hook lets an announce through exactly when the client's ID (six bytes of the
  peer ID, after a leading dash) is in the list, or is not in it for an inverted one; the
  storage is untouched either way.
\<close>

theorem client_approval_correct:
  "case client_build (Inr cfg) of
     Inl e \<Rightarrow> \<exists>cid. cid \<in> set (cc_ClientIDList cfg) \<and> length cid \<noteq> 6
   | Inr h \<Rightarrow> (\<forall>cid. cid \<in> set (cc_ClientIDList cfg) \<longrightarrow> length cid = 6) \<and>
       client_HandleAnnounce h c req resp s =
         Ret (if (NewClientID (rp_ID (areq_RequestPeer req)) \<in> set (cc_ClientIDList cfg)) \<noteq> cc_Invert cfg
              then Inr (c, req, resp) else Inl ErrClientUnapproved, s)"
  using add_client_ids_cases [of "cc_ClientIDList cfg" "[]"]
  by (auto simp: client_build_def client_HandleAnnounce_def Let_def split: sum.splits)

definition listed :: "bytes list \<Rightarrow> infohash set" where
  "listed hs = {ih. \<exists>h \<in> set hs. NewInfoHash h = Inr ih}"

lemma list_entries_keys:
  "list_entries hs = Inr es \<Longrightarrow> e_Key ` set es = listed hs \<union> TruncateV1 ` listed hs"
proof (induction hs arbitrary: es)
  case (Cons h hs)
  then obtain ih es' where h: "NewInfoHash h = Inr ih" "list_entries hs = Inr es'"
    by (auto split: sum.splits)
  have l: "listed (h # hs) = insert ih (listed hs)" using h(1) by (auto simp: listed_def)
  have "TruncateV1 ih = ih" if "length ih \<noteq> InfoHashV2Len" using that by (simp add: TruncateV1_def)
  then have "e_Key ` set es = insert ih (insert (TruncateV1 ih) (e_Key ` set es'))"
    using Cons.prems h by (cases "length ih = InfoHashV2Len") (auto simp: image_Un)
  then show ?case unfolding l Cons.IH [OF h(2)] by blast
qed (auto simp: listed_def)



context data_storage
begin

lemma Approved_eq:
  "dinv s \<Longrightarrow> Approved ds l s ih \<longleftrightarrow>
     (fst (ds_Contains ds s (al_StorageCtx l) ih) \<or>
      (length ih = InfoHashV2Len \<and> fst (ds_Contains ds s (al_StorageCtx l) (TruncateV1 ih)))) \<noteq> al_Invert l"
  using contains_ok [of s "al_StorageCtx l" ih]
  by (auto simp: Approved_def Let_def case_prod_unfold)

lemma list_build_ok:
  assumes "dinv s" and "list_build ds (Inr cfg) s = (Inr l, s')"
  shows "dinv s'" "al_Invert l = lc_Invert cfg"
    "\<forall>k. fst (ds_Contains ds s' (al_StorageCtx l) k) \<longleftrightarrow>
       k \<in> listed (lc_HashList cfg) \<union> TruncateV1 ` listed (lc_HashList cfg) \<or> fst (ds_Contains ds s (al_StorageCtx l) k)"
proof -
  define ctxn where "ctxn = (if length (lc_StorageCtx cfg) = 0 then DefaultStorageCtxName else lc_StorageCtx cfg)"
  note b = assms(2) [unfolded list_build_def sum.case Let_def ctxn_def [symmetric]]
  have "dinv s' \<and> al_Invert l = lc_Invert cfg \<and> (\<forall>k. fst (ds_Contains ds s' (al_StorageCtx l) k) \<longleftrightarrow>
       k \<in> listed (lc_HashList cfg) \<union> TruncateV1 ` listed (lc_HashList cfg) \<or> fst (ds_Contains ds s (al_StorageCtx l) k))"
  proof (cases "lc_HashList cfg = []")
    case True
    then show ?thesis using b assms(1) by (auto simp: listed_def)
  next
    case False
    then obtain es where es: "list_entries (lc_HashList cfg) = Inr es" using b by (auto split: sum.splits)
    obtain s1 where p: "ds_Put ds s ctxn es = (None, s1)" "dinv s1"
      "\<forall>c' k. fst (ds_Contains ds s1 c' k) \<longleftrightarrow> (c' = ctxn \<and> k \<in> e_Key ` set es) \<or> fst (ds_Contains ds s c' k)"
      using put_ok [OF assms(1)] by blast
    have "l = \<lparr>al_Invert = lc_Invert cfg, al_StorageCtx = ctxn\<rparr>" "s' = s1"
      using b False es p(1) by auto
    then show ?thesis using p list_entries_keys [OF es] by simp
  qed
  then show "dinv s'" "al_Invert l = lc_Invert cfg"
    "\<forall>k. fst (ds_Contains ds s' (al_StorageCtx l) k) \<longleftrightarrow>
       k \<in> listed (lc_HashList cfg) \<union> TruncateV1 ` listed (lc_HashList cfg) \<or> fst (ds_Contains ds s (al_StorageCtx l) k)"
    by blast+
qed

end

context data_storage
begin

lemma directory_added:
  assumes "dinv s" and "de_File ev = Inr (ib, info)" and "de_Change ev = DirAdded"
  shows "dinv (directory_event ds sha cctx d ev s)"
    "fst (ds_Contains ds (directory_event ds sha cctx d ev s) (al_StorageCtx d) (de_InfoHash ev))"
proof -
  obtain es where es: "directory_event ds sha cctx d ev s = snd (ds_Put ds s (al_StorageCtx d) es)"
    "de_InfoHash ev \<in> e_Key ` set es"
    unfolding directory_event_def Let_def assms(2,3) sum.case prod.case dir_change.case by force
  obtain s' where "ds_Put ds s (al_StorageCtx d) es = (None, s')" "dinv s'"
    "\<forall>c' k. fst (ds_Contains ds s' c' k) \<longleftrightarrow> (c' = al_StorageCtx d \<and> k \<in> e_Key ` set es) \<or> fst (ds_Contains ds s c' k)"
    using put_ok [OF assms(1)] by blast
  then show "dinv (directory_event ds sha cctx d ev s)"
    "fst (ds_Contains ds (directory_event ds sha cctx d ev s) (al_StorageCtx d) (de_InfoHash ev))"
    using es by simp_all
qed

lemma directory_removed:
  assumes "dinv s" and "de_File ev = Inr (ib, info)" and "de_Change ev = DirRemoved"
  shows "dinv (directory_event ds sha cctx d ev s)"
    "fst (ds_Contains ds (directory_event ds sha cctx d ev s) c (de_InfoHash ev)) \<longleftrightarrow>
       fst (ds_Contains ds s c (de_InfoHash ev)) \<and> c \<noteq> cctx"
proof -
  obtain ks where ks: "directory_event ds sha cctx d ev s = snd (ds_Delete ds s cctx ks)" "de_InfoHash ev \<in> set ks"
    unfolding directory_event_def Let_def assms(2,3) sum.case prod.case dir_change.case by force
  obtain s' where "ds_Delete ds s cctx ks = (None, s')" "dinv s'"
    "\<forall>c' k. fst (ds_Contains ds s' c' k) \<longleftrightarrow> fst (ds_Contains ds s c' k) \<and> \<not> (c' = cctx \<and> k \<in> set ks)"
    using delete_ok [OF assms(1)] by blast
  then show "dinv (directory_event ds sha cctx d ev s)"
    "fst (ds_Contains ds (directory_event ds sha cctx d ev s) c (de_InfoHash ev)) \<longleftrightarrow>
       fst (ds_Contains ds s c (de_InfoHash ev)) \<and> c \<noteq> cctx"
    using ks by auto
qed

end


text \<open>
  C34: Approval by a directory. Adding a torrent file approves its torrent. Removing it takes
  the approval back if the configuration names the storage context; without one, the entries
  are stored under the default name but deleted under the empty one, and the torrent stays
  approved. When the file of a removal event cannot be loaded, as when it is gone, nothing
  happens.
\<close>

theorem directory_removal:
  assumes "data_storage ds J" and "J s" and "directory_build newWatch (Inr cfg) = Inr (d, w, cctx)"
    and "de_File ev = Inr (ib, info)" and "length (de_InfoHash ev) = 20" and "\<not> lc_Invert cfg"
  shows "Approved ds d (directory_event ds sha cctx d (ev\<lparr>de_Change := DirAdded\<rparr>) s) (de_InfoHash ev) \<and>
    (Approved ds d (directory_events ds sha cctx d [ev\<lparr>de_Change := DirAdded\<rparr>, ev\<lparr>de_Change := DirRemoved\<rparr>] s) (de_InfoHash ev)
       \<longleftrightarrow> lc_StorageCtx cfg = []) \<and>
    directory_event ds sha cctx d (ev\<lparr>de_File := Inl e\<rparr>) s = s"
proof -
  have d: "al_Invert d = False" "al_StorageCtx d = (if lc_StorageCtx cfg = [] then DefaultStorageCtxName else lc_StorageCtx cfg)"
    "cctx = lc_StorageCtx cfg"
    using assms(3,6) by (auto simp: directory_build_def Let_def split: sum.splits)
  have ne: "al_StorageCtx d = cctx \<longleftrightarrow> lc_StorageCtx cfg \<noteq> []" using d by (auto simp: DefaultStorageCtxName_def)
  have l: "length (de_InfoHash ev) \<noteq> InfoHashV2Len" using assms(5) by (simp add: len_defs)
  define s1 where "s1 = directory_event ds sha cctx d (ev\<lparr>de_Change := DirAdded\<rparr>) s"
  define s2 where "s2 = directory_event ds sha cctx d (ev\<lparr>de_Change := DirRemoved\<rparr>) s1"
  have s1: "J s1" "fst (ds_Contains ds s1 (al_StorageCtx d) (de_InfoHash ev))"
    using data_storage.directory_added [OF assms(1,2), of "ev\<lparr>de_Change := DirAdded\<rparr>" ib info sha cctx d] assms(4)
    by (simp_all add: s1_def)
  have s2: "J s2" "fst (ds_Contains ds s2 (al_StorageCtx d) (de_InfoHash ev)) \<longleftrightarrow> lc_StorageCtx cfg = []"
    using data_storage.directory_removed [OF assms(1) s1(1), of "ev\<lparr>de_Change := DirRemoved\<rparr>" ib info sha cctx d] assms(4) s1(2) ne
    by (simp_all add: s2_def)
  show ?thesis
    using s1 s2 l d(1) data_storage.Approved_eq [OF assms(1) s1(1), of d "de_InfoHash ev"]
      data_storage.Approved_eq [OF assms(1) s2(1), of d "de_InfoHash ev"]
    by (simp add: directory_events_def s1_def [symmetric] s2_def [symmetric]) (simp add: directory_event_def)
qed

text \<open>
  C35: The approval hook before the tracker's own: an announce for a torrent that is not
  approved is answered with the error meant for the client and neither reads nor changes a
  swarm, whatever hooks come after it; one that is approved is handled as without the hook.
\<close>

theorem approval_gate:
  "Logic_HandleAnnounce (NewLogic ai mi st (Some (torrentHook approved) # pre) post) c req s =
     (if approved s (areq_InfoHash req) then Logic_HandleAnnounce (NewLogic ai mi st pre post) c req s
      else Ret (Inl ErrTorrentUnapproved, s))"
  by (simp add: Logic_HandleAnnounce_def NewLogic_def Let_def torrentHook_def torrent_HandleAnnounce_def)

subsection \<open>Witnesses\<close>

theorem client_approval_correct_witness:
  "\<exists>h. client_build (Inr \<lparr>cc_ClientIDList = [replicate 6 2], cc_Invert = False\<rparr>) = Inr h \<and>
     client_HandleAnnounce h Background example_request (start_response 1 1) (0 :: nat) =
       Ret (if NewClientID (rp_ID (areq_RequestPeer example_request)) = replicate 6 2
            then Inr (Background, example_request, start_response 1 1) else Inl ErrClientUnapproved, 0)"
proof -
  obtain h where "client_build (Inr \<lparr>cc_ClientIDList = [replicate 6 2], cc_Invert = False\<rparr>) = Inr h"
    by (simp add: client_build_def)
  then show ?thesis
    using client_approval_correct [of "\<lparr>cc_ClientIDList = [replicate 6 2], cc_Invert = False\<rparr>" Background example_request
        "start_response 1 1" "0 :: nat"] by simp
qed



theorem directory_removal_witness:
  "Approved (DataStorage.truncate (memory_storage 7 rev)) \<lparr>al_Invert = False, al_StorageCtx = DefaultStorageCtxName\<rparr>
     (directory_events (DataStorage.truncate (memory_storage 7 rev)) (\<lambda>b. replicate 32 9) []
        \<lparr>al_Invert = False, al_StorageCtx = DefaultStorageCtxName\<rparr>
        [\<lparr>de_Change = DirAdded, de_InfoHash = replicate 20 7, de_File = Inr ([1], Inr [2])\<rparr>,
         \<lparr>de_Change = DirRemoved, de_InfoHash = replicate 20 7, de_File = Inr ([1], Inr [2])\<rparr>] (NewPeerStorage 1))
     (replicate 20 7)"
proof -
  let ?cfg = "\<lparr>lc_HashList = [], lc_Invert = False, lc_StorageCtx = [], dc_Path = []\<rparr>"
  have b: "directory_build (\<lambda>p. Inr ()) (Inr ?cfg) = Inr (\<lparr>al_Invert = False, al_StorageCtx = DefaultStorageCtxName\<rparr>, (), [])"
    by (simp add: directory_build_def)
  show ?thesis
    using directory_removal [OF memory_data_storage [of 7 rev] TrueI b, where s = "NewPeerStorage 1" and
        ev = "\<lparr>de_Change = DirAdded, de_InfoHash = replicate 20 7, de_File = Inr ([1], Inr [2])\<rparr>" and ib = "[1]" and
        info = "Inr [2]" and sha = "\<lambda>b. replicate 32 9" and e = Canceled]
    by simp
qed

end
