(* ===== verification/Jwt.thy ===== *)
theory Jwt
  imports MiddlewareProps "HOL-Library.Multiset"
begin

section \<open>The JWT hook, \<open>middleware/jwt\<close>\<close>

text \<open>
  A hook that accepts a request only with a signed token that names the torrents of the
  request. Verifying a token and fetching the keys are packages that are not part of the
  sources: \<open>jwt_lib\<close> holds what the hook calls of them, from the parser with its settings, the
  key set, the context and the token to an error or the claim the hook reads.
\<close>

subsection \<open>Configuration\<close>

definition authorizationHeader :: bytes where "authorizationHeader = str ''authorization''"
definition bearerAuthPrefix :: bytes where "bearerAuthPrefix = str ''bearer ''"

definition ErrMissingJWT :: goerror where
  "ErrMissingJWT = ClientError ''request not allowed by mochi: missing jwt''"
definition ErrInvalidJWT :: goerror where
  "ErrInvalidJWT = ClientError ''request not allowed by mochi: invalid jwt''"
definition errJWKsNotSet :: goerror where
  "errJWKsNotSet = OtherError ''required parameters not provided: Issuer/Audience/JWKSetURL''"

definition hmacAlgorithms :: "string list" where
  "hmacAlgorithms = [''HS256'', ''HS384'', ''HS512'', ''RS256'', ''RS384'', ''RS512'',
     ''PS256'', ''PS384'', ''PS512'', ''ES256'', ''ES384'', ''ES512'', ''EdDSA'']"

record JwtConfig =
  jc_Header :: bytes
  jc_Issuer :: bytes
  jc_Audience :: bytes
  jc_JWKSetURL :: bytes
  jc_JWKUpdateInterval :: duration
  jc_HandleAnnounce :: bool
  jc_HandleScrape :: bool

text \<open>The settings of \<open>jwt.NewParser\<close>.\<close>

record jwt_parser =
  jp_Audience :: bytes
  jp_Issuer :: bytes
  jp_ValidMethods :: "string list"

record 'j jwt_lib =
  jl_NewStorageFromHTTP :: "bytes \<Rightarrow> duration \<Rightarrow> goerror + 'j"
  jl_ParseAnnounce :: "jwt_parser \<Rightarrow> 'j \<Rightarrow> ctx \<Rightarrow> bytes \<Rightarrow> goerror + bytes"
  jl_ParseScrape :: "jwt_parser \<Rightarrow> 'j \<Rightarrow> ctx \<Rightarrow> bytes \<Rightarrow> goerror + bytes list"

record 'j jwt_hook =
  jh_cfg :: JwtConfig
  jh_jwks :: "'j option"
  jh_parser :: jwt_parser

definition jwt_build :: "'j jwt_lib \<Rightarrow> goerror + JwtConfig \<Rightarrow> goerror + 'j jwt_hook" where
  "jwt_build lib config =
     (case config of Inl e \<Rightarrow> Inl e
      | Inr cfg0 \<Rightarrow>
          if jc_JWKSetURL cfg0 \<noteq> [] \<and> jc_Issuer cfg0 \<noteq> [] \<and> jc_Audience cfg0 \<noteq> []
          then let cfg = (if jc_Header cfg0 = [] then cfg0\<lparr>jc_Header := authorizationHeader\<rparr> else cfg0);
                   jwks = (if jc_HandleAnnounce cfg \<or> jc_HandleScrape cfg
                           then map_sum id Some (jl_NewStorageFromHTTP lib (jc_JWKSetURL cfg) (jc_JWKUpdateInterval cfg))
                           else Inr None)
               in case jwks of Inl e \<Rightarrow> Inl e
                  | Inr ks \<Rightarrow> Inr \<lparr>jh_cfg = cfg, jh_jwks = ks,
                       jh_parser = \<lparr>jp_Audience = jc_Audience cfg, jp_Issuer = jc_Issuer cfg,
                                    jp_ValidMethods = hmacAlgorithms\<rparr>\<rparr>
          else Inl errJWKsNotSet)"

subsection \<open>The token of a request\<close>

text \<open>
  \<open>strings.HasPrefix(strings.ToLower(jwt), bearerAuthPrefix)\<close>: the only characters outside
  ASCII whose lower case is in ASCII are those of \<open>k\<close> and \<open>i\<close>, which are not in the prefix, so
  the comparison is one of bytes.
\<close>

definition has_bearer :: "bytes \<Rightarrow> bool" where
  "has_bearer s = (map lower_byte (take (length bearerAuthPrefix) s) = bearerAuthPrefix)"

definition getJWTString :: "'j jwt_hook \<Rightarrow> Params \<Rightarrow> bytes" where
  "getJWTString h params =
     (case params of None \<Rightarrow> []
      | Some GetString \<Rightarrow>
          (case GetString (jc_Header (jh_cfg h)) of None \<Rightarrow> []
           | Some jwt \<Rightarrow> if has_bearer jwt then drop (length bearerAuthPrefix) jwt else jwt))"

subsection \<open>Handling\<close>

definition jwt_HandleAnnounce ::
  "'j jwt_lib \<Rightarrow> 'j jwt_hook \<Rightarrow> ctx \<Rightarrow> AnnounceRequest \<Rightarrow> AnnounceResponse \<Rightarrow> 's \<Rightarrow> 's announce_result" where
  "jwt_HandleAnnounce lib h c req resp s =
     (if \<not> jc_HandleAnnounce (jh_cfg h) then Ret (Inr (c, req, resp), s)
      else let jwtParam = getJWTString h (areq_Params req) in
        if length jwtParam = 0 then Ret (Inl ErrMissingJWT, s)
        else case jh_jwks h of
          None \<Rightarrow> Panic nil_deref
        | Some jwks \<Rightarrow>
            (case jl_ParseAnnounce lib (jh_parser h) jwks c jwtParam of
               Inl jwtErr \<Rightarrow> Ret (Inl ErrInvalidJWT, s)
             | Inr claim \<Rightarrow>
                 let (claimIH, err) = (case NewInfoHash claim of Inl e \<Rightarrow> ([], Some ErrInvalidJWT) | Inr ih \<Rightarrow> (ih, None));
                     err' = (if areq_InfoHash req \<noteq> claimIH then Some ErrInvalidJWT else err)
                 in Ret (case err' of None \<Rightarrow> Inr (c, req, resp) | Some e \<Rightarrow> Inl e, s)))"

fun claim_hashes :: "bytes list \<Rightarrow> infohash list" where
  "claim_hashes [] = []"
| "claim_hashes (x # xs) = (case NewInfoHash x of Inl e \<Rightarrow> claim_hashes xs | Inr ih \<Rightarrow> ih # claim_hashes xs)"

fun hash_found :: "infohash \<Rightarrow> infohash list \<Rightarrow> bool" where
  "hash_found rIH [] = False"
| "hash_found rIH (cIH # claimIHs) = (if rIH = cIH then True else hash_found rIH claimIHs)"

fun all_found :: "infohash list \<Rightarrow> infohash list \<Rightarrow> bool" where
  "all_found [] claimIHs = True"
| "all_found (rIH # ihs) claimIHs = (if \<not> hash_found rIH claimIHs then False else all_found ihs claimIHs)"

definition jwt_HandleScrape ::
  "'j jwt_lib \<Rightarrow> 'j jwt_hook \<Rightarrow> ctx \<Rightarrow> ScrapeRequest \<Rightarrow> ScrapeResponse \<Rightarrow> 's \<Rightarrow> 's scrape_result" where
  "jwt_HandleScrape lib h c req resp s =
     (if \<not> jc_HandleScrape (jh_cfg h) then Ret (Inr (c, req, resp), s)
      else let jwtParam = getJWTString h (sreq_Params req) in
        if length jwtParam = 0 then Ret (Inl ErrMissingJWT, s)
        else case jh_jwks h of
          None \<Rightarrow> Panic nil_deref
        | Some jwks \<Rightarrow>
            (case jl_ParseScrape lib (jh_parser h) jwks c jwtParam of
               Inl jwtErr \<Rightarrow> Ret (Inl ErrInvalidJWT, s)
             | Inr claims \<Rightarrow>
                 let claimIHs = claim_hashes claims;
                     eq = (length (sreq_InfoHashes req) = length claimIHs);
                     eq' = (if eq then all_found (sreq_InfoHashes req) claimIHs else eq)
                 in Ret (if \<not> eq' then Inl ErrInvalidJWT else Inr (c, req, resp), s)))"

definition jwtHook :: "'j jwt_lib \<Rightarrow> 'j jwt_hook \<Rightarrow> 's Hook" where
  "jwtHook lib h = \<lparr>hook_HandleAnnounce = jwt_HandleAnnounce lib h, hook_HandleScrape = jwt_HandleScrape lib h,
                    hook_Ping = None\<rparr>"

subsection \<open>Properties\<close>

lemma hash_found_iff: "hash_found r cs \<longleftrightarrow> r \<in> set cs"
  by (induction cs) auto

lemma all_found_iff: "all_found rs cs \<longleftrightarrow> set rs \<subseteq> set cs"
  by (induction rs) (auto simp: hash_found_iff)

lemma distinct_subset_mset:
  assumes "distinct xs" and "length xs = length ys" and "set xs \<subseteq> set ys"
  shows "mset xs = mset ys"
proof -
  have c: "card (set xs) = length ys" using assms(1,2) by (simp add: distinct_card)
  then have "set xs = set ys"
    using assms(3) card_length [of ys] card_mono [OF _ assms(3)] by (intro card_subset_eq) auto
  moreover from this have "distinct ys" using c by (simp add: card_distinct)
  ultimately show ?thesis using assms(1) set_eq_iff_mset_eq_distinct by blast
qed

text \<open>The token that a configuration makes the hook read, and whether the library accepts it.\<close>

definition token_of :: "JwtConfig \<Rightarrow> Params \<Rightarrow> bytes" where
  "token_of cfg params =
     (let v = (case params of None \<Rightarrow> None
               | Some g \<Rightarrow> g (if jc_Header cfg = [] then authorizationHeader else jc_Header cfg))
      in case v of None \<Rightarrow> [] | Some t \<Rightarrow> if has_bearer t then drop 7 t else t)"

definition parser_of :: "JwtConfig \<Rightarrow> jwt_parser" where
  "parser_of cfg = \<lparr>jp_Audience = jc_Audience cfg, jp_Issuer = jc_Issuer cfg, jp_ValidMethods = hmacAlgorithms\<rparr>"

lemma prefix_length: "length bearerAuthPrefix = 7"
  by (simp add: bearerAuthPrefix_def str_def)

lemma jwt_build_ok:
  assumes "jwt_build lib (Inr cfg) = Inr h"
  shows "jc_HandleAnnounce (jh_cfg h) = jc_HandleAnnounce cfg" "jc_HandleScrape (jh_cfg h) = jc_HandleScrape cfg"
    "jh_parser h = parser_of cfg" "getJWTString h p = token_of cfg p"
    "jc_HandleAnnounce cfg \<or> jc_HandleScrape cfg \<Longrightarrow>
       \<exists>ks. jh_jwks h = Some ks \<and> jl_NewStorageFromHTTP lib (jc_JWKSetURL cfg) (jc_JWKUpdateInterval cfg) = Inr ks"
proof -
  let ?cfg = "if jc_Header cfg = [] then cfg\<lparr>jc_Header := authorizationHeader\<rparr> else cfg"
  obtain ks where h: "h = \<lparr>jh_cfg = ?cfg, jh_jwks = ks, jh_parser = parser_of cfg\<rparr>"
    and ks: "jc_HandleAnnounce cfg \<or> jc_HandleScrape cfg \<Longrightarrow>
       map_sum id Some (jl_NewStorageFromHTTP lib (jc_JWKSetURL cfg) (jc_JWKUpdateInterval cfg)) = Inr ks"
    using assms by (auto simp: jwt_build_def Let_def parser_of_def split: if_splits sum.splits)
  show "jc_HandleAnnounce (jh_cfg h) = jc_HandleAnnounce cfg" "jc_HandleScrape (jh_cfg h) = jc_HandleScrape cfg"
    "jh_parser h = parser_of cfg" by (simp_all add: h)
  show "getJWTString h p = token_of cfg p"
    by (simp add: h getJWTString_def token_of_def prefix_length split: option.split)
  show "\<exists>ks. jh_jwks h = Some ks \<and> jl_NewStorageFromHTTP lib (jc_JWKSetURL cfg) (jc_JWKUpdateInterval cfg) = Inr ks"
    if "jc_HandleAnnounce cfg \<or> jc_HandleScrape cfg"
    using ks [OF that] by (cases "jl_NewStorageFromHTTP lib (jc_JWKSetURL cfg) (jc_JWKUpdateInterval cfg)") (auto simp: h)
qed

text \<open>
  C21: Announces behind the JWT hook. With the hook that a configuration makes in front of the
  other hooks, an announce is handled as without it exactly when the token of the request
  verifies for the configured audience and issuer and its claim is the info hash of the
  request; any other announce is refused with an error meant for the client, before any hook
  or the storage is reached, and the hook never panics.
\<close>

theorem jwt_announce_correct:
  assumes "jwt_build lib (Inr cfg) = Inr h" and "jc_HandleAnnounce cfg"
  shows "\<exists>jwks. jl_NewStorageFromHTTP lib (jc_JWKSetURL cfg) (jc_JWKUpdateInterval cfg) = Inr jwks \<and>
    Logic_HandleAnnounce (NewLogic ai mi st (Some (jwtHook lib h) # pre) post) c req s =
     (let token = token_of cfg (areq_Params req) in
      if token = [] then Ret (Inl ErrMissingJWT, s)
      else if \<exists>claim. jl_ParseAnnounce lib (parser_of cfg) jwks c token = Inr claim \<and> NewInfoHash claim = Inr (areq_InfoHash req)
      then Logic_HandleAnnounce (NewLogic ai mi st pre post) c req s
      else Ret (Inl ErrInvalidJWT, s))"
proof -
  note ok = jwt_build_ok [OF assms(1)]
  obtain ks where ks: "jh_jwks h = Some ks" "jl_NewStorageFromHTTP lib (jc_JWKSetURL cfg) (jc_JWKUpdateInterval cfg) = Inr ks"
    using ok(5) assms(2) by auto
  show ?thesis
    by (intro exI conjI, rule ks(2))
      (simp add: Logic_HandleAnnounce_NewLogic jwtHook_def jwt_HandleAnnounce_def Let_def ks(1) assms(2) ok(1,3,4) split: sum.split)
qed

text \<open>
  C22: Scrapes behind the JWT hook. A scrape is accepted exactly when its token verifies, the
  valid info hashes of the claim are as many as those of the request, and each of the request
  is among them. For a request without duplicates this says that the two are the same up to
  their order; a request that repeats one hash passes with a claim that names others.
\<close>

theorem jwt_scrape_correct:
  assumes "jwt_build lib (Inr cfg) = Inr h" and "jc_HandleScrape cfg"
  shows "\<exists>jwks. jl_NewStorageFromHTTP lib (jc_JWKSetURL cfg) (jc_JWKUpdateInterval cfg) = Inr jwks \<and>
    jwt_HandleScrape lib h c req resp s =
     (let token = token_of cfg (sreq_Params req); ihs = sreq_InfoHashes req in
      if token = [] then Ret (Inl ErrMissingJWT, s)
      else case jl_ParseScrape lib (parser_of cfg) jwks c token of Inl e \<Rightarrow> Ret (Inl ErrInvalidJWT, s)
        | Inr claims \<Rightarrow> Ret (if (if distinct ihs then mset ihs = mset (claim_hashes claims)
               else length ihs = length (claim_hashes claims) \<and> set ihs \<subseteq> set (claim_hashes claims))
             then Inr (c, req, resp) else Inl ErrInvalidJWT, s))"
proof -
  note ok = jwt_build_ok [OF assms(1)]
  obtain ks where ks: "jh_jwks h = Some ks" "jl_NewStorageFromHTTP lib (jc_JWKSetURL cfg) (jc_JWKUpdateInterval cfg) = Inr ks"
    using ok(5) assms(2) by auto
  have perm: "mset ihs = mset cs \<longleftrightarrow> length ihs = length cs \<and> set ihs \<subseteq> set cs" if "distinct ihs" for ihs cs :: "infohash list"
    using distinct_subset_mset [OF that] mset_eq_length mset_eq_setD by (metis subset_refl)
  show ?thesis
    by (intro exI conjI, rule ks(2))
      (simp add: jwt_HandleScrape_def Let_def all_found_iff perm ks(1) assms(2) ok(2-4) split: sum.split)
qed

subsection \<open>Witnesses\<close>

definition example_jwt :: "nat jwt_lib" where
  "example_jwt = \<lparr>jl_NewStorageFromHTTP = \<lambda>u d. Inr 5,
     jl_ParseAnnounce = \<lambda>p ks c t. if t = [9] then Inr (replicate 20 1) else Inl Canceled,
     jl_ParseScrape = \<lambda>p ks c t. if t = [9] then Inr [replicate 20 1, replicate 20 2, [7]] else Inl Canceled\<rparr>"

definition example_jwt_config :: JwtConfig where
  "example_jwt_config = \<lparr>jc_Header = [], jc_Issuer = [1], jc_Audience = [2], jc_JWKSetURL = [3],
     jc_JWKUpdateInterval = 0, jc_HandleAnnounce = True, jc_HandleScrape = True\<rparr>"

lemma example_jwt_build: "\<exists>h. jwt_build example_jwt (Inr example_jwt_config) = Inr h"
  by (simp add: jwt_build_def example_jwt_def example_jwt_config_def Let_def)

lemma example_jwt_token:
  "token_of example_jwt_config (Some (\<lambda>k. if k = authorizationHeader then Some (str ''Bearer '' @ [9]) else None)) = [9]"
  by (simp add: token_of_def example_jwt_config_def has_bearer_def bearerAuthPrefix_def str_def lower_byte_def Let_def)

definition example_jwt_announce :: AnnounceRequest where
  "example_jwt_announce = example_request\<lparr>areq_InfoHash := replicate 20 2,
     areq_Params := Some (\<lambda>k. if k = authorizationHeader then Some (str ''Bearer '' @ [9]) else None)\<rparr>"

theorem jwt_announce_correct_witness:
  "\<exists>h. jwt_build example_jwt (Inr example_jwt_config) = Inr h \<and>
     Logic_HandleAnnounce (NewLogic 1 1 (memory_storage 7 rev) [Some (jwtHook example_jwt h)] []) Background
       example_jwt_announce (NewPeerStorage 1) = Ret (Inl ErrInvalidJWT, NewPeerStorage 1)"
proof -
  obtain h where h: "jwt_build example_jwt (Inr example_jwt_config) = Inr h" using example_jwt_build by blast
  have a: "jc_HandleAnnounce example_jwt_config" by (simp add: example_jwt_config_def)
  have t: "token_of example_jwt_config (areq_Params example_jwt_announce) = [9]"
    by (simp add: example_jwt_announce_def example_jwt_token)
  have p: "jl_ParseAnnounce example_jwt p ks c [9] = Inr (replicate 20 1)" for p ks c
    by (simp add: example_jwt_def)
  have i: "NewInfoHash (replicate 20 1) = Inr (replicate 20 1)" by (simp add: NewInfoHash_def len_defs)
  have "replicate 20 (1 :: byte) ! 0 \<noteq> replicate 20 2 ! 0" by simp
  then have n: "replicate 20 1 \<noteq> areq_InfoHash example_jwt_announce"
    by (auto simp: example_jwt_announce_def)
  show ?thesis
    using jwt_announce_correct [OF h a, of 1 1 "memory_storage 7 rev" "[]" "[]" Background
        example_jwt_announce "NewPeerStorage 1"] h n
    by (simp add: Let_def t p i)
qed

definition example_jwt_scrape :: ScrapeRequest where
  "example_jwt_scrape = \<lparr>sreq_RequestAddresses = [], sreq_InfoHashes = [replicate 20 1, replicate 20 1],
     sreq_Params = Some (\<lambda>k. if k = authorizationHeader then Some (str ''Bearer '' @ [9]) else None)\<rparr>"

theorem jwt_scrape_correct_witness:
  "\<exists>h. jwt_build example_jwt (Inr example_jwt_config) = Inr h \<and>
     jwt_HandleScrape example_jwt h Background example_jwt_scrape \<lparr>sresp_Data = []\<rparr> (0 :: nat) =
       Ret (Inr (Background, example_jwt_scrape, \<lparr>sresp_Data = []\<rparr>), 0)"
proof -
  obtain h where h: "jwt_build example_jwt (Inr example_jwt_config) = Inr h" using example_jwt_build by blast
  have a: "jc_HandleScrape example_jwt_config" by (simp add: example_jwt_config_def)
  have t: "token_of example_jwt_config (sreq_Params example_jwt_scrape) = [9]"
    by (simp add: example_jwt_scrape_def example_jwt_token)
  have p: "jl_ParseScrape example_jwt p ks c [9] = Inr [replicate 20 1, replicate 20 2, [7]]" for p ks c
    by (simp add: example_jwt_def)
  have i: "sreq_InfoHashes example_jwt_scrape = [replicate 20 1, replicate 20 1]"
    "claim_hashes [replicate 20 1, replicate 20 2, [7]] = [replicate 20 1, replicate 20 2]"
    by (simp_all add: example_jwt_scrape_def NewInfoHash_def len_defs)
  show ?thesis
    using jwt_scrape_correct [OF h a, of Background example_jwt_scrape "\<lparr>sresp_Data = []\<rparr>" "0 :: nat"] h
    by (simp add: Let_def t p i del: claim_hashes.simps)
qed

end
