(* ===== verification/VarInterval.thy ===== *)
theory VarInterval
  imports MiddlewareProps Pkg "HOL-Library.Log_Nat"
begin

section \<open>The interval variation hook, \<open>middleware/varinterval\<close>\<close>

text \<open>
  A hook that adds a pseudo-random number of seconds to the announce interval of some
  requests. The decision compares two \<open>float32\<close> values; a finite one is its exact rational
  value, and the two conversions that round, to \<open>float64\<close> and to \<open>float32\<close>, round to the
  nearest value with 53 and 24 significant bits, ties to even. The divisor
  \<open>math.MaxUint64\<close> is the \<open>float64\<close> constant \<open>2 ^ 64\<close>, so the division is exact, and the
  quotients are far from the underflow of both formats.
\<close>

subsection \<open>Floating point numbers\<close>

datatype float32 = F_NaN | F_NegInf | F_Fin rat | F_PosInf

fun f_less :: "float32 \<Rightarrow> float32 \<Rightarrow> bool" where
  "f_less (F_Fin x) (F_Fin y) = (x < y)"
| "f_less F_NegInf y = (y \<noteq> F_NaN \<and> y \<noteq> F_NegInf)"
| "f_less x F_PosInf = (x \<noteq> F_NaN \<and> x \<noteq> F_PosInf)"
| "f_less x y = False"

definition f_leq :: "float32 \<Rightarrow> float32 \<Rightarrow> bool" where
  "f_leq x y = (f_less x y \<or> x = y \<and> x \<noteq> F_NaN)"

definition round_even :: "nat \<Rightarrow> nat \<Rightarrow> nat" where
  "round_even n e =
     (let q = n div 2 ^ e; r = n mod 2 ^ e
      in if 2 * r < 2 ^ e \<or> 2 * r = 2 ^ e \<and> even q then q else q + 1)"

definition round_to :: "nat \<Rightarrow> nat \<Rightarrow> nat" where
  "round_to k n = (let e = floorlog 2 n - k in round_even n e * 2 ^ e)"

definition unit_float :: "u64 \<Rightarrow> float32" where
  "unit_float p = F_Fin (of_nat (round_to 24 (round_to 53 (unat p))) / 2 ^ 64)"

subsection \<open>Configuration\<close>

definition ErrInvalidModifyResponseProbability :: goerror where
  "ErrInvalidModifyResponseProbability = OtherError ''invalid modify_response_probability''"
definition ErrInvalidMaxIncreaseDelta :: goerror where
  "ErrInvalidMaxIncreaseDelta = OtherError ''invalid max_increase_delta''"

record VarConfig =
  vc_ModifyResponseProbability :: float32
  vc_MaxIncreaseDelta :: int
  vc_ModifyMinInterval :: bool

definition checkConfig :: "VarConfig \<Rightarrow> err" where
  "checkConfig cfg =
     (if f_leq (vc_ModifyResponseProbability cfg) (F_Fin 0) \<or> f_less (F_Fin 1) (vc_ModifyResponseProbability cfg)
      then Some ErrInvalidModifyResponseProbability
      else if vc_MaxIncreaseDelta cfg \<le> 0 then Some ErrInvalidMaxIncreaseDelta
      else None)"

subsection \<open>Handling\<close>

definition deriveEntropyFromRequest :: "AnnounceRequest \<Rightarrow> u64 \<times> u64" where
  "deriveEntropyFromRequest req =
     (let ih = areq_InfoHash req; pid = rp_ID (areq_RequestPeer req)
      in (if length ih \<ge> InfoHashV1Len then be_word (take 8 ih) + be_word (take 8 (drop 8 ih)) else 0,
          be_word (take 8 pid) + be_word (take 8 (drop 8 pid))))"

definition varinterval_HandleAnnounce ::
  "VarConfig \<Rightarrow> ctx \<Rightarrow> AnnounceRequest \<Rightarrow> AnnounceResponse \<Rightarrow> 's \<Rightarrow> 's announce_result" where
  "varinterval_HandleAnnounce cfg c req resp s =
     (let (e0, e1) = deriveEntropyFromRequest req;
          (p, s0, s1) = XoRoShiRo128SS e0 e1
      in if f_less (unit_float p) (vc_ModifyResponseProbability cfg)
         then let (v, _, _) = XoRoShiRo128SS s0 s1;
                  m = (word_of_int (vc_MaxIncreaseDelta cfg) :: u64)
              in if m = 0 then Panic ''integer divide by zero''
                 else let add = wrap64 (wrap64 (uint (v mod m + 1)) * second);
                          resp1 = resp\<lparr>aresp_Interval := wrap64 (aresp_Interval resp + add)\<rparr>;
                          resp2 = (if vc_ModifyMinInterval cfg
                                   then resp1\<lparr>aresp_MinInterval := wrap64 (aresp_MinInterval resp1 + add)\<rparr>
                                   else resp1)
                      in Ret (Inr (c, req, resp2), s)
         else Ret (Inr (c, req, resp), s))"

definition varinterval_HandleScrape ::
  "ctx \<Rightarrow> ScrapeRequest \<Rightarrow> ScrapeResponse \<Rightarrow> 's \<Rightarrow> 's scrape_result" where
  "varinterval_HandleScrape c req resp s = Ret (Inr (c, req, resp), s)"

definition varintervalHook :: "VarConfig \<Rightarrow> 's Hook" where
  "varintervalHook cfg = \<lparr>hook_HandleAnnounce = varinterval_HandleAnnounce cfg,
     hook_HandleScrape = varinterval_HandleScrape, hook_Ping = None\<rparr>"

text \<open>
  The error of \<open>checkConfig\<close> is a variable of its own in the inner block, so the named result
  stays nil: a rejected configuration gives a nil hook and no error.
\<close>

definition varinterval_build :: "goerror + VarConfig \<Rightarrow> goerror + 's Hook option" where
  "varinterval_build config =
     (case config of Inl e \<Rightarrow> Inl e
      | Inr cfg \<Rightarrow> (case checkConfig cfg of None \<Rightarrow> Inr (Some (varintervalHook cfg)) | Some e \<Rightarrow> Inr None))"

subsection \<open>Rounding\<close>

lemma round_even_le:
  assumes "n \<le> m * 2 ^ e"
  shows "round_even n e \<le> m"
proof -
  have d: "n = n div 2 ^ e * 2 ^ e + n mod 2 ^ e" by (rule div_mult_mod_eq [symmetric])
  show ?thesis
  proof (cases "n mod 2 ^ e = 0")
    case True
    then have "round_even n e = n div 2 ^ e" by (simp add: round_even_def)
    then show ?thesis using assms div_le_mono [OF assms, of "2 ^ e"] by simp
  next
    case False
    then have "n div 2 ^ e * 2 ^ e < m * 2 ^ e" using assms d by linarith
    then have "n div 2 ^ e < m" by simp
    then show ?thesis by (auto simp: round_even_def Let_def)
  qed
qed

lemma floorlog_le: "0 < n \<Longrightarrow> n < 2 ^ k \<Longrightarrow> floorlog 2 n \<le> k"
  by (simp add: floorlog_le_iff)

text \<open>Rounding to \<open>k\<close> bits does not leave a power of two.\<close>

lemma round_to_le:
  assumes "n \<le> 2 ^ j" and "k \<le> j" and "0 < k"
  shows "round_to k n \<le> 2 ^ j"
proof (cases "n = 0")
  case True
  then show ?thesis by (simp add: round_to_def round_even_def)
next
  case False
  define e where "e = floorlog 2 n - k"
  have "n \<le> 2 ^ (j - e) * 2 ^ e" if "e \<le> j"
    using that assms(1) by (simp flip: power_add)
  moreover have "e \<le> j"
  proof (cases "n = 2 ^ j")
    case True
    then show ?thesis using assms floorlog_power [of 1 2 j] compute_floorlog [of 2 1] by (simp add: e_def floorlog_def)
  next
    case False
    then have "floorlog 2 n \<le> j" using assms(1) \<open>n \<noteq> 0\<close> by (intro floorlog_le) auto
    then show ?thesis by (simp add: e_def)
  qed
  ultimately have "round_even n e * 2 ^ e \<le> 2 ^ (j - e) * 2 ^ e" by (intro mult_right_mono round_even_le) simp_all
  then show ?thesis using \<open>e \<le> j\<close> by (simp add: round_to_def e_def [symmetric] flip: power_add)
qed

lemma unit_float_range: "\<exists>q. unit_float p = F_Fin q \<and> 0 \<le> q \<and> q \<le> 1"
proof -
  have "unat p \<le> 2 ^ 64" using unsigned_less [of p, where ?'a = nat] by simp
  then have "round_to 24 (round_to 53 (unat p)) \<le> 2 ^ 64" by (intro round_to_le) simp_all
  then have "(of_nat (round_to 24 (round_to 53 (unat p))) :: rat) \<le> of_nat (2 ^ 64)" by (simp only: of_nat_le_iff)
  then have "(of_nat (round_to 24 (round_to 53 (unat p))) / 2 ^ 64 :: rat) \<le> 1" by simp
  then show ?thesis unfolding unit_float_def by (intro exI conjI) (rule refl, simp_all)
qed

lemma floorlog_eq:
  assumes "2 ^ k \<le> n" and "n < 2 ^ Suc k"
  shows "floorlog 2 n = Suc k"
proof -
  have n: "0 < n" using assms(1) by (simp add: less_le_trans [of 0 "2 ^ k"])
  have "floorlog 2 n \<le> Suc k" using floorlog_le [OF n assms(2)] .
  moreover have "\<not> floorlog 2 n \<le> k" using assms(1) n by (simp add: floorlog_le_iff)
  ultimately show ?thesis by simp
qed

lemma unit_float_max: "unit_float (- 1) = F_Fin 1"
proof -
  have u: "unat (- 1 :: u64) = 2 ^ 64 - 1" by (simp add: unsigned_minus_1_eq_mask mask_eq_exp_minus_1)
  have a: "round_to 53 (2 ^ 64 - 1) = 2 ^ 64"
    using floorlog_eq [of 63 "2 ^ 64 - 1"] by (simp add: round_to_def round_even_def)
  have b: "round_to 24 (2 ^ 64) = 2 ^ 64"
    using floorlog_eq [of 64 "2 ^ 64"] by (simp add: round_to_def round_even_def)
  show ?thesis unfolding unit_float_def u a b by simp
qed

subsection \<open>Properties\<close>

text \<open>The number of seconds that the hook adds for a request, zero for none.\<close>

definition added_seconds :: "VarConfig \<Rightarrow> AnnounceRequest \<Rightarrow> nat" where
  "added_seconds cfg req =
     (let (e0, e1) = deriveEntropyFromRequest req; (p, s0, s1) = XoRoShiRo128SS e0 e1
      in if f_less (unit_float p) (vc_ModifyResponseProbability cfg)
         then unat (fst (XoRoShiRo128SS s0 s1)) mod nat (vc_MaxIncreaseDelta cfg) + 1 else 0)"

lemma increase_delta:
  fixes v :: u64
  assumes "0 < m" and "m \<le> 9223372036"
  shows "(word_of_int m :: u64) \<noteq> 0"
    "wrap64 (wrap64 (uint (v mod word_of_int m + 1)) * second) = (1 + int (unat v mod nat m)) * second"
proof -
  have u: "uint (word_of_int m :: u64) = m" using assms by (simp add: uint_word_of_int)
  then show "(word_of_int m :: u64) \<noteq> 0" using assms(1) by auto
  have a: "uint (v mod word_of_int m) = uint v mod m" by (simp add: uint_mod_distrib u)
  have b: "0 \<le> uint v mod m" "uint v mod m < m" using assms(1) by simp_all
  have c: "uint (v mod word_of_int m + 1) = uint v mod m + 1"
    using b assms(2) by (simp add: uint_add_lem [THEN iffD1] a)
  have d: "int (unat v mod nat m) = uint v mod m" using assms(1) by (simp add: zmod_int)
  have "(uint v mod m + 1) * second \<le> 9223372036 * second" using b assms(2) by (intro mult_right_mono) (simp_all add: second_def)
  then show "wrap64 (wrap64 (uint (v mod word_of_int m + 1)) * second) = (1 + int (unat v mod nat m)) * second"
    using b assms(2) by (simp add: c d wrap64_id second_def)
qed

lemma varinterval_eq:
  assumes "checkConfig cfg = None" and "vc_MaxIncreaseDelta cfg \<le> 9223372036"
  shows "varinterval_HandleAnnounce cfg c req resp s =
     Ret (Inr (c, req,
       if added_seconds cfg req = 0 then resp
       else resp\<lparr>aresp_Interval := wrap64 (aresp_Interval resp + int (added_seconds cfg req) * second),
              aresp_MinInterval := if vc_ModifyMinInterval cfg
                then wrap64 (aresp_MinInterval resp + int (added_seconds cfg req) * second) else aresp_MinInterval resp\<rparr>), s)"
proof -
  have m: "0 < vc_MaxIncreaseDelta cfg" using assms(1) by (auto simp: checkConfig_def split: if_splits)
  show ?thesis
    by (simp add: varinterval_HandleAnnounce_def added_seconds_def Let_def increase_delta [OF m assms(2)]
        split: prod.split)
qed

text \<open>
  C37: What the interval variation hook changes. With a configuration that passes the check and
  a maximum below the range of durations, an announce is never refused, only the intervals of
  its response change, by a whole number of seconds between one and the maximum, and the
  minimum interval by the same number when it is to be modified. Which number depends on the
  info hash and the peer ID only, so a client that asks again gets the same interval.
\<close>

theorem varinterval_correct:
  fixes req :: AnnounceRequest
  assumes "checkConfig cfg = None" and "vc_MaxIncreaseDelta cfg \<le> 9223372036"
    and "0 \<le> aresp_Interval resp" and "aresp_Interval resp < 2 ^ 63 - vc_MaxIncreaseDelta cfg * second"
    and "0 \<le> aresp_MinInterval resp" and "aresp_MinInterval resp < 2 ^ 63 - vc_MaxIncreaseDelta cfg * second"
  shows "\<exists>k :: nat. int k \<le> vc_MaxIncreaseDelta cfg \<and>
    (\<forall>c s req'. areq_InfoHash req' = areq_InfoHash req \<longrightarrow>
       rp_ID (areq_RequestPeer req') = rp_ID (areq_RequestPeer req) \<longrightarrow>
       varinterval_HandleAnnounce cfg c req' resp (s :: 's) = Ret (Inr (c, req',
         resp\<lparr>aresp_Interval := aresp_Interval resp + int k * second,
              aresp_MinInterval := aresp_MinInterval resp + (if vc_ModifyMinInterval cfg then int k * second else 0)\<rparr>), s))"
proof -
  let ?k = "added_seconds cfg req" and ?m = "vc_MaxIncreaseDelta cfg"
  have m: "0 < ?m" using assms(1) by (auto simp: checkConfig_def split: if_splits)
  have k: "int ?k \<le> ?m"
  proof -
    have "1 + int (x mod nat ?m) \<le> ?m" for x
    proof -
      have "int (x mod nat ?m) < ?m" using m by (simp add: zmod_int)
      then show ?thesis by linarith
    qed
    then show ?thesis using m by (simp add: added_seconds_def Let_def split: prod.split)
  qed
  have "int ?k * second \<le> ?m * second" using k by (intro mult_right_mono) (simp_all add: second_def)
  then have w: "wrap64 (x + int ?k * second) = x + int ?k * second" if "0 \<le> x" "x < 2 ^ 63 - ?m * second" for x
    using that by (intro wrap64_id) (simp_all add: second_def)
  have same: "added_seconds cfg req' = ?k" if "areq_InfoHash req' = areq_InfoHash req"
      "rp_ID (areq_RequestPeer req') = rp_ID (areq_RequestPeer req)" for req'
    using that by (simp add: added_seconds_def deriveEntropyFromRequest_def)
  have "varinterval_HandleAnnounce cfg c req' resp s = Ret (Inr (c, req',
      resp\<lparr>aresp_Interval := aresp_Interval resp + int ?k * second,
           aresp_MinInterval := aresp_MinInterval resp + (if vc_ModifyMinInterval cfg then int ?k * second else 0)\<rparr>), s)"
    if "areq_InfoHash req' = areq_InfoHash req" "rp_ID (areq_RequestPeer req') = rp_ID (areq_RequestPeer req)"
    for c req' and s :: 's
    unfolding varinterval_eq [OF assms(1,2)] same [OF that] w [OF assms(3,4)] w [OF assms(5,6)] by simp
  then show ?thesis using k by blast
qed

text \<open>
  The probability is not below one. The comment of the handler says that it generates
  \<open>p < 1.0\<close>; the two roundings make a \<open>p\<close> of exactly one. There is an announce that no
  accepted configuration ever modifies, also with the probability one.
\<close>

theorem varinterval_probability_one:
  "\<exists>req. length (areq_InfoHash req) = InfoHashV1Len \<and> length (rp_ID (areq_RequestPeer req)) = PeerIDLen \<and>
     (\<forall>cfg c resp s. checkConfig cfg = None \<longrightarrow>
        varinterval_HandleAnnounce cfg c req resp (s :: 's) = Ret (Inr (c, req, resp), s))"
proof -
  define x :: u64 where "x = 0x4FC71C71C71C71C7"
  define req where "req = example_request\<lparr>areq_InfoHash := be_bytes 8 x @ replicate 12 0,
     areq_RequestPeer := (areq_RequestPeer example_request)\<lparr>rp_ID := replicate 20 0\<rparr>\<rparr>"
  have "be_word (replicate n 0) = (0 :: u64)" for n
    by (induction n) (simp_all add: be_word_def)
  then have e: "fst (deriveEntropyFromRequest req) = x"
    by (simp add: deriveEntropyFromRequest_def req_def len_defs be_word_be_bytes_full Let_def)
  have r: "fst (XoRoShiRo128SS x y) = - 1" for y
  proof -
    have a: "x * 5 = 0x8EE38E38E38E38E3" by (simp add: x_def)
    have b: "push_bit 7 (0x8EE38E38E38E38E3 :: u64) = 0x71C71C71C71C7180" "drop_bit 57 (0x8EE38E38E38E38E3 :: u64) = 0x47"
      by simp_all
    have c: "(0x71C71C71C71C7180 OR 0x47 :: u64) = 0x71C71C71C71C71C7" by simp
    have d: "(0x71C71C71C71C71C7 * 9 :: u64) = - 1" by simp
    show ?thesis unfolding XoRoShiRo128SS_def Let_def fst_conv a b c d ..
  qed
  have n: "\<not> f_less (F_Fin 1) q" if "\<not> f_leq q (F_Fin 0) \<and> \<not> f_less (F_Fin 1) q" for q using that by simp
  have "varinterval_HandleAnnounce cfg c req resp s = Ret (Inr (c, req, resp), s)" if "checkConfig cfg = None" for cfg c resp and s :: 's
  proof -
    obtain y where y: "deriveEntropyFromRequest req = (x, y)" using e by (metis prod.collapse)
    obtain z where z: "XoRoShiRo128SS x y = (- 1, z)" using r [of y] by (metis prod.collapse)
    have "\<not> f_less (F_Fin 1) (vc_ModifyResponseProbability cfg)"
      using that by (auto simp: checkConfig_def split: if_splits)
    then show ?thesis by (simp add: varinterval_HandleAnnounce_def y z unit_float_max split: prod.split)
  qed
  then show ?thesis by (intro exI [of _ req]) (simp add: req_def len_defs PeerIDLen_def)
qed

text \<open>
  An invalid configuration of the interval variation hook. Building the hooks reports no
  error for it, and the tracker that is made of them panics on its first announce.
\<close>

theorem varinterval_invalid_config:
  fixes st :: "'s PeerStorage" and cfg :: VarConfig
  assumes "checkConfig cfg \<noteq> None"
    and "m_get builders name = Some (\<lambda>conf ps. varinterval_build conf)"
  shows "NewHooks builders [(name, Inr cfg)] ps = ([None], None) \<and>
    Logic_HandleAnnounce (NewLogic ai mi st (fst (NewHooks builders [(name, Inr cfg)] ps)) post) c req s = Panic nil_deref"
  using assms by (auto simp: varinterval_build_def Logic_HandleAnnounce_NewLogic)

subsection \<open>Witnesses\<close>

definition example_var_config :: VarConfig where
  "example_var_config = \<lparr>vc_ModifyResponseProbability = F_Fin 1, vc_MaxIncreaseDelta = 60, vc_ModifyMinInterval = True\<rparr>"

theorem varinterval_correct_witness:
  "\<exists>k :: nat. k \<le> 60 \<and>
     varinterval_HandleAnnounce example_var_config Background example_request (start_response (1800 * second) (900 * second)) (0 :: nat) =
       Ret (Inr (Background, example_request, start_response ((1800 + int k) * second) ((900 + int k) * second)), 0)"
proof -
  have c: "checkConfig example_var_config = None" "vc_MaxIncreaseDelta example_var_config = 60"
    "vc_ModifyMinInterval example_var_config"
    by (simp_all add: checkConfig_def example_var_config_def f_leq_def)
  have u: "(start_response a b)\<lparr>aresp_Interval := a', aresp_MinInterval := b'\<rparr> = start_response a' b'"
    "aresp_Interval (start_response a b) = a" "aresp_MinInterval (start_response a b) = b" for a b a' b'
    by (simp_all add: start_response_def)
  obtain k :: nat where "int k \<le> 60" "varinterval_HandleAnnounce example_var_config Background example_request
      (start_response (1800 * second) (900 * second)) (0 :: nat) = Ret (Inr (Background, example_request,
        start_response (1800 * second + int k * second) (900 * second + int k * second)), 0)"
    using varinterval_correct [OF c(1), where resp = "start_response (1800 * second) (900 * second)" and
        req = example_request and ?'s = nat] by (auto simp: c u second_def)
  then show ?thesis by (intro exI [of _ k]) (simp add: distrib_right)
qed

theorem varinterval_probability_one_witness:
  "\<exists>req. varinterval_HandleAnnounce example_var_config Background req (start_response 1 1) (0 :: nat) =
     Ret (Inr (Background, req, start_response 1 1), 0)"
proof -
  have "checkConfig example_var_config = None" by (simp add: checkConfig_def example_var_config_def f_leq_def)
  then show ?thesis using varinterval_probability_one [where ?'s = nat] by blast
qed

theorem varinterval_invalid_config_witness:
  "Logic_HandleAnnounce (NewLogic 1 1 (memory_storage 7 rev)
     (fst (NewHooks [([1], \<lambda>conf ps. varinterval_build conf)]
        [([1], Inr (example_var_config\<lparr>vc_MaxIncreaseDelta := 0\<rparr>))] ())) []) Background example_request (NewPeerStorage 1)
   = Panic nil_deref"
proof -
  have c: "checkConfig (example_var_config\<lparr>vc_MaxIncreaseDelta := 0\<rparr>) \<noteq> None"
    by (simp add: checkConfig_def example_var_config_def)
  have m: "m_get [([1], \<lambda>conf ps. varinterval_build conf)] [1] = Some (\<lambda>conf ps. varinterval_build conf)"
    by (simp add: m_get_def)
  show ?thesis by (rule conjunct2 [OF varinterval_invalid_config [OF c m]])
qed

end
