(* ===== verification/Redis.thy ===== *)
theory Redis
  imports StorageSpec Bencode
begin

section \<open>Package \<open>storage/redis\<close>: the Redis driver\<close>

text \<open>
  \<open>storage/redis/storage.go\<close>: keys and serialized peers, the peer and data operations, the
  garbage collection, the configuration and the connection. The Redis server and its client
  package are not part of the sources: \<open>redis\<close> is a record of the commands the driver sends,
  over the state \<open>'r\<close> of the server; what is documented of them is stated in the theory
  \<open>RedisProps\<close>.
\<close>

subsection \<open>Keys\<close>

definition PrefixKey :: bytes where "PrefixKey = str ''CHI_''"
definition IHKey :: bytes where "IHKey = str ''CHI_I''"
definition IH4SeederKey :: bytes where "IH4SeederKey = str ''CHI_S4_''"
definition IH6SeederKey :: bytes where "IH6SeederKey = str ''CHI_S6_''"
definition IH4LeecherKey :: bytes where "IH4LeecherKey = str ''CHI_L4_''"
definition IH6LeecherKey :: bytes where "IH6LeecherKey = str ''CHI_L6_''"
definition CountSeederKey :: bytes where "CountSeederKey = str ''CHI_C_S''"
definition CountLeecherKey :: bytes where "CountLeecherKey = str ''CHI_C_L''"
definition CountDownloadsKey :: bytes where "CountDownloadsKey = str ''CHI_D''"

definition InfoHashKey :: "bytes \<Rightarrow> bool \<Rightarrow> bool \<Rightarrow> bytes" where
  "InfoHashKey infoHash seeder v6 =
     (if seeder then (if v6 then IH6SeederKey else IH4SeederKey)
      else (if v6 then IH6LeecherKey else IH4LeecherKey)) @ infoHash"

subsection \<open>Serialized peers\<close>

definition PackPeer :: "Peer \<Rightarrow> bytes" where
  "PackPeer p = take PeerIDLen (peer_ID p) @ be_bytes 2 (Peer_Port p) @ AsSlice (Peer_Addr p)"

definition peerMinimumLen :: nat where "peerMinimumLen = PeerIDLen + 2 + 4"

definition errInvalidPeerDataSize :: goerror where
  "errInvalidPeerDataSize = OtherError ''invalid peer data (must be at least 26 bytes (InfoHash + Port + IPv4))''"

definition UnpackPeer :: "bytes \<Rightarrow> goerror + Peer" where
  "UnpackPeer b =
     (if length b < peerMinimumLen then Inl errInvalidPeerDataSize
      else case NewPeerID (take PeerIDLen b) of Inl e \<Rightarrow> Inl e
        | Inr peerID \<Rightarrow>
            (case AddrFromSlice (drop (PeerIDLen + 2) b) of
               None \<Rightarrow> Inl ErrInvalidIP
             | Some addr \<Rightarrow> Inr \<lparr>peer_ID = peerID,
                 peer_AddrPort = \<lparr>ap_addr = Unmap addr, ap_port = be_word (take 2 (drop PeerIDLen b))\<rparr>\<rparr>))"

subsection \<open>The server\<close>

text \<open>The commands that are sent in a transaction.\<close>

datatype rcmd =
    C_HSet bytes "(bytes \<times> bytes) list"
  | C_HDel bytes "bytes list"
  | C_Incr bytes
  | C_Decr bytes
  | C_SAdd bytes "bytes list"
  | C_HIncrBy bytes bytes int

text \<open>
  \<open>r_Queue\<close> is what the pipeline returns for a command while it is queued, and \<open>r_Exec\<close> the
  execution of a queue: the errors of the commands, the error of the transaction, and the
  server after it. \<open>r_Int64\<close> and \<open>r_Uint64\<close> convert a reply to an
  integer.
\<close>

record 'r redis =
  r_Ping :: "'r \<Rightarrow> err"
  r_HSet :: "'r \<Rightarrow> bytes \<Rightarrow> (bytes \<times> bytes) list \<Rightarrow> err \<times> 'r"
  r_HDel :: "'r \<Rightarrow> bytes \<Rightarrow> bytes list \<Rightarrow> int \<times> err \<times> 'r"
  r_HGet :: "'r \<Rightarrow> bytes \<Rightarrow> bytes \<Rightarrow> bytes \<times> err"
  r_HExists :: "'r \<Rightarrow> bytes \<Rightarrow> bytes \<Rightarrow> bool \<times> err"
  r_HLen :: "'r \<Rightarrow> bytes \<Rightarrow> int \<times> err"
  r_HGetAll :: "'r \<Rightarrow> bytes \<Rightarrow> (bytes, bytes) gomap \<times> err"
  r_HRandField :: "'r \<Rightarrow> bytes \<Rightarrow> int \<Rightarrow> bytes list \<times> err"
  r_Get :: "'r \<Rightarrow> bytes \<Rightarrow> bytes \<times> err"
  r_Decr :: "'r \<Rightarrow> bytes \<Rightarrow> err \<times> 'r"
  r_DecrBy :: "'r \<Rightarrow> bytes \<Rightarrow> int \<Rightarrow> err \<times> 'r"
  r_SMembers :: "'r \<Rightarrow> bytes \<Rightarrow> bytes list \<times> err"
  r_SCard :: "'r \<Rightarrow> bytes \<Rightarrow> int \<times> err"
  r_SRem :: "'r \<Rightarrow> bytes \<Rightarrow> bytes list \<Rightarrow> int \<times> err \<times> 'r"
  r_Watch :: "'r \<Rightarrow> bytes \<Rightarrow> err"
  r_Queue :: "rcmd \<Rightarrow> int \<times> err"
  r_Exec :: "'r \<Rightarrow> rcmd list \<Rightarrow> err list \<times> err \<times> 'r"
  r_Int64 :: "bytes \<times> err \<Rightarrow> int \<times> err"
  r_Uint64 :: "bytes \<times> err \<Rightarrow> int \<times> err"

definition redis_Nil :: goerror where "redis_Nil = OtherError ''redis: nil''"

definition NoResultErr :: "err \<Rightarrow> err" where
  "NoResultErr e = (if e = None \<or> e = Some redis_Nil then None else e)"

definition queue_cmd :: "'r redis \<Rightarrow> rcmd \<Rightarrow> rcmd list \<Rightarrow> int \<times> err \<times> rcmd list" where
  "queue_cmd R c q = (fst (r_Queue R c), snd (r_Queue R c), q @ [c])"

text \<open>
  \<open>tx\<close>: \<open>txf\<close> is given by the commands it queued and the error it returned; with an error
  nothing is executed.
\<close>

definition redis_tx :: "'r redis \<Rightarrow> 'r \<Rightarrow> err \<times> rcmd list \<Rightarrow> err \<times> 'r" where
  "redis_tx R s txf =
     (case txf of
        (Some e, q) \<Rightarrow> (Some e, s)
      | (None, q) \<Rightarrow>
          (let (pipe, txErr, s') = r_Exec R s q in
           if txErr = None
           then let errs = [err_text e. Some e \<leftarrow> pipe]
                in (if length errs > 0 then Some (OtherError (strings_Join errs ''; '')) else None, s')
           else (txErr, s')))"

subsection \<open>Peer operations\<close>

definition put_queue :: "'r redis \<Rightarrow> int \<Rightarrow> bytes \<Rightarrow> bytes \<Rightarrow> bytes \<Rightarrow> err \<times> rcmd list" where
  "put_queue R clock infoHashKey peerCountKey peerID =
     (let (_, e1, q1) = queue_cmd R (C_HSet infoHashKey [(peerID, FormatInt clock)]) [] in
      if e1 \<noteq> None then (e1, q1)
      else let (_, e2, q2) = queue_cmd R (C_Incr peerCountKey) q1 in
        if e2 \<noteq> None then (e2, q2)
        else let (_, e3, q3) = queue_cmd R (C_SAdd IHKey [infoHashKey]) q2 in (e3, q3))"

definition putPeer :: "'r redis \<Rightarrow> int \<Rightarrow> 'r \<Rightarrow> bytes \<Rightarrow> bytes \<Rightarrow> bytes \<Rightarrow> err \<times> 'r" where
  "putPeer R clock s infoHashKey peerCountKey peerID =
     redis_tx R s (put_queue R clock infoHashKey peerCountKey peerID)"

definition delPeer :: "'r redis \<Rightarrow> 'r \<Rightarrow> bytes \<Rightarrow> bytes \<Rightarrow> bytes \<Rightarrow> err \<times> 'r" where
  "delPeer R s infoHashKey peerCountKey peerID =
     (let (deleted, e, s1) = r_HDel R s infoHashKey [peerID]; e' = NoResultErr e in
      if e' = None
      then if deleted = 0 then (Some ErrResourceDoesNotExist, s1) else r_Decr R s1 peerCountKey
      else (e', s1))"

definition peer_key :: "infohash \<Rightarrow> bool \<Rightarrow> Peer \<Rightarrow> bytes" where
  "peer_key ih seeder p = InfoHashKey ih seeder (Is6 (Peer_Addr p))"

definition redis_PutSeeder :: "'r redis \<Rightarrow> int \<Rightarrow> 'r \<Rightarrow> infohash \<Rightarrow> Peer \<Rightarrow> err \<times> 'r" where
  "redis_PutSeeder R clock s ih p = putPeer R clock s (peer_key ih True p) CountSeederKey (PackPeer p)"

definition redis_DeleteSeeder :: "'r redis \<Rightarrow> 'r \<Rightarrow> infohash \<Rightarrow> Peer \<Rightarrow> err \<times> 'r" where
  "redis_DeleteSeeder R s ih p = delPeer R s (peer_key ih True p) CountSeederKey (PackPeer p)"

definition redis_PutLeecher :: "'r redis \<Rightarrow> int \<Rightarrow> 'r \<Rightarrow> infohash \<Rightarrow> Peer \<Rightarrow> err \<times> 'r" where
  "redis_PutLeecher R clock s ih p = putPeer R clock s (peer_key ih False p) CountLeecherKey (PackPeer p)"

definition redis_DeleteLeecher :: "'r redis \<Rightarrow> 'r \<Rightarrow> infohash \<Rightarrow> Peer \<Rightarrow> err \<times> 'r" where
  "redis_DeleteLeecher R s ih p = delPeer R s (peer_key ih False p) CountLeecherKey (PackPeer p)"

text \<open>Queue one more command when there is no error yet.\<close>

definition queue_next :: "'r redis \<Rightarrow> rcmd \<Rightarrow> err \<times> rcmd list \<Rightarrow> err \<times> rcmd list" where
  "queue_next R c eq = (case eq of (None, q) \<Rightarrow> (let (_, e, q') = queue_cmd R c q in (e, q')) | (Some e, q) \<Rightarrow> (Some e, q))"

definition graduate_queue :: "'r redis \<Rightarrow> int \<Rightarrow> infohash \<Rightarrow> Peer \<Rightarrow> err \<times> rcmd list" where
  "graduate_queue R clock ih p =
     (let peerID = PackPeer p;
          (deleted, e, q) = queue_cmd R (C_HDel (peer_key ih False p) [peerID]) [];
          st0 = (NoResultErr e, q);
          st1 = (if fst st0 = None \<and> deleted > 0 then queue_next R (C_Decr CountLeecherKey) st0 else st0);
          st2 = queue_next R (C_HSet (peer_key ih True p) [(peerID, FormatInt clock)]) st1;
          st3 = queue_next R (C_Incr CountSeederKey) st2;
          st4 = queue_next R (C_SAdd IHKey [peer_key ih True p]) st3
      in queue_next R (C_HIncrBy CountDownloadsKey ih 1) st4)"

definition redis_GraduateLeecher :: "'r redis \<Rightarrow> int \<Rightarrow> 'r \<Rightarrow> infohash \<Rightarrow> Peer \<Rightarrow> err \<times> 'r" where
  "redis_GraduateLeecher R clock s ih p = redis_tx R s (graduate_queue R clock ih p)"

subsection \<open>Reading a swarm\<close>

fun unpack_peers :: "bytes list \<Rightarrow> Peer list" where
  "unpack_peers [] = []"
| "unpack_peers (b # bs) = (case UnpackPeer b of Inl e \<Rightarrow> unpack_peers bs | Inr p \<Rightarrow> p # unpack_peers bs)"

definition parsePeersList :: "bytes list \<times> err \<Rightarrow> Peer list \<times> err" where
  "parsePeersList res =
     (case NoResultErr (snd res) of None \<Rightarrow> (unpack_peers (fst res), None) | Some e \<Rightarrow> ([], Some e))"

fun get_peers :: "(bytes \<Rightarrow> int \<Rightarrow> bytes list \<times> err) \<Rightarrow> bytes list \<Rightarrow> int \<Rightarrow> Peer list \<Rightarrow> Peer list \<times> err" where
  "get_peers membersFn [] maxCount out = (out, None)"
| "get_peers membersFn (k # ks) maxCount out =
     (let (peers, e) = parsePeersList (membersFn k maxCount);
          maxCount' = maxCount - int (length peers)
      in if e \<noteq> None \<or> maxCount' \<le> 0 then (out @ peers, e) else get_peers membersFn ks maxCount' (out @ peers))"

definition GetPeers ::
  "(bytes \<Rightarrow> int \<Rightarrow> bytes list \<times> err) \<Rightarrow> infohash \<Rightarrow> bool \<Rightarrow> int \<Rightarrow> bool \<Rightarrow> Peer list \<times> err" where
  "GetPeers membersFn ih forSeeder maxCount isV6 =
     (let infoHashKeys = (if forSeeder then [InfoHashKey ih False isV6]
                          else [InfoHashKey ih True isV6, InfoHashKey ih False isV6]);
          (out, e) = get_peers membersFn infoHashKeys maxCount []
      in if e = None then (out, if length out = 0 then Some ErrResourceDoesNotExist else None)
         else (out, if length out > 0 then None else e))"

definition redis_AnnouncePeers :: "'r redis \<Rightarrow> 'r \<Rightarrow> infohash \<Rightarrow> bool \<Rightarrow> int \<Rightarrow> bool \<Rightarrow> Peer list \<times> err" where
  "redis_AnnouncePeers R s ih forSeeder numWant v6 = GetPeers (r_HRandField R s) ih forSeeder numWant v6"

definition ScrapeIH ::
  "('r, 'm) redis_scheme \<Rightarrow> 'r \<Rightarrow> (bytes \<Rightarrow> int \<times> err) \<Rightarrow> infohash \<Rightarrow> u32 \<times> u32 \<times> u32 \<times> err" where
  "ScrapeIH R s countFn ih =
     (let (lc4, e1) = countFn (InfoHashKey ih False False) in
      if NoResultErr e1 \<noteq> None then (0, 0, 0, NoResultErr e1)
      else let (lc6, e2) = countFn (InfoHashKey ih False True) in
      if NoResultErr e2 \<noteq> None then (0, 0, 0, NoResultErr e2)
      else let (sc4, e3) = countFn (InfoHashKey ih True False) in
      if NoResultErr e3 \<noteq> None then (0, 0, 0, NoResultErr e3)
      else let (sc6, e4) = countFn (InfoHashKey ih True True) in
      if NoResultErr e4 \<noteq> None then (0, 0, 0, NoResultErr e4)
      else let (dc, e5) = r_Int64 R (r_HGet R s CountDownloadsKey ih) in
      if NoResultErr e5 \<noteq> None then (0, 0, 0, NoResultErr e5)
      else (word_of_int (lc4 + lc6), word_of_int (sc4 + sc6), word_of_int dc, None))"

definition redis_ScrapeSwarm :: "'r redis \<Rightarrow> 'r \<Rightarrow> infohash \<Rightarrow> u32 \<times> u32 \<times> u32 \<times> err" where
  "redis_ScrapeSwarm R s ih = ScrapeIH R s (r_HLen R s) ih"

subsection \<open>Data operations\<close>

definition argNumErrorMsg :: string where "argNumErrorMsg = ''ERR wrong number of arguments''"

fun strings_Contains :: "string \<Rightarrow> string \<Rightarrow> bool" where
  "strings_Contains [] sub = (sub = [])"
| "strings_Contains (c # cs) sub = (take (length sub) (c # cs) = sub \<or> strings_Contains cs sub)"

definition arg_num_error :: "err \<Rightarrow> bool" where
  "arg_num_error e = (case e of None \<Rightarrow> False | Some x \<Rightarrow> strings_Contains (err_text x) argNumErrorMsg)"

fun put_each :: "('r, 'm) redis_scheme \<Rightarrow> bytes \<Rightarrow> Entry list \<Rightarrow> 'r \<Rightarrow> err \<times> 'r" where
  "put_each R k [] s = (None, s)"
| "put_each R k (v # vs) s =
     (let (e, s') = r_HSet R s k [(e_Key v, e_Value v)] in
      if e \<noteq> None then (e, s') else put_each R k vs s')"

definition redis_Put :: "('r, 'm) redis_scheme \<Rightarrow> 'r \<Rightarrow> bytes \<Rightarrow> Entry list \<Rightarrow> err \<times> 'r" where
  "redis_Put R s storeCtx values =
     (if length values > 0
      then if length values = 1
        then r_HSet R s (PrefixKey @ storeCtx) [(e_Key (values ! 0), e_Value (values ! 0))]
        else let args = map (\<lambda>p. (e_Key p, e_Value p)) values;
                 (e, s') = r_HSet R s (PrefixKey @ storeCtx) args
             in if e \<noteq> None \<and> arg_num_error e then put_each R (PrefixKey @ storeCtx) values s' else (e, s')
      else (None, s))"

definition redis_Contains :: "('r, 'm) redis_scheme \<Rightarrow> 'r \<Rightarrow> bytes \<Rightarrow> bytes \<Rightarrow> bool \<times> err" where
  "redis_Contains R s storeCtx key =
     (let (exist, e) = r_HExists R s (PrefixKey @ storeCtx) key in (exist, NoResultErr e))"

definition redis_Load :: "('r, 'm) redis_scheme \<Rightarrow> 'r \<Rightarrow> bytes \<Rightarrow> bytes \<Rightarrow> bytes option \<times> err" where
  "redis_Load R s storeCtx key =
     (let (v, e) = r_HGet R s (PrefixKey @ storeCtx) key in
      if e = Some redis_Nil then (None, None) else (Some v, e))"

fun del_each :: "('r, 'm) redis_scheme \<Rightarrow> bytes \<Rightarrow> bytes list \<Rightarrow> 'r \<Rightarrow> err \<times> 'r" where
  "del_each R k [] s = (None, s)"
| "del_each R k (f # fs) s =
     (let (_, e, s') = r_HDel R s k [f] in
      if NoResultErr e \<noteq> None then (NoResultErr e, s') else del_each R k fs s')"

definition redis_Delete :: "('r, 'm) redis_scheme \<Rightarrow> 'r \<Rightarrow> bytes \<Rightarrow> bytes list \<Rightarrow> err \<times> 'r" where
  "redis_Delete R s storeCtx keys =
     (if length keys > 0
      then let (_, e, s') = r_HDel R s (PrefixKey @ storeCtx) keys; e' = NoResultErr e
           in if e' \<noteq> None \<and> arg_num_error e' then del_each R (PrefixKey @ storeCtx) keys s' else (e', s')
      else (None, s))"

definition redis_storage :: "'r redis \<Rightarrow> int \<Rightarrow> 'r PeerStorage" where
  "redis_storage R clock =
     \<lparr>ds_Put = redis_Put R, ds_Contains = redis_Contains R, ds_Load = redis_Load R, ds_Delete = redis_Delete R,
      ds_Preservable = True,
      ps_PutSeeder = \<lambda>s ih p. Ret (redis_PutSeeder R clock s ih p),
      ps_DeleteSeeder = \<lambda>s ih p. Ret (redis_DeleteSeeder R s ih p),
      ps_PutLeecher = \<lambda>s ih p. Ret (redis_PutLeecher R clock s ih p),
      ps_DeleteLeecher = \<lambda>s ih p. Ret (redis_DeleteLeecher R s ih p),
      ps_GraduateLeecher = \<lambda>s ih p. Ret (redis_GraduateLeecher R clock s ih p),
      ps_AnnouncePeers = \<lambda>s ih forSeeder n v6. Ret (redis_AnnouncePeers R s ih forSeeder n v6),
      ps_ScrapeSwarm = \<lambda>s ih. Ret (redis_ScrapeSwarm R s ih),
      ps_Ping = r_Ping R\<rparr>"

subsection \<open>Garbage collection\<close>

definition redis_count :: "'r redis \<Rightarrow> 'r \<Rightarrow> bytes \<Rightarrow> bool \<Rightarrow> int" where
  "redis_count R s key getLength =
     (let (n, e) = (if getLength then r_SCard R s key else r_Uint64 R (r_Get R s key)) in n)"

definition HasPrefix :: "bytes \<Rightarrow> bytes \<Rightarrow> bool" where
  "HasPrefix s p = (take (length p) s = p)"

definition gc_count_key :: "bytes \<Rightarrow> bytes option" where
  "gc_count_key k =
     (if HasPrefix k IH4SeederKey \<or> HasPrefix k IH6SeederKey then Some CountSeederKey
      else if HasPrefix k IH4LeecherKey \<or> HasPrefix k IH6LeecherKey then Some CountLeecherKey
      else None)"

definition peers_to_remove :: "int \<Rightarrow> (bytes, bytes) gomap \<Rightarrow> bytes list" where
  "peers_to_remove cutoffNanos peerList =
     [peerID. (peerID, timeStamp) \<leftarrow> peerList,
        case ParseInt timeStamp of Some mtime \<Rightarrow> mtime \<le> cutoffNanos | None \<Rightarrow> False]"

fun hdel_each :: "'r redis \<Rightarrow> bytes \<Rightarrow> bytes list \<Rightarrow> int \<Rightarrow> 'r \<Rightarrow> int \<times> 'r" where
  "hdel_each R k [] n s = (n, s)"
| "hdel_each R k (f # fs) n s =
     (let (c, e, s') = r_HDel R s k [f] in hdel_each R k fs (if NoResultErr e = None then n + c else n) s')"

definition gc_remove :: "'r redis \<Rightarrow> bytes \<Rightarrow> bytes \<Rightarrow> bytes list \<Rightarrow> 'r \<Rightarrow> 'r" where
  "gc_remove R infoHashKey cntKey peersToRemove s =
     (if length peersToRemove > 0
      then let (removed, e, s1) = r_HDel R s infoHashKey peersToRemove;
               (removed', s2) = (if NoResultErr e \<noteq> None \<and> arg_num_error (NoResultErr e)
                                 then hdel_each R infoHashKey peersToRemove removed s1 else (removed, s1))
           in if removed' > 0 then snd (r_DecrBy R s2 cntKey removed') else s2
      else s)"

text \<open>
  The function given to \<open>Watch\<close> calls the methods of the store, not those of the transaction:
  the check for an empty swarm and the removal from the set are two separate commands.
\<close>

definition gc_empty :: "'r redis \<Rightarrow> 'r \<Rightarrow> bytes \<Rightarrow> bool" where
  "gc_empty R s infoHashKey = (let (n, e) = r_HLen R s infoHashKey in NoResultErr e = None \<and> n = 0)"

definition gc_unlist :: "'r redis \<Rightarrow> 'r \<Rightarrow> bytes \<Rightarrow> 'r" where
  "gc_unlist R s infoHashKey = snd (snd (r_SRem R s IHKey [infoHashKey]))"

definition gc_watch :: "'r redis \<Rightarrow> bytes \<Rightarrow> 'r \<Rightarrow> 'r" where
  "gc_watch R infoHashKey s =
     (if r_Watch R s infoHashKey = None \<and> gc_empty R s infoHashKey then gc_unlist R s infoHashKey else s)"

definition gc_key :: "'r redis \<Rightarrow> int \<Rightarrow> bytes \<Rightarrow> 'r \<Rightarrow> 'r" where
  "gc_key R cutoffNanos infoHashKey s =
     (case gc_count_key infoHashKey of
        None \<Rightarrow> s
      | Some cntKey \<Rightarrow>
          (let (peerList, e) = r_HGetAll R s infoHashKey in
           if NoResultErr e = None
           then gc_watch R infoHashKey
                  (gc_remove R infoHashKey cntKey (peers_to_remove cutoffNanos peerList) s)
           else s))"

definition redis_gc :: "'r redis \<Rightarrow> int \<Rightarrow> 'r \<Rightarrow> 'r" where
  "redis_gc R cutoffNanos s =
     (let (infoHashKeys, e) = r_SMembers R s IHKey in
      if NoResultErr e = None then foldl (\<lambda>s k. gc_key R cutoffNanos k s) s infoHashKeys else s)"

subsection \<open>Configuration and connection\<close>

definition redis_defaultAddress :: bytes where "redis_defaultAddress = str ''127.0.0.1:6379''"
definition redis_defaultTimeout :: duration where "redis_defaultTimeout = second * 15"

definition errSentinelAndClusterChecked :: goerror where
  "errSentinelAndClusterChecked = OtherError ''unable to use both cluster and sentinel mode''"

record RedisConfig =
  rc_PeerLifetime :: duration
  rc_Addresses :: "bytes list"
  rc_DB :: int
  rc_PoolSize :: int
  rc_Login :: bytes
  rc_Password :: bytes
  rc_Sentinel :: bool
  rc_SentinelMaster :: bytes
  rc_Cluster :: bool
  rc_ReadTimeout :: duration
  rc_WriteTimeout :: duration
  rc_ConnectTimeout :: duration

definition RedisConfig_Validate :: "(bytes \<Rightarrow> bytes) \<Rightarrow> RedisConfig \<Rightarrow> goerror + RedisConfig" where
  "RedisConfig_Validate trim cfg =
     (if rc_Sentinel cfg \<and> rc_Cluster cfg then Inl errSentinelAndClusterChecked
      else
        let addresses = [a \<leftarrow> rc_Addresses cfg. length (TrimSpace trim a) > 0];
            v1 = cfg\<lparr>rc_Addresses := addresses\<rparr>;
            v2 = (if length (rc_Addresses cfg) = 0 then v1\<lparr>rc_Addresses := [redis_defaultAddress]\<rparr> else v1);
            v3 = (if rc_ReadTimeout cfg \<le> 0 then v2\<lparr>rc_ReadTimeout := redis_defaultTimeout\<rparr> else v2);
            v4 = (if rc_WriteTimeout cfg \<le> 0 then v3\<lparr>rc_WriteTimeout := redis_defaultTimeout\<rparr> else v3);
            v5 = (if rc_ConnectTimeout cfg \<le> 0 then v4\<lparr>rc_ConnectTimeout := redis_defaultTimeout\<rparr> else v4)
        in Inr v5)"

text \<open>The three kinds of clients of the package, with the options the driver passes on.\<close>

datatype redis_client =
    ClusterClient "bytes list" RedisConfig
  | FailoverClient "bytes list" RedisConfig
  | SingleClient bytes RedisConfig

definition redis_new_client :: "RedisConfig \<Rightarrow> redis_client go" where
  "redis_new_client cfg =
     (if rc_Cluster cfg then Ret (ClusterClient (rc_Addresses cfg) cfg)
      else if rc_Sentinel cfg then Ret (FailoverClient (rc_Addresses cfg) cfg)
      else case rc_Addresses cfg of
        [] \<Rightarrow> Panic ''index out of range''
      | a # _ \<Rightarrow> Ret (SingleClient a cfg))"

definition redis_Connect :: "(redis_client \<Rightarrow> err) \<Rightarrow> RedisConfig \<Rightarrow> (redis_client option \<times> err) go" where
  "redis_Connect ping cfg =
     bind_go (redis_new_client cfg) (\<lambda>rs.
       let e = ping rs in
       if e = None \<and> e \<noteq> Some redis_Nil then Ret (Some rs, None) else Ret (None, e))"

definition redis_newStore ::
  "(bytes \<Rightarrow> bytes) \<Rightarrow> (redis_client \<Rightarrow> err) \<Rightarrow> goerror + RedisConfig \<Rightarrow> (goerror + redis_client option) go" where
  "redis_newStore trim ping conf =
     (case conf of Inl e \<Rightarrow> Ret (Inl e)
      | Inr cfg0 \<Rightarrow>
     (case RedisConfig_Validate trim cfg0 of Inl e \<Rightarrow> Ret (Inl e)
      | Inr cfg \<Rightarrow> bind_go (redis_Connect ping cfg) (\<lambda>(rs, e).
          Ret (case e of Some x \<Rightarrow> Inl x | None \<Rightarrow> Inr rs))))"

definition redis_Close :: "err \<Rightarrow> bool \<Rightarrow> err \<times> bool" where
  "redis_Close clientErr closed = (if closed then (None, True) else (clientErr, True))"

end
