(* ===== verification/RedisServer.thy ===== *)
theory RedisServer
  imports Redis
begin

section \<open>The Redis server as it is documented\<close>

text \<open>
  The documented behaviour of the commands as effects on a key space, and a small server that
  behaves so. Counters are unbounded integers here: a server refuses an increment past the
  end of \<open>int64\<close>, which the number of announces does not reach, and the client reads the numbers
  in this range.
\<close>

subsection \<open>The key space\<close>

datatype rval = RHash "bytes \<rightharpoonup> bytes" | RSet "bytes set" | RInt int

type_synonym keyspace = "bytes \<Rightarrow> rval option"

definition hash_at :: "keyspace \<Rightarrow> bytes \<Rightarrow> (bytes \<rightharpoonup> bytes) option" where
  "hash_at ks k = (case ks k of None \<Rightarrow> Some Map.empty | Some (RHash h) \<Rightarrow> Some h | _ \<Rightarrow> None)"

definition set_at :: "keyspace \<Rightarrow> bytes \<Rightarrow> bytes set option" where
  "set_at ks k = (case ks k of None \<Rightarrow> Some {} | Some (RSet x) \<Rightarrow> Some x | _ \<Rightarrow> None)"

definition int_at :: "keyspace \<Rightarrow> bytes \<Rightarrow> int option" where
  "int_at ks k = (case ks k of None \<Rightarrow> Some 0 | Some (RInt n) \<Rightarrow> Some n | _ \<Rightarrow> None)"

text \<open>A hash or a set without elements is no key.\<close>

definition put_hash :: "bytes \<Rightarrow> (bytes \<rightharpoonup> bytes) \<Rightarrow> keyspace \<Rightarrow> keyspace" where
  "put_hash k h ks = ks(k := if h = Map.empty then None else Some (RHash h))"

definition put_set :: "bytes \<Rightarrow> bytes set \<Rightarrow> keyspace \<Rightarrow> keyspace" where
  "put_set k x ks = ks(k := if x = {} then None else Some (RSet x))"

definition put_int :: "bytes \<Rightarrow> int \<Rightarrow> keyspace \<Rightarrow> keyspace" where
  "put_int k n ks = ks(k := Some (RInt n))"

named_theorems ks_simps

lemma hash_at_put [ks_simps]:
  "hash_at (put_hash k h ks) k' = (if k' = k then Some h else hash_at ks k')"
  "k \<noteq> k' \<Longrightarrow> hash_at (put_set k x ks) k' = hash_at ks k'"
  "k \<noteq> k' \<Longrightarrow> hash_at (put_int k n ks) k' = hash_at ks k'"
  by (auto simp: hash_at_def put_hash_def put_set_def put_int_def)

lemma set_at_put [ks_simps]:
  "set_at (put_set k x ks) k' = (if k' = k then Some x else set_at ks k')"
  "k \<noteq> k' \<Longrightarrow> set_at (put_hash k h ks) k' = set_at ks k'"
  "k \<noteq> k' \<Longrightarrow> set_at (put_int k n ks) k' = set_at ks k'"
  by (auto simp: set_at_def put_hash_def put_set_def put_int_def)

lemma int_at_put [ks_simps]:
  "int_at (put_int k n ks) k' = (if k' = k then Some n else int_at ks k')"
  "k \<noteq> k' \<Longrightarrow> int_at (put_hash k h ks) k' = int_at ks k'"
  "k \<noteq> k' \<Longrightarrow> int_at (put_set k x ks) k' = int_at ks k'"
  by (auto simp: int_at_def put_hash_def put_set_def put_int_def)

text \<open>The number that a canonical decimal text stands for.\<close>

definition int_text :: "bytes \<Rightarrow> int" where
  "int_text v = (if v \<noteq> [] \<and> hd v = 45 then - int (dec_value (tl v)) else int (dec_value v))"

lemma int_text_FormatInt [simp]: "int_text (FormatInt n) = n"
proof (cases "n < 0")
  case False
  obtain d ds where d: "Itoa (nat n) = d # ds" "is_digit d"
    using Itoa_digits [of "nat n"] Itoa_ne [of "nat n"] by (cases "Itoa (nat n)") auto
  have "dec_value (d # ds) = nat n" using dec_value_Itoa [of "nat n"] d(1) by simp
  then show ?thesis using False not_sign_digit [OF d(2)] by (simp add: int_text_def FormatInt_def d(1))
qed (simp add: int_text_def FormatInt_def)

text \<open>The effect of a command, \<open>None\<close> for a key or a field of another type and for an empty list of arguments.\<close>

fun cmd_effect :: "rcmd \<Rightarrow> keyspace \<Rightarrow> keyspace option" where
  "cmd_effect (C_HSet k fvs) ks =
     (if fvs = [] then None else map_option (\<lambda>h. put_hash k (h ++ map_of (rev fvs)) ks) (hash_at ks k))"
| "cmd_effect (C_HDel k fs) ks =
     (if fs = [] then None else map_option (\<lambda>h. put_hash k (h |` (- set fs)) ks) (hash_at ks k))"
| "cmd_effect (C_Incr k) ks = map_option (\<lambda>n. put_int k (n + 1) ks) (int_at ks k)"
| "cmd_effect (C_Decr k) ks = map_option (\<lambda>n. put_int k (n - 1) ks) (int_at ks k)"
| "cmd_effect (C_SAdd k xs) ks =
     (if xs = [] then None else map_option (\<lambda>x. put_set k (x \<union> set xs) ks) (set_at ks k))"
| "cmd_effect (C_HIncrBy k f d) ks =
     (case hash_at ks k of None \<Rightarrow> None
      | Some h \<Rightarrow> (case h f of None \<Rightarrow> Some (put_hash k (h(f \<mapsto> FormatInt d)) ks)
                  | Some v \<Rightarrow> if FormatInt (int_text v) = v then Some (put_hash k (h(f \<mapsto> FormatInt (int_text v + d))) ks)
                              else None))"

fun cmds_effect :: "rcmd list \<Rightarrow> keyspace \<Rightarrow> keyspace option" where
  "cmds_effect [] ks = Some ks"
| "cmds_effect (c # cs) ks = Option.bind (cmd_effect c ks) (cmds_effect cs)"

subsection \<open>What is documented of the commands\<close>

definition redis_writes :: "'r redis \<Rightarrow> ('r \<Rightarrow> bool) \<Rightarrow> ('r \<Rightarrow> keyspace) \<Rightarrow> bool" where
  "redis_writes R ok view \<longleftrightarrow>
     (\<forall>c. r_Queue R c = (0, None)) \<and>
     (\<forall>s q ks. ok s \<longrightarrow> cmds_effect q (view s) = Some ks \<longrightarrow>
        (\<exists>es s'. r_Exec R s q = (es, None, s') \<and> set es \<subseteq> {None} \<and> ok s' \<and> view s' = ks)) \<and>
     (\<forall>s k h fvs. ok s \<longrightarrow> fvs \<noteq> [] \<longrightarrow> hash_at (view s) k = Some h \<longrightarrow>
        (\<exists>s'. r_HSet R s k fvs = (None, s') \<and> ok s' \<and> view s' = put_hash k (h ++ map_of (rev fvs)) (view s))) \<and>
     (\<forall>s k h fs. ok s \<longrightarrow> fs \<noteq> [] \<longrightarrow> hash_at (view s) k = Some h \<longrightarrow>
        (\<exists>s'. r_HDel R s k fs = (int (card (dom h \<inter> set fs)), None, s') \<and> ok s' \<and>
              view s' = put_hash k (h |` (- set fs)) (view s))) \<and>
     (\<forall>s k n. ok s \<longrightarrow> int_at (view s) k = Some n \<longrightarrow>
        (\<exists>s'. r_Decr R s k = (None, s') \<and> ok s' \<and> view s' = put_int k (n - 1) (view s))) \<and>
     (\<forall>s k n d. ok s \<longrightarrow> int_at (view s) k = Some n \<longrightarrow>
        (\<exists>s'. r_DecrBy R s k d = (None, s') \<and> ok s' \<and> view s' = put_int k (n - d) (view s))) \<and>
     (\<forall>s k x xs. ok s \<longrightarrow> xs \<noteq> [] \<longrightarrow> set_at (view s) k = Some x \<longrightarrow>
        (\<exists>n s'. r_SRem R s k xs = (n, None, s') \<and> ok s' \<and> view s' = put_set k (x - set xs) (view s)))"

definition redis_reads :: "'r redis \<Rightarrow> ('r \<Rightarrow> bool) \<Rightarrow> ('r \<Rightarrow> keyspace) \<Rightarrow> bool" where
  "redis_reads R ok view \<longleftrightarrow>
     (\<forall>s k h. ok s \<longrightarrow> hash_at (view s) k = Some h \<longrightarrow>
        finite (dom h) \<and> r_HLen R s k = (int (card (dom h)), None) \<and>
        (\<forall>f. r_HGet R s k f = (case h f of None \<Rightarrow> ([], Some redis_Nil) | Some v \<Rightarrow> (v, None))) \<and>
        (\<forall>f. r_HExists R s k f = (h f \<noteq> None, None)) \<and>
        (\<exists>l. r_HGetAll R s k = (l, None) \<and> distinct (map fst l) \<and> map_of l = h) \<and>
        (\<forall>n > 0. \<exists>l. r_HRandField R s k n = (l, None) \<and> distinct l \<and> set l \<subseteq> dom h \<and>
           int (length l) = min n (int (card (dom h))))) \<and>
     (\<forall>s k x. ok s \<longrightarrow> set_at (view s) k = Some x \<longrightarrow>
        r_SCard R s k = (int (card x), None) \<and> (\<exists>l. r_SMembers R s k = (l, None) \<and> distinct l \<and> set l = x)) \<and>
     (\<forall>s k n. ok s \<longrightarrow> int_at (view s) k = Some n \<longrightarrow>
        r_Get R s k = (case view s k of None \<Rightarrow> ([], Some redis_Nil) | Some _ \<Rightarrow> (FormatInt n, None))) \<and>
     (\<forall>s k. ok s \<longrightarrow> r_Watch R s k = None) \<and>
     (\<forall>n. r_Int64 R (FormatInt n, None) = (n, None)) \<and>
     (\<forall>n \<ge> 0. r_Uint64 R (FormatInt n, None) = (n, None)) \<and>
     (\<forall>v e. r_Int64 R (v, Some e) = (0, Some e) \<and> r_Uint64 R (v, Some e) = (0, Some e))"

lemma redis_writesD:
  assumes "redis_writes R ok view"
  shows "r_Queue R c = (0, None)"
    "ok s \<Longrightarrow> cmds_effect q (view s) = Some ks \<Longrightarrow>
       \<exists>es s'. r_Exec R s q = (es, None, s') \<and> set es \<subseteq> {None} \<and> ok s' \<and> view s' = ks"
    "ok s \<Longrightarrow> fvs \<noteq> [] \<Longrightarrow> hash_at (view s) k = Some h \<Longrightarrow>
       \<exists>s'. r_HSet R s k fvs = (None, s') \<and> ok s' \<and> view s' = put_hash k (h ++ map_of (rev fvs)) (view s)"
    "ok s \<Longrightarrow> fs \<noteq> [] \<Longrightarrow> hash_at (view s) k = Some h \<Longrightarrow>
       \<exists>s'. r_HDel R s k fs = (int (card (dom h \<inter> set fs)), None, s') \<and> ok s' \<and>
            view s' = put_hash k (h |` (- set fs)) (view s)"
    "ok s \<Longrightarrow> int_at (view s) k = Some n \<Longrightarrow>
       \<exists>s'. r_Decr R s k = (None, s') \<and> ok s' \<and> view s' = put_int k (n - 1) (view s)"
    "ok s \<Longrightarrow> int_at (view s) k = Some n \<Longrightarrow>
       \<exists>s'. r_DecrBy R s k d = (None, s') \<and> ok s' \<and> view s' = put_int k (n - d) (view s)"
    "ok s \<Longrightarrow> xs \<noteq> [] \<Longrightarrow> set_at (view s) k = Some x \<Longrightarrow>
       \<exists>m s'. r_SRem R s k xs = (m, None, s') \<and> ok s' \<and> view s' = put_set k (x - set xs) (view s)"
  using assms unfolding redis_writes_def by simp_all

lemma redis_readsD:
  assumes "redis_reads R ok view" and "ok s"
  shows "hash_at (view s) k = Some h \<Longrightarrow> finite (dom h)"
    "hash_at (view s) k = Some h \<Longrightarrow> r_HLen R s k = (int (card (dom h)), None)"
    "hash_at (view s) k = Some h \<Longrightarrow> r_HGet R s k f = (case h f of None \<Rightarrow> ([], Some redis_Nil) | Some v \<Rightarrow> (v, None))"
    "hash_at (view s) k = Some h \<Longrightarrow> r_HExists R s k f = (h f \<noteq> None, None)"
    "hash_at (view s) k = Some h \<Longrightarrow> \<exists>l. r_HGetAll R s k = (l, None) \<and> distinct (map fst l) \<and> map_of l = h"
    "hash_at (view s) k = Some h \<Longrightarrow> 0 < n \<Longrightarrow> \<exists>l. r_HRandField R s k n = (l, None) \<and> distinct l \<and> set l \<subseteq> dom h \<and>
       int (length l) = min n (int (card (dom h)))"
    "set_at (view s) k = Some x \<Longrightarrow> \<exists>l. r_SMembers R s k = (l, None) \<and> distinct l \<and> set l = x"
    "r_Watch R s k = None" "r_Int64 R (FormatInt m, None) = (m, None)" "r_Int64 R (v, Some e) = (0, Some e)"
  using assms unfolding redis_reads_def by simp_all

subsection \<open>A server that does what is documented\<close>

datatype sval = SHash "(bytes, bytes) gomap" | SSet "bytes list" | SInt int

type_synonym srv = "(bytes, sval) gomap"

fun sval_ok :: "sval \<Rightarrow> bool" where
  "sval_ok (SHash m) = (is_gomap m \<and> m \<noteq> [])"
| "sval_ok (SSet xs) = (distinct xs \<and> xs \<noteq> [])"
| "sval_ok (SInt n) = True"

definition srv_ok :: "srv \<Rightarrow> bool" where
  "srv_ok s \<longleftrightarrow> (\<forall>k v. m_get s k = Some v \<longrightarrow> sval_ok v)"

fun sval_view :: "sval \<Rightarrow> rval" where
  "sval_view (SHash m) = RHash (m_get m)"
| "sval_view (SSet xs) = RSet (set xs)"
| "sval_view (SInt n) = RInt n"

definition srv_view :: "srv \<Rightarrow> keyspace" where
  "srv_view s k = map_option sval_view (m_get s k)"

definition get_hash :: "srv \<Rightarrow> bytes \<Rightarrow> (bytes, bytes) gomap option" where
  "get_hash s k = (case m_get s k of None \<Rightarrow> Some [] | Some (SHash m) \<Rightarrow> Some m | _ \<Rightarrow> None)"

definition get_set :: "srv \<Rightarrow> bytes \<Rightarrow> bytes list option" where
  "get_set s k = (case m_get s k of None \<Rightarrow> Some [] | Some (SSet xs) \<Rightarrow> Some xs | _ \<Rightarrow> None)"

definition get_int :: "srv \<Rightarrow> bytes \<Rightarrow> int option" where
  "get_int s k = (case m_get s k of None \<Rightarrow> Some 0 | Some (SInt n) \<Rightarrow> Some n | _ \<Rightarrow> None)"

definition set_hash :: "bytes \<Rightarrow> (bytes, bytes) gomap \<Rightarrow> srv \<Rightarrow> srv" where
  "set_hash k m s = (if m = [] then m_del k s else m_set k (SHash m) s)"

definition set_set :: "bytes \<Rightarrow> bytes list \<Rightarrow> srv \<Rightarrow> srv" where
  "set_set k xs s = (if xs = [] then m_del k s else m_set k (SSet xs) s)"

definition set_int :: "bytes \<Rightarrow> int \<Rightarrow> srv \<Rightarrow> srv" where
  "set_int k n s = m_set k (SInt n) s"

definition wrong_type :: goerror where "wrong_type = OtherError ''WRONGTYPE''"

fun set_fields :: "(bytes \<times> bytes) list \<Rightarrow> (bytes, bytes) gomap \<Rightarrow> (bytes, bytes) gomap" where
  "set_fields [] m = m"
| "set_fields ((f, v) # fvs) m = set_fields fvs (m_set f v m)"

fun del_fields :: "bytes list \<Rightarrow> (bytes, bytes) gomap \<Rightarrow> (bytes, bytes) gomap" where
  "del_fields [] m = m"
| "del_fields (f # fs) m = del_fields fs (m_del f m)"

fun srv_cmd :: "rcmd \<Rightarrow> srv \<Rightarrow> srv option" where
  "srv_cmd (C_HSet k fvs) s = map_option (\<lambda>m. set_hash k (set_fields fvs m) s) (get_hash s k)"
| "srv_cmd (C_HDel k fs) s = map_option (\<lambda>m. set_hash k (del_fields fs m) s) (get_hash s k)"
| "srv_cmd (C_Incr k) s = map_option (\<lambda>n. set_int k (n + 1) s) (get_int s k)"
| "srv_cmd (C_Decr k) s = map_option (\<lambda>n. set_int k (n - 1) s) (get_int s k)"
| "srv_cmd (C_SAdd k xs) s = map_option (\<lambda>ys. set_set k (remdups (xs @ ys)) s) (get_set s k)"
| "srv_cmd (C_HIncrBy k f d) s =
     (case get_hash s k of None \<Rightarrow> None
      | Some m \<Rightarrow> (case m_get m f of None \<Rightarrow> Some (set_hash k (m_set f (FormatInt d) m) s)
                  | Some v \<Rightarrow> if FormatInt (int_text v) = v
                             then Some (set_hash k (m_set f (FormatInt (int_text v + d)) m) s) else None))"

fun srv_exec :: "rcmd list \<Rightarrow> srv \<Rightarrow> err list \<times> srv" where
  "srv_exec [] s = ([], s)"
| "srv_exec (c # cs) s =
     (let (e, s1) = (case srv_cmd c s of None \<Rightarrow> (Some wrong_type, s) | Some s1 \<Rightarrow> (None, s1));
          (es, s2) = srv_exec cs s1
      in (e # es, s2))"

definition srv_write :: "'a \<Rightarrow> srv option \<Rightarrow> srv \<Rightarrow> 'a \<Rightarrow> 'a \<times> err \<times> srv" where
  "srv_write a r s z = (case r of None \<Rightarrow> (z, Some wrong_type, s) | Some s' \<Rightarrow> (a, None, s'))"

definition example_server :: "srv redis" where
  "example_server =
     \<lparr>r_Ping = \<lambda>s. None,
      r_HSet = \<lambda>s k fvs. snd (srv_write () (srv_cmd (C_HSet k fvs) s) s ()),
      r_HDel = \<lambda>s k fs. srv_write (case get_hash s k of None \<Rightarrow> 0 | Some m \<Rightarrow> int (length (filter (\<lambda>(f, v). f \<in> set fs) m)))
                 (srv_cmd (C_HDel k fs) s) s 0,
      r_HGet = \<lambda>s k f. (case get_hash s k of None \<Rightarrow> ([], Some wrong_type)
                 | Some m \<Rightarrow> (case m_get m f of None \<Rightarrow> ([], Some redis_Nil) | Some v \<Rightarrow> (v, None))),
      r_HExists = \<lambda>s k f. (case get_hash s k of None \<Rightarrow> (False, Some wrong_type) | Some m \<Rightarrow> (m_get m f \<noteq> None, None)),
      r_HLen = \<lambda>s k. (case get_hash s k of None \<Rightarrow> (0, Some wrong_type) | Some m \<Rightarrow> (int (length m), None)),
      r_HGetAll = \<lambda>s k. (case get_hash s k of None \<Rightarrow> ([], Some wrong_type) | Some m \<Rightarrow> (m, None)),
      r_HRandField = \<lambda>s k n. (case get_hash s k of None \<Rightarrow> ([], Some wrong_type) | Some m \<Rightarrow> (take (nat n) (map fst m), None)),
      r_Get = \<lambda>s k. (case m_get s k of None \<Rightarrow> ([], Some redis_Nil) | Some (SInt n) \<Rightarrow> (FormatInt n, None) | _ \<Rightarrow> ([], Some wrong_type)),
      r_Decr = \<lambda>s k. snd (srv_write () (srv_cmd (C_Decr k) s) s ()),
      r_DecrBy = \<lambda>s k d. snd (srv_write () (map_option (\<lambda>n. set_int k (n - d) s) (get_int s k)) s ()),
      r_SMembers = \<lambda>s k. (case get_set s k of None \<Rightarrow> ([], Some wrong_type) | Some xs \<Rightarrow> (xs, None)),
      r_SCard = \<lambda>s k. (case get_set s k of None \<Rightarrow> (0, Some wrong_type) | Some xs \<Rightarrow> (int (length xs), None)),
      r_SRem = \<lambda>s k xs. srv_write (0 :: int) (map_option (\<lambda>ys. set_set k (filter (\<lambda>y. y \<notin> set xs) ys) s) (get_set s k)) s 0,
      r_Watch = \<lambda>s k. None,
      r_Queue = \<lambda>c. (0, None),
      r_Exec = \<lambda>s q. (let (es, s') = srv_exec q s in (es, None, s')),
      r_Int64 = \<lambda>(v, e). (case e of None \<Rightarrow> (int_text v, None) | Some _ \<Rightarrow> (0, e)),
      r_Uint64 = \<lambda>(v, e). (case e of None \<Rightarrow> (int_text v, None) | Some _ \<Rightarrow> (0, e))\<rparr>"

lemma hash_at_srv: "hash_at (srv_view s) k = map_option m_get (get_hash s k)"
  by (auto simp: hash_at_def srv_view_def get_hash_def split: option.split sval.split)

lemma set_at_srv: "set_at (srv_view s) k = map_option set (get_set s k)"
  by (auto simp: set_at_def srv_view_def get_set_def split: option.split sval.split)

lemma int_at_srv: "int_at (srv_view s) k = get_int s k"
  by (auto simp: int_at_def srv_view_def get_int_def split: option.split sval.split)

lemma m_get_map_of: "m_get m = map_of m"
  by (simp add: fun_eq_iff m_get_def)

lemma m_get_eq_empty: "m_get m = Map.empty \<longleftrightarrow> m = []"
  by (simp add: m_get_map_of)

lemma view_set [simp]:
  "srv_view (set_hash k m s) = put_hash k (m_get m) (srv_view s)"
  "srv_view (set_set k xs s) = put_set k (set xs) (srv_view s)"
  "srv_view (set_int k n s) = put_int k n (srv_view s)"
  unfolding put_hash_def put_set_def put_int_def set_hash_def set_set_def set_int_def m_get_eq_empty
  by (rule ext, simp add: srv_view_def)+

lemma ok_set [simp]:
  "srv_ok s \<Longrightarrow> is_gomap m \<Longrightarrow> srv_ok (set_hash k m s)"
  "srv_ok s \<Longrightarrow> distinct xs \<Longrightarrow> srv_ok (set_set k xs s)"
  "srv_ok s \<Longrightarrow> srv_ok (set_int k n s)"
  by (auto simp: srv_ok_def set_hash_def set_set_def set_int_def split: if_splits)

lemma get_ok:
  "srv_ok s \<Longrightarrow> get_hash s k = Some m \<Longrightarrow> is_gomap m"
  "srv_ok s \<Longrightarrow> get_set s k = Some xs \<Longrightarrow> distinct xs"
  by (fastforce simp: srv_ok_def get_hash_def get_set_def split: option.splits sval.splits)+

lemma set_fields_ok: "is_gomap m \<Longrightarrow> is_gomap (set_fields fvs m) \<and> m_get (set_fields fvs m) = m_get m ++ map_of (rev fvs)"
proof (induction fvs m rule: set_fields.induct)
  case (2 f v fvs m)
  then show ?case by (auto simp: fun_eq_iff map_add_def split: option.split)
qed simp

lemma del_fields_ok: "is_gomap m \<Longrightarrow> is_gomap (del_fields fs m) \<and> m_get (del_fields fs m) = m_get m |` (- set fs)"
proof (induction fs m rule: del_fields.induct)
  case (2 f fs m)
  have "m_get (m_del f m) = (m_get m) |` (- {f})" by (auto simp: fun_eq_iff restrict_map_def)
  then show ?case using 2 by (auto simp: restrict_map_def fun_eq_iff)
qed (simp add: restrict_map_def)

lemma srv_cmd_ok:
  assumes "srv_ok s" and "cmd_effect c (srv_view s) = Some ks"
  shows "\<exists>s'. srv_cmd c s = Some s' \<and> srv_ok s' \<and> srv_view s' = ks"
proof -
  have h: "is_gomap m" if "get_hash s k = Some m" for k m using get_ok(1) [OF assms(1) that] .
  have st: "distinct xs" if "get_set s k = Some xs" for k xs using get_ok(2) [OF assms(1) that] .
  have u: "m_get (m_set f v m) = (m_get m)(f \<mapsto> v)" for f v and m :: "(bytes, bytes) gomap" by (auto simp: fun_eq_iff)
  show ?thesis
    using assms h st
    by (cases c) (auto simp: hash_at_srv set_at_srv int_at_srv set_fields_ok del_fields_ok u Un_commute
        split: option.splits if_splits)
qed

lemma srv_exec_ok:
  "srv_ok s \<Longrightarrow> cmds_effect q (srv_view s) = Some ks \<Longrightarrow>
     \<exists>es s'. srv_exec q s = (es, s') \<and> set es \<subseteq> {None} \<and> srv_ok s' \<and> srv_view s' = ks"
proof (induction q arbitrary: s)
  case (Cons c q)
  obtain ks1 where ks1: "cmd_effect c (srv_view s) = Some ks1" "cmds_effect q ks1 = Some ks"
    using Cons.prems(2) by (auto simp: Option.bind_eq_Some_conv)
  obtain s1 where s1: "srv_cmd c s = Some s1" "srv_ok s1" "srv_view s1 = ks1" using srv_cmd_ok [OF Cons.prems(1) ks1(1)] by blast
  obtain es s' where "srv_exec q s1 = (es, s')" "set es \<subseteq> {None}" "srv_ok s'" "srv_view s' = ks"
    using Cons.IH [OF s1(2)] ks1(2) s1(3) by blast
  then show ?case using s1(1) by (auto simp del: srv_cmd.simps)
qed simp

lemma card_fields:
  assumes "is_gomap m"
  shows "length (filter (\<lambda>(f, v). f \<in> A) m) = card (dom (m_get m) \<inter> A)"
proof -
  have d: "distinct (map fst (filter (\<lambda>(f, v). f \<in> A) m))"
    using assms by (simp add: is_gomap_def distinct_map_filter)
  have "set (map fst (filter (\<lambda>(f, v). f \<in> A) m)) = dom (m_get m) \<inter> A"
    by (force simp: m_get_map_of dom_map_of_conv_image_fst)
  then show ?thesis using distinct_card [OF d] by simp
qed

lemma example_server_writes: "redis_writes example_server srv_ok srv_view"
  unfolding redis_writes_def
proof (intro conjI allI impI)
  show "r_Queue example_server c = (0, None)" for c by (simp add: example_server_def)
  show "\<exists>es s'. r_Exec example_server s q = (es, None, s') \<and> set es \<subseteq> {None} \<and> srv_ok s' \<and> srv_view s' = ks"
    if "srv_ok s" "cmds_effect q (srv_view s) = Some ks" for s q ks
    using srv_exec_ok [OF that] by (auto simp: example_server_def)
  show "\<exists>s'. r_HSet example_server s k fvs = (None, s') \<and> srv_ok s' \<and> srv_view s' = put_hash k (h ++ map_of (rev fvs)) (srv_view s)"
    if "srv_ok s" "fvs \<noteq> []" "hash_at (srv_view s) k = Some h" for s k h fvs
    using srv_cmd_ok [OF that(1), of "C_HSet k fvs"] that(2,3) by (auto simp: example_server_def srv_write_def simp del: srv_cmd.simps)
  show "\<exists>s'. r_HDel example_server s k fs = (int (card (dom h \<inter> set fs)), None, s') \<and> srv_ok s' \<and>
      srv_view s' = put_hash k (h |` (- set fs)) (srv_view s)"
    if "srv_ok s" "fs \<noteq> []" "hash_at (srv_view s) k = Some h" for s k h fs
  proof -
    note a = that
    obtain m where m: "get_hash s k = Some m" "h = m_get m" using a(3) by (auto simp: hash_at_srv)
    show ?thesis
      using srv_cmd_ok [OF a(1), of "C_HDel k fs"] a(2,3) card_fields [OF get_ok(1) [OF a(1) m(1)], of "set fs"] m
      by (auto simp: example_server_def srv_write_def simp del: srv_cmd.simps)
  qed
  show "\<exists>s'. r_Decr example_server s k = (None, s') \<and> srv_ok s' \<and> srv_view s' = put_int k (n - 1) (srv_view s)"
    if "srv_ok s" "int_at (srv_view s) k = Some n" for s k n
    using that by (simp add: example_server_def srv_write_def int_at_srv)
  show "\<exists>s'. r_DecrBy example_server s k d = (None, s') \<and> srv_ok s' \<and> srv_view s' = put_int k (n - d) (srv_view s)"
    if "srv_ok s" "int_at (srv_view s) k = Some n" for s k n d
    using that by (simp add: example_server_def srv_write_def int_at_srv)
  show "\<exists>n s'. r_SRem example_server s k xs = (n, None, s') \<and> srv_ok s' \<and> srv_view s' = put_set k (x - set xs) (srv_view s)"
    if "srv_ok s" "xs \<noteq> []" "set_at (srv_view s) k = Some x" for s k x xs
  proof -
    note a = that
    obtain ys where ys: "get_set s k = Some ys" "x = set ys" using a(3) by (auto simp: set_at_srv)
    have "{y \<in> set ys. y \<notin> set xs} = x - set xs" by (auto simp: ys(2))
    then show ?thesis
      using a(1) ys get_ok(2) [OF a(1) ys(1)] by (simp add: example_server_def srv_write_def)
  qed
qed

lemma example_server_reads: "redis_reads example_server srv_ok srv_view"
  unfolding redis_reads_def
proof (intro conjI allI impI)
  fix s k h assume a: "srv_ok s" "hash_at (srv_view s) k = Some h"
  obtain m where m: "get_hash s k = Some m" "h = m_get m" using a(2) by (auto simp: hash_at_srv)
  have g: "is_gomap m" by (rule get_ok(1) [OF a(1) m(1)])
  have c: "card (dom h) = length m" using card_fields [OF g, of UNIV] by (simp add: m(2) split_def)
  show "finite (dom h)" by (simp add: m(2) m_get_map_of finite_dom_map_of)
  show "r_HLen example_server s k = (int (card (dom h)), None)" by (simp add: example_server_def m(1) c)
  show "r_HGet example_server s k f = (case h f of None \<Rightarrow> ([], Some redis_Nil) | Some v \<Rightarrow> (v, None))" for f
    by (simp add: example_server_def m)
  show "r_HExists example_server s k f = (h f \<noteq> None, None)" for f by (simp add: example_server_def m)
  show "\<exists>l. r_HGetAll example_server s k = (l, None) \<and> distinct (map fst l) \<and> map_of l = h"
    using g by (simp add: example_server_def m is_gomap_def m_get_map_of)
  show "\<exists>l. r_HRandField example_server s k n = (l, None) \<and> distinct l \<and> set l \<subseteq> dom h \<and>
      int (length l) = min n (int (card (dom h)))" if "0 < n" for n
  proof (intro exI conjI)
    show "r_HRandField example_server s k n = (take (nat n) (map fst m), None)" by (simp add: example_server_def m(1))
    show "distinct (take (nat n) (map fst m))" using g by (simp add: is_gomap_def)
    show "set (take (nat n) (map fst m)) \<subseteq> dom h"
      by (auto simp: m(2) m_get_map_of dom_map_of_conv_image_fst dest: in_set_takeD)
    show "int (length (take (nat n) (map fst m))) = min n (int (card (dom h)))" using that by (simp add: c)
  qed
next
  fix s k x assume a: "srv_ok s" "set_at (srv_view s) k = Some x"
  obtain xs where xs: "get_set s k = Some xs" "x = set xs" using a(2) by (auto simp: set_at_srv)
  have d: "distinct xs" by (rule get_ok(2) [OF a(1) xs(1)])
  show "r_SCard example_server s k = (int (card x), None)" by (simp add: example_server_def xs distinct_card [OF d])
  show "\<exists>l. r_SMembers example_server s k = (l, None) \<and> distinct l \<and> set l = x" using d by (simp add: example_server_def xs)
next
  show "r_Get example_server s k = (case srv_view s k of None \<Rightarrow> ([], Some redis_Nil) | Some _ \<Rightarrow> (FormatInt n, None))"
    if "srv_ok s" "int_at (srv_view s) k = Some n" for s k n
    using that(2) by (auto simp: example_server_def int_at_srv get_int_def srv_view_def split: option.splits sval.splits)
qed (auto simp: example_server_def)

lemma srv_ok_Nil [simp]: "srv_ok []"
  by (simp add: srv_ok_def)

lemma srv_view_Nil [simp]: "srv_view [] k = None"
  by (simp add: srv_view_def)

end
