(* ===== verification/RedisProps.thy ===== *)
theory RedisProps
  imports RedisServer
begin

section \<open>The Redis driver over a server that does what is documented\<close>

text \<open>
  The invariant of the driver's keys, the proof that the driver keeps the storage contract, and
  what its garbage collection and its counters do.
\<close>

subsection \<open>Keys and serialized peers\<close>

lemmas key_defs = PrefixKey_def IHKey_def IH4SeederKey_def IH6SeederKey_def IH4LeecherKey_def IH6LeecherKey_def
  CountSeederKey_def CountLeecherKey_def CountDownloadsKey_def

lemma InfoHashKey_inj [simp]: "InfoHashKey ih sd v6 = InfoHashKey ih' sd' v6' \<longleftrightarrow> ih = ih' \<and> sd = sd' \<and> v6 = v6'"
  by (auto simp: InfoHashKey_def key_defs)

lemma InfoHashKey_ne [simp]:
  "InfoHashKey ih sd v6 \<noteq> IHKey" "IHKey \<noteq> InfoHashKey ih sd v6"
  "InfoHashKey ih sd v6 \<noteq> CountSeederKey" "CountSeederKey \<noteq> InfoHashKey ih sd v6"
  "InfoHashKey ih sd v6 \<noteq> CountLeecherKey" "CountLeecherKey \<noteq> InfoHashKey ih sd v6"
  "InfoHashKey ih sd v6 \<noteq> CountDownloadsKey" "CountDownloadsKey \<noteq> InfoHashKey ih sd v6"
  by (auto simp: InfoHashKey_def key_defs)

lemma special_keys_ne [simp]:
  "IHKey \<noteq> CountSeederKey" "CountSeederKey \<noteq> IHKey" "IHKey \<noteq> CountLeecherKey" "CountLeecherKey \<noteq> IHKey"
  "IHKey \<noteq> CountDownloadsKey" "CountDownloadsKey \<noteq> IHKey" "CountSeederKey \<noteq> CountLeecherKey"
  "CountLeecherKey \<noteq> CountSeederKey" "CountSeederKey \<noteq> CountDownloadsKey" "CountDownloadsKey \<noteq> CountSeederKey"
  "CountLeecherKey \<noteq> CountDownloadsKey" "CountDownloadsKey \<noteq> CountLeecherKey"
  by (simp_all add: key_defs)

text \<open>The peers that survive serializing: all that the requests of the frontends contain.\<close>

definition storable :: "Peer \<Rightarrow> bool" where
  "storable p \<longleftrightarrow> length (peer_ID p) = PeerIDLen \<and> addr_IsValid (ap_addr (peer_AddrPort p)) \<and>
     \<not> Is4In6 (ap_addr (peer_AddrPort p)) \<and> zone (ap_addr (peer_AddrPort p)) = []"

lemma BitLen_valid: "addr_IsValid a \<Longrightarrow> BitLen a = 32 \<or> BitLen a = 128"
  by (cases a) auto

lemma Unpack_Pack:
  assumes "storable p"
  shows "UnpackPeer (PackPeer p) = Inr p"
proof -
  obtain i a n where p: "p = \<lparr>peer_ID = i, peer_AddrPort = \<lparr>ap_addr = a, ap_port = n\<rparr>\<rparr>"
    by (metis (full_types) Peer.surjective addrport.surjective unit.exhaust)
  have a: "length i = 20" "addr_IsValid a" "\<not> Is4In6 a" "zone a = []" "Unmap a = a"
    using assms by (simp_all add: storable_def p PeerIDLen_def)
  have l: "BitLen a div 8 \<ge> 4" using BitLen_valid [OF a(2)] by auto
  have s: "AddrFromSlice (AsSlice a) = Some a" using a(2,4) by (simp add: AddrFromSlice_AsSlice)
  show ?thesis
    using a l by (simp add: UnpackPeer_def PackPeer_def p Peer_Addr_def Peer_Port_def peerMinimumLen_def PeerIDLen_def
        NewPeerID_def s be_word_be_bytes_full)
qed

lemma PackPeer_inj: "storable p \<Longrightarrow> storable q \<Longrightarrow> PackPeer p = PackPeer q \<longleftrightarrow> p = q"
  using Unpack_Pack by (metis sum.inject(2))

subsection \<open>The keys of the driver\<close>

text \<open>A swarm is a hash from serialized peers of one address family to time stamps.\<close>

definition rswarm_ok :: "bool \<Rightarrow> (bytes \<rightharpoonup> bytes) \<Rightarrow> bool" where
  "rswarm_ok v6 h \<longleftrightarrow> (\<forall>f v. h f = Some v \<longrightarrow>
     (\<exists>p. storable p \<and> Is6 (Peer_Addr p) = v6 \<and> PackPeer p = f) \<and>
     (\<exists>t. - (2 ^ 63) \<le> t \<and> t < 2 ^ 63 \<and> v = FormatInt t))"

definition rswarm_at :: "keyspace \<Rightarrow> infohash \<Rightarrow> bool \<Rightarrow> bool \<Rightarrow> (bytes \<rightharpoonup> bytes)" where
  "rswarm_at ks ih sd v6 = the (hash_at ks (InfoHashKey ih sd v6))"

definition ks_typed :: "keyspace \<Rightarrow> bool" where
  "ks_typed ks \<longleftrightarrow>
     set_at ks IHKey \<noteq> None \<and> int_at ks CountSeederKey \<noteq> None \<and> int_at ks CountLeecherKey \<noteq> None \<and>
     hash_at ks CountDownloadsKey \<noteq> None \<and>
     (\<forall>v \<in> ran (the (hash_at ks CountDownloadsKey)). \<exists>n. v = FormatInt n) \<and>
     (\<forall>k \<in> the (set_at ks IHKey). \<exists>ih sd v6. is_infohash ih \<and> k = InfoHashKey ih sd v6) \<and>
     (\<forall>ih sd v6. is_infohash ih \<longrightarrow> hash_at ks (InfoHashKey ih sd v6) \<noteq> None \<and> rswarm_ok v6 (rswarm_at ks ih sd v6))"

text \<open>The garbage collection finds a swarm by its key in the set \<open>IHKey\<close>.\<close>

definition ks_listed :: "keyspace \<Rightarrow> bool" where
  "ks_listed ks \<longleftrightarrow> (\<forall>ih sd v6. is_infohash ih \<longrightarrow> rswarm_at ks ih sd v6 \<noteq> Map.empty \<longrightarrow>
     InfoHashKey ih sd v6 \<in> the (set_at ks IHKey))"

definition ks_ok :: "keyspace \<Rightarrow> bool" where
  "ks_ok ks \<longleftrightarrow> ks_typed ks \<and> ks_listed ks"

definition peers_at :: "keyspace \<Rightarrow> bool \<Rightarrow> infohash \<Rightarrow> Peer set" where
  "peers_at ks sd ih = {p. storable p \<and> PackPeer p \<in> dom (rswarm_at ks ih sd (Is6 (Peer_Addr p)))}"

definition redis_inv :: "('r \<Rightarrow> bool) \<Rightarrow> ('r \<Rightarrow> keyspace) \<Rightarrow> 'r \<Rightarrow> bool" where
  "redis_inv ok view s \<longleftrightarrow> ok s \<and> ks_ok (view s)"

lemma ks_typedE:
  assumes "ks_typed ks"
  shows "is_infohash ih \<Longrightarrow> hash_at ks (InfoHashKey ih sd v6) = Some (rswarm_at ks ih sd v6)"
    "is_infohash ih \<Longrightarrow> rswarm_ok v6 (rswarm_at ks ih sd v6)"
    "\<exists>n. int_at ks CountSeederKey = Some n" "\<exists>n. int_at ks CountLeecherKey = Some n"
    "\<exists>x. set_at ks IHKey = Some x"
    "\<exists>d. hash_at ks CountDownloadsKey = Some d \<and> (\<forall>v \<in> ran d. \<exists>n. v = FormatInt n)"
  using assms unfolding ks_typed_def by (auto simp: rswarm_at_def)

lemma ks_ok_typed: "ks_ok ks \<Longrightarrow> ks_typed ks"
  by (simp add: ks_ok_def)

lemmas ks_okE = ks_typedE [OF ks_ok_typed]

lemma rswarm_at_put [ks_simps]:
  "rswarm_at (put_hash (InfoHashKey ih sd v6) h ks) ih' sd' v6' =
     (if ih' = ih \<and> sd' = sd \<and> v6' = v6 then h else rswarm_at ks ih' sd' v6')"
  "rswarm_at (put_set IHKey x ks) ih' sd' v6' = rswarm_at ks ih' sd' v6'"
  "rswarm_at (put_int CountSeederKey n ks) ih' sd' v6' = rswarm_at ks ih' sd' v6'"
  "rswarm_at (put_int CountLeecherKey n ks) ih' sd' v6' = rswarm_at ks ih' sd' v6'"
  "rswarm_at (put_hash CountDownloadsKey h ks) ih' sd' v6' = rswarm_at ks ih' sd' v6'"
  by (auto simp: rswarm_at_def ks_simps)

text \<open>The updates that keep the types of the keys, and when they keep the set complete.\<close>

lemma ks_typed_updates:
  assumes "ks_typed ks"
  shows "rswarm_ok v6 h \<Longrightarrow> ks_typed (put_hash (InfoHashKey ih sd v6) h ks)"
    "is_infohash ih \<Longrightarrow> ks_typed (put_set IHKey (insert (InfoHashKey ih sd v6) (the (set_at ks IHKey))) ks)"
    "ks_typed (put_set IHKey (the (set_at ks IHKey) - A) ks)"
    "ks_typed (put_int CountSeederKey n ks)" "ks_typed (put_int CountLeecherKey n ks)"
    "ks_typed (put_hash CountDownloadsKey ((the (hash_at ks CountDownloadsKey))(f \<mapsto> FormatInt n)) ks)"
  using assms unfolding ks_typed_def by (simp_all add: ks_simps ran_def) blast

lemma ks_ok_swarm:
  assumes "ks_ok ks" and "rswarm_ok v6 h" and "h \<noteq> Map.empty \<Longrightarrow> InfoHashKey ih sd v6 \<in> the (set_at ks IHKey)"
  shows "ks_ok (put_hash (InfoHashKey ih sd v6) h ks)"
  using assms ks_typed_updates(1) unfolding ks_ok_def ks_listed_def by (simp add: ks_simps)

lemma ks_ok_list:
  assumes "ks_ok ks" and "is_infohash ih"
  shows "ks_ok (put_set IHKey (insert (InfoHashKey ih sd v6) (the (set_at ks IHKey))) ks)"
  using assms ks_typed_updates(2) unfolding ks_ok_def ks_listed_def by (simp add: ks_simps)

lemma ks_ok_count:
  assumes "ks_ok ks" and "k = CountSeederKey \<or> k = CountLeecherKey"
  shows "ks_ok (put_int k n ks)"
  using assms ks_typed_updates(4,5) unfolding ks_ok_def ks_listed_def by (elim disjE) (simp_all add: ks_simps)

lemma ks_ok_downloads:
  assumes "ks_ok ks"
  shows "ks_ok (put_hash CountDownloadsKey ((the (hash_at ks CountDownloadsKey))(f \<mapsto> FormatInt n)) ks)"
  using assms ks_typed_updates(6) unfolding ks_ok_def ks_listed_def by (simp add: ks_simps)

lemma ks_ok_listed:
  "ks_ok ks \<Longrightarrow> is_infohash ih \<Longrightarrow> rswarm_at ks ih sd v6 \<noteq> Map.empty \<Longrightarrow> InfoHashKey ih sd v6 \<in> the (set_at ks IHKey)"
  by (simp add: ks_ok_def ks_listed_def)

lemma rswarm_ok_put:
  assumes "rswarm_ok v6 h" and "storable p" and "Is6 (Peer_Addr p) = v6" and "- (2 ^ 63) \<le> t" and "t < 2 ^ 63"
  shows "rswarm_ok v6 (h(PackPeer p \<mapsto> FormatInt t))"
  using assms unfolding rswarm_ok_def by auto

lemma rswarm_ok_del: "rswarm_ok v6 h \<Longrightarrow> rswarm_ok v6 (h |` A)"
  by (auto simp: rswarm_ok_def restrict_map_def)

lemma peers_at_swarm:
  "peers_at (put_hash (InfoHashKey ih sd v6) h ks) sd' ih' =
     (if sd' = sd \<and> ih' = ih then {q \<in> peers_at ks sd ih. Is6 (Peer_Addr q) \<noteq> v6} \<union>
        {q. storable q \<and> Is6 (Peer_Addr q) = v6 \<and> PackPeer q \<in> dom h}
      else peers_at ks sd' ih')"
  unfolding peers_at_def rswarm_at_put by (rule set_eqI) simp

lemma peers_at_put:
  assumes "storable p"
  shows "peers_at (put_hash (peer_key ih sd p) ((rswarm_at ks ih sd (Is6 (Peer_Addr p)))(PackPeer p \<mapsto> v)) ks) sd' =
     (if sd' = sd then (peers_at ks sd)(ih := insert p (peers_at ks sd ih)) else peers_at ks sd')"
proof
  fix ih'
  have "{q \<in> peers_at ks sd ih. Is6 (Peer_Addr q) \<noteq> Is6 (Peer_Addr p)} \<union>
      {q. storable q \<and> Is6 (Peer_Addr q) = Is6 (Peer_Addr p) \<and>
        PackPeer q \<in> dom ((rswarm_at ks ih sd (Is6 (Peer_Addr p)))(PackPeer p \<mapsto> v))} = insert p (peers_at ks sd ih)"
    using PackPeer_inj [OF _ assms] assms by (auto simp: peers_at_def)
  then show "peers_at (put_hash (peer_key ih sd p) ((rswarm_at ks ih sd (Is6 (Peer_Addr p)))(PackPeer p \<mapsto> v)) ks) sd' ih' =
     (if sd' = sd then (peers_at ks sd)(ih := insert p (peers_at ks sd ih)) else peers_at ks sd') ih'"
    unfolding peer_key_def peers_at_swarm by simp
qed

lemma peers_at_del:
  assumes "storable p"
  shows "peers_at (put_hash (peer_key ih sd p) ((rswarm_at ks ih sd (Is6 (Peer_Addr p))) |` (- {PackPeer p})) ks) sd' =
     (if sd' = sd then (peers_at ks sd)(ih := peers_at ks sd ih - {p}) else peers_at ks sd')"
proof
  fix ih'
  have "{q \<in> peers_at ks sd ih. Is6 (Peer_Addr q) \<noteq> Is6 (Peer_Addr p)} \<union>
      {q. storable q \<and> Is6 (Peer_Addr q) = Is6 (Peer_Addr p) \<and>
        PackPeer q \<in> dom ((rswarm_at ks ih sd (Is6 (Peer_Addr p))) |` (- {PackPeer p}))} = peers_at ks sd ih - {p}"
    using PackPeer_inj [OF _ assms] assms by (auto simp: peers_at_def)
  then show "peers_at (put_hash (peer_key ih sd p) ((rswarm_at ks ih sd (Is6 (Peer_Addr p))) |` (- {PackPeer p})) ks) sd' ih' =
     (if sd' = sd then (peers_at ks sd)(ih := peers_at ks sd ih - {p}) else peers_at ks sd') ih'"
    unfolding peer_key_def peers_at_swarm by simp
qed

lemma peers_at_frame [simp]:
  "peers_at (put_set IHKey x ks) = peers_at ks"
  "peers_at (put_int CountSeederKey n ks) = peers_at ks"
  "peers_at (put_int CountLeecherKey n ks) = peers_at ks"
  "peers_at (put_hash CountDownloadsKey h ks) = peers_at ks"
  by (simp_all add: fun_eq_iff peers_at_def ks_simps)

subsection \<open>Writing\<close>

lemma put_commute:
  "k \<noteq> k' \<Longrightarrow> put_set k x (put_hash k' h ks) = put_hash k' h (put_set k x ks)"
  "k \<noteq> k' \<Longrightarrow> put_int k n (put_hash k' h ks) = put_hash k' h (put_int k n ks)"
  "k \<noteq> k' \<Longrightarrow> put_set k x (put_int k' n ks) = put_int k' n (put_set k x ks)"
  by (simp_all add: put_set_def put_hash_def put_int_def fun_upd_twist)

lemma tx_ok:
  assumes "redis_writes R ok view" and "ok s" and "cmds_effect q (view s) = Some ks"
  shows "\<exists>s'. redis_tx R s (None, q) = (None, s') \<and> ok s' \<and> view s' = ks"
proof -
  obtain es s' where e: "r_Exec R s q = (es, None, s')" "set es \<subseteq> {None}" "ok s'" "view s' = ks"
    using redis_writesD(2) [OF assms] by blast
  have "[err_text e. Some e \<leftarrow> es] = []" using e(2) by (induction es) auto
  then show ?thesis using e by (simp add: redis_tx_def)
qed

lemma queue_cmd_ok: "redis_writes R ok view \<Longrightarrow> queue_cmd R c q = (0, None, q @ [c])"
  by (simp add: queue_cmd_def redis_writesD(1))

lemma put_queue_ok:
  "redis_writes R ok view \<Longrightarrow> put_queue R clock k cnt f = (None, [C_HSet k [(f, FormatInt clock)], C_Incr cnt, C_SAdd IHKey [k]])"
  by (simp add: put_queue_def queue_cmd_ok Let_def)

lemma graduate_queue_ok:
  "redis_writes R ok view \<Longrightarrow> graduate_queue R clock ih p =
     (None, [C_HDel (peer_key ih False p) [PackPeer p], C_HSet (peer_key ih True p) [(PackPeer p, FormatInt clock)],
             C_Incr CountSeederKey, C_SAdd IHKey [peer_key ih True p], C_HIncrBy CountDownloadsKey ih 1])"
  by (simp add: graduate_queue_def queue_cmd_ok queue_next_def NoResultErr_def Let_def)

definition count_key :: "bool \<Rightarrow> bytes" where
  "count_key sd = (if sd then CountSeederKey else CountLeecherKey)"

lemma count_key_ne [simp]:
  "count_key sd \<noteq> IHKey" "IHKey \<noteq> count_key sd" "count_key sd \<noteq> InfoHashKey ih sd' v6"
  "InfoHashKey ih sd' v6 \<noteq> count_key sd" "count_key sd \<noteq> CountDownloadsKey" "CountDownloadsKey \<noteq> count_key sd"
  "count_key sd = count_key sd' \<longleftrightarrow> sd = sd'"
  by (simp_all add: count_key_def)

lemma count_key_frame [simp]:
  "peers_at (put_int (count_key sd) n ks) = peers_at ks"
  "rswarm_at (put_int (count_key sd) n ks) ih sd' v6 = rswarm_at ks ih sd' v6"
  by (simp_all add: count_key_def ks_simps)

lemma ks_ok_count_key: "ks_ok ks \<Longrightarrow> ks_ok (put_int (count_key sd) n ks)"
  by (rule ks_ok_count) (simp_all add: count_key_def)

lemma int_at_count: "ks_typed ks \<Longrightarrow> \<exists>n. int_at ks (count_key sd) = Some n"
  using ks_typedE(3,4) [of ks] by (cases sd) (simp_all add: count_key_def)

lemma putPeer_ok:
  assumes "redis_writes R ok view" and "redis_inv ok view s" and "is_infohash ih" and "storable p"
    and "- (2 ^ 63) \<le> clock" and "clock < 2 ^ 63"
  shows "\<exists>s'. putPeer R clock s (peer_key ih sd p) (count_key sd) (PackPeer p) = (None, s') \<and> redis_inv ok view s' \<and>
     (\<forall>sd'. peers_at (view s') sd' = (if sd' = sd then (peers_at (view s) sd)(ih := insert p (peers_at (view s) sd ih))
        else peers_at (view s) sd')) \<and>
     int_at (view s') (count_key sd) = map_option (\<lambda>n. n + 1) (int_at (view s) (count_key sd))"
proof -
  define ks v6 k where "ks = view s" and "v6 = Is6 (Peer_Addr p)" and "k = InfoHashKey ih sd v6"
  have s: "ok s" "ks_ok ks" using assms(2) by (simp_all add: redis_inv_def ks_def)
  obtain n where n: "int_at ks (count_key sd) = Some n" using int_at_count [OF ks_ok_typed [OF s(2)]] by blast
  obtain x where x: "set_at ks IHKey = Some x" using ks_okE(5) [OF s(2)] by blast
  define h where "h = (rswarm_at ks ih sd v6)(PackPeer p \<mapsto> FormatInt clock)"
  define ks' where "ks' = put_hash k h (put_int (count_key sd) (n + 1) (put_set IHKey (insert k x) ks))"
  have "cmds_effect [C_HSet k [(PackPeer p, FormatInt clock)], C_Incr (count_key sd), C_SAdd IHKey [k]] ks = Some ks'"
    using ks_okE(1) [OF s(2) assms(3)] n x
    by (simp add: ks_simps k_def ks'_def h_def put_commute)
  then obtain s' where s': "redis_tx R s (None, [C_HSet k [(PackPeer p, FormatInt clock)], C_Incr (count_key sd), C_SAdd IHKey [k]]) = (None, s')"
    "ok s'" "view s' = ks'"
    using tx_ok [OF assms(1) s(1)] unfolding ks_def by blast
  have "ks_ok (put_int (count_key sd) (n + 1) (put_set IHKey (insert k x) ks))"
    using ks_ok_count_key [OF ks_ok_list [OF s(2) assms(3)]] by (simp add: x k_def)
  moreover have "rswarm_ok v6 h"
    unfolding h_def by (rule rswarm_ok_put) (use ks_okE(2) [OF s(2) assms(3)] assms(4-6) v6_def in auto)
  ultimately have "ks_ok ks'"
    unfolding ks'_def k_def by (rule ks_ok_swarm) (simp add: ks_simps)
  moreover have "peers_at ks' sd' = (if sd' = sd then (peers_at ks sd)(ih := insert p (peers_at ks sd ih)) else peers_at ks sd')" for sd'
    using peers_at_put [OF assms(4), of ih sd "put_int (count_key sd) (n + 1) (put_set IHKey (insert k x) ks)" "FormatInt clock" sd']
    by (simp add: ks'_def h_def k_def v6_def peer_key_def ks_simps)
  moreover have "int_at ks' (count_key sd) = Some (n + 1)" by (simp add: ks'_def k_def ks_simps)
  moreover have "peer_key ih sd p = k" by (simp add: peer_key_def k_def v6_def)
  ultimately show ?thesis
    using s' n by (simp add: putPeer_def put_queue_ok [OF assms(1)] redis_inv_def ks_def)
qed

lemma delPeer_ok:
  assumes "redis_writes R ok view" and "redis_inv ok view s" and "is_infohash ih" and "storable p"
  shows "\<exists>e s'. delPeer R s (peer_key ih sd p) (count_key sd) (PackPeer p) = (e, s') \<and>
     e = (if p \<in> peers_at (view s) sd ih then None else Some ErrResourceDoesNotExist) \<and> redis_inv ok view s' \<and>
     (\<forall>sd'. peers_at (view s') sd' = (if sd' = sd then (peers_at (view s) sd)(ih := peers_at (view s) sd ih - {p})
        else peers_at (view s) sd'))"
proof -
  define ks v6 k where "ks = view s" and "v6 = Is6 (Peer_Addr p)" and "k = InfoHashKey ih sd v6"
  have s: "ok s" "ks_ok ks" using assms(2) by (simp_all add: redis_inv_def ks_def)
  have k: "hash_at ks k = Some (rswarm_at ks ih sd v6)" unfolding k_def by (rule ks_okE(1) [OF s(2) assms(3)])
  define h where "h = rswarm_at ks ih sd v6"
  obtain s1 where s1: "r_HDel R s k [PackPeer p] = (int (card (dom h \<inter> {PackPeer p})), None, s1)" "ok s1"
    "view s1 = put_hash k (h |` (- {PackPeer p})) ks"
    using redis_writesD(4) [OF assms(1) s(1) _ k [unfolded ks_def], of "[PackPeer p]"] by (auto simp: h_def ks_def)
  have in1: "p \<in> peers_at ks sd ih \<longleftrightarrow> PackPeer p \<in> dom h"
    using assms(4) by (simp add: peers_at_def h_def v6_def)
  have c: "card (dom h \<inter> {PackPeer p}) = (if p \<in> peers_at ks sd ih then 1 else 0)" by (simp add: in1)
  have "k \<in> the (set_at ks IHKey)" if "h |` (- {PackPeer p}) \<noteq> Map.empty"
  proof -
    have "h \<noteq> Map.empty" using that by auto
    then show ?thesis unfolding k_def h_def by (rule ks_ok_listed [OF s(2) assms(3)])
  qed
  then have ok1: "ks_ok (view s1)"
    unfolding s1(3) k_def using s(2) ks_okE(2) [OF s(2) assms(3)]
    by (intro ks_ok_swarm) (auto simp: h_def k_def intro: rswarm_ok_del)
  have p1: "peers_at (view s1) sd' = (if sd' = sd then (peers_at ks sd)(ih := peers_at ks sd ih - {p}) else peers_at ks sd')" for sd'
    using peers_at_del [OF assms(4), of ih sd ks sd'] by (simp add: s1(3) h_def k_def v6_def peer_key_def)
  obtain n where "int_at (view s1) (count_key sd) = Some n" using int_at_count [OF ks_ok_typed [OF ok1]] by blast
  then obtain s2 where s2: "r_Decr R s1 (count_key sd) = (None, s2)" "ok s2" "view s2 = put_int (count_key sd) (n - 1) (view s1)"
    using redis_writesD(5) [OF assms(1) s1(2)] by blast
  have kk: "peer_key ih sd p = k" by (simp add: peer_key_def k_def v6_def)
  show ?thesis
  proof (cases "p \<in> peers_at ks sd ih")
    case True
    then show ?thesis
      using s1(1) s2 p1 ks_ok_count_key [OF ok1] by (simp add: delPeer_def kk c NoResultErr_def redis_inv_def ks_def [symmetric])
  next
    case False
    then show ?thesis
      using s1(1,2) p1 ok1 by (simp add: delPeer_def kk c NoResultErr_def redis_inv_def ks_def [symmetric])
  qed
qed

lemma HIncrBy_effect:
  assumes "ks_ok ks" and "hash_at ks' CountDownloadsKey = hash_at ks CountDownloadsKey"
  shows "\<exists>m. cmd_effect (C_HIncrBy CountDownloadsKey ih 1) ks' =
     Some (put_hash CountDownloadsKey ((the (hash_at ks CountDownloadsKey))(ih \<mapsto> FormatInt m)) ks')"
proof -
  obtain d where d: "hash_at ks CountDownloadsKey = Some d" "\<forall>v \<in> ran d. \<exists>n. v = FormatInt n"
    using ks_okE(6) [OF assms(1)] by blast
  show ?thesis
  proof (cases "d ih")
    case None
    then show ?thesis using assms(2) d(1) by auto
  next
    case (Some v)
    then obtain n where "v = FormatInt n" using d(2) by (auto simp: ran_def)
    then show ?thesis using assms(2) d(1) Some by auto
  qed
qed

lemma GraduateLeecher_ok:
  assumes "redis_writes R ok view" and "redis_inv ok view s" and "is_infohash ih" and "storable p"
    and "- (2 ^ 63) \<le> clock" and "clock < 2 ^ 63"
  shows "\<exists>s'. redis_GraduateLeecher R clock s ih p = (None, s') \<and> redis_inv ok view s' \<and>
     peers_at (view s') True = (peers_at (view s) True)(ih := insert p (peers_at (view s) True ih)) \<and>
     peers_at (view s') False = (peers_at (view s) False)(ih := peers_at (view s) False ih - {p}) \<and>
     int_at (view s') CountLeecherKey = int_at (view s) CountLeecherKey"
proof -
  define ks v6 where "ks = view s" and "v6 = Is6 (Peer_Addr p)"
  define kl kd where "kl = InfoHashKey ih False v6" and "kd = InfoHashKey ih True v6"
  have s: "ok s" "ks_ok ks" using assms(2) by (simp_all add: redis_inv_def ks_def)
  obtain n where n: "int_at ks CountSeederKey = Some n" using ks_okE(3) [OF s(2)] by blast
  obtain x where x: "set_at ks IHKey = Some x" using ks_okE(5) [OF s(2)] by blast
  define hl hd where "hl = rswarm_at ks ih False v6 |` (- {PackPeer p})"
    and "hd = (rswarm_at ks ih True v6)(PackPeer p \<mapsto> FormatInt clock)"
  define ks1 where "ks1 = put_hash kl hl ks"
  define ks2 where "ks2 = put_hash kd hd (put_int CountSeederKey (n + 1) (put_set IHKey (insert kd x) ks1))"
  have ne [simp]: "kl \<noteq> kd" "kd \<noteq> kl" "kl \<noteq> IHKey" "kd \<noteq> IHKey" "IHKey \<noteq> kl" "IHKey \<noteq> kd" "CountSeederKey \<noteq> kd" "CountSeederKey \<noteq> kl"
    "kl \<noteq> CountDownloadsKey" "kd \<noteq> CountDownloadsKey" "CountDownloadsKey \<noteq> kd" "CountDownloadsKey \<noteq> kl" "kd \<noteq> CountSeederKey" "kl \<noteq> CountSeederKey"
    "CountLeecherKey \<noteq> kd" "CountLeecherKey \<noteq> kl" "kd \<noteq> CountLeecherKey" "kl \<noteq> CountLeecherKey"
    by (simp_all add: kl_def kd_def)
  have "hash_at ks2 CountDownloadsKey = hash_at ks CountDownloadsKey" by (simp add: ks2_def ks1_def ks_simps)
  then obtain m where m: "cmd_effect (C_HIncrBy CountDownloadsKey ih 1) ks2 =
      Some (put_hash CountDownloadsKey ((the (hash_at ks CountDownloadsKey))(ih \<mapsto> FormatInt m)) ks2)"
    using HIncrBy_effect [OF s(2)] by blast
  define ks3 where "ks3 = put_hash CountDownloadsKey ((the (hash_at ks CountDownloadsKey))(ih \<mapsto> FormatInt m)) ks2"
  have h: "hash_at ks kl = Some (rswarm_at ks ih False v6)" "hash_at ks kd = Some (rswarm_at ks ih True v6)"
    unfolding kl_def kd_def by (rule ks_okE(1) [OF s(2) assms(3)])+
  have "cmds_effect [C_HDel kl [PackPeer p], C_HSet kd [(PackPeer p, FormatInt clock)],
      C_Incr CountSeederKey, C_SAdd IHKey [kd]] ks = Some ks2"
    using h n x by (simp add: ks_simps ks2_def ks1_def hl_def hd_def put_commute)
  then have "cmds_effect [C_HDel kl [PackPeer p], C_HSet kd [(PackPeer p, FormatInt clock)],
      C_Incr CountSeederKey, C_SAdd IHKey [kd], C_HIncrBy CountDownloadsKey ih 1] ks = Some ks3"
    using m unfolding ks3_def by (auto simp: Option.bind_eq_Some_conv simp del: cmd_effect.simps)
  then obtain s' where s': "redis_tx R s (None, [C_HDel kl [PackPeer p], C_HSet kd [(PackPeer p, FormatInt clock)],
      C_Incr CountSeederKey, C_SAdd IHKey [kd], C_HIncrBy CountDownloadsKey ih 1]) = (None, s')" "ok s'" "view s' = ks3"
    using tx_ok [OF assms(1) s(1)] unfolding ks_def by blast
  have "hl \<noteq> Map.empty \<Longrightarrow> kl \<in> the (set_at ks IHKey)"
    using ks_ok_listed [OF s(2) assms(3)] unfolding hl_def kl_def by (metis restrict_map_empty)
  then have ok1: "ks_ok ks1"
    unfolding ks1_def kl_def using ks_okE(2) [OF s(2) assms(3)] s(2)
    by (intro ks_ok_swarm) (auto simp: hl_def intro: rswarm_ok_del)
  have "ks_ok (put_int CountSeederKey (n + 1) (put_set IHKey (insert kd x) ks1))"
    using ks_ok_count [OF ks_ok_list [OF ok1 assms(3)], of CountSeederKey] by (simp add: x kd_def ks1_def ks_simps)
  moreover have "rswarm_ok v6 hd"
    unfolding hd_def by (rule rswarm_ok_put) (use ks_okE(2) [OF s(2) assms(3)] assms(4-6) v6_def in auto)
  ultimately have ok2: "ks_ok ks2"
    unfolding ks2_def kd_def by (rule ks_ok_swarm) (simp add: ks_simps)
  have "hash_at ks2 CountDownloadsKey = hash_at ks CountDownloadsKey" by (simp add: ks2_def ks1_def ks_simps)
  then have ok3: "ks_ok ks3" using ks_ok_downloads [OF ok2, of ih m] by (simp add: ks3_def)
  have p1: "peers_at ks1 sd' = (if sd' = False then (peers_at ks False)(ih := peers_at ks False ih - {p}) else peers_at ks sd')" for sd'
    using peers_at_del [OF assms(4), of ih False ks sd'] by (simp add: ks1_def hl_def kl_def v6_def peer_key_def)
  have "rswarm_at ks1 ih True v6 = rswarm_at ks ih True v6" by (simp add: ks1_def kl_def ks_simps)
  then have "peers_at ks3 sd' = (if sd' = True then (peers_at ks1 True)(ih := insert p (peers_at ks1 True ih)) else peers_at ks1 sd')" for sd'
    using peers_at_put [OF assms(4), of ih True "put_int CountSeederKey (n + 1) (put_set IHKey (insert kd x) ks1)" "FormatInt clock" sd']
    by (simp add: ks3_def ks2_def hd_def kd_def v6_def peer_key_def ks_simps)
  then have p3: "peers_at ks3 True = (peers_at ks True)(ih := insert p (peers_at ks True ih))"
    "peers_at ks3 False = (peers_at ks False)(ih := peers_at ks False ih - {p})"
    by (simp_all add: p1)
  have "peer_key ih False p = kl" "peer_key ih True p = kd" by (simp_all add: peer_key_def kl_def kd_def v6_def)
  then show ?thesis
    using s' ok3 p3 by (simp add: redis_GraduateLeecher_def graduate_queue_ok [OF assms(1)] redis_inv_def ks_def [symmetric])
      (simp add: ks3_def ks2_def ks1_def ks_simps)
qed

subsection \<open>Reading\<close>

lemma unpack_peers_ok:
  assumes "\<forall>f \<in> set l. \<exists>p. storable p \<and> PackPeer p = f"
  shows "map PackPeer (unpack_peers l) = l \<and> (\<forall>p \<in> set (unpack_peers l). storable p)"
  using assms by (induction l) (auto simp: Unpack_Pack)

lemma PackPeer_family:
  assumes "ks_ok ks" and "is_infohash ih"
  shows "PackPeer ` of_family v6 (peers_at ks sd ih) = dom (rswarm_at ks ih sd v6)"
proof
  show "PackPeer ` of_family v6 (peers_at ks sd ih) \<subseteq> dom (rswarm_at ks ih sd v6)"
    by (auto simp: of_family_def peers_at_def)
  show "dom (rswarm_at ks ih sd v6) \<subseteq> PackPeer ` of_family v6 (peers_at ks sd ih)"
  proof
    fix f assume f: "f \<in> dom (rswarm_at ks ih sd v6)"
    then obtain p where "storable p" "Is6 (Peer_Addr p) = v6" "PackPeer p = f"
      using ks_okE(2) [OF assms, of v6 sd] by (auto simp: rswarm_ok_def dom_def)
    then show "f \<in> PackPeer ` of_family v6 (peers_at ks sd ih)"
      using f by (auto simp: of_family_def peers_at_def intro!: image_eqI [of _ _ p])
  qed
qed

lemma inj_PackPeer: "inj_on PackPeer (of_family v6 (peers_at ks sd ih))"
  by (auto simp: inj_on_def of_family_def peers_at_def PackPeer_inj)

lemma card_redis_family:
  assumes "ks_ok ks" and "is_infohash ih"
  shows "card (of_family v6 (peers_at ks sd ih)) = card (dom (rswarm_at ks ih sd v6))"
  using card_image [OF inj_PackPeer, of v6 ks sd ih] by (simp add: PackPeer_family [OF assms])

lemma finite_family:
  assumes "redis_reads R ok view" and "redis_inv ok view s" and "is_infohash ih"
  shows "finite (of_family v6 (peers_at (view s) sd ih))"
proof -
  have s: "ok s" "ks_ok (view s)" using assms(2) by (simp_all add: redis_inv_def)
  have "finite (dom (rswarm_at (view s) ih sd v6))"
    using redis_readsD(1) [OF assms(1) s(1) ks_okE(1) [OF s(2) assms(3)]] .
  then show ?thesis
    using PackPeer_family [OF s(2) assms(3), of v6 sd] finite_image_iff [OF inj_PackPeer] by metis
qed

lemma finite_peers:
  assumes "redis_reads R ok view" and "redis_inv ok view s" and "is_infohash ih"
  shows "finite (peers_at (view s) sd ih)"
proof -
  have "peers_at (view s) sd ih = of_family True (peers_at (view s) sd ih) \<union> of_family False (peers_at (view s) sd ih)"
    by (auto simp: of_family_def)
  then show ?thesis using finite_family [OF assms] by (metis finite_Un)
qed

lemma card_peers:
  assumes "redis_reads R ok view" and "redis_inv ok view s" and "is_infohash ih"
  shows "card (peers_at (view s) sd ih) =
     card (of_family False (peers_at (view s) sd ih)) + card (of_family True (peers_at (view s) sd ih))"
  by (rule card_of_family [OF finite_peers [OF assms]])

text \<open>
  What \<open>GetPeers\<close> makes of the serialized members of two swarms \<open>P True\<close> (seeders) and
  \<open>P False\<close> (leechers) of one address family.
\<close>

definition members_of :: "(bytes \<Rightarrow> int \<Rightarrow> bytes list \<times> err) \<Rightarrow> bytes \<Rightarrow> Peer set \<Rightarrow> bool" where
  "members_of membersFn k P \<longleftrightarrow> finite P \<and> (\<forall>p \<in> P. storable p) \<and>
     (\<forall>n > 0. \<exists>l. membersFn k n = (l, None) \<and> distinct l \<and> set l \<subseteq> PackPeer ` P \<and> int (length l) = min n (int (card P)))"

lemma parse_members:
  assumes "members_of membersFn k P" and "0 < n"
  shows "\<exists>ps. parsePeersList (membersFn k n) = (ps, None) \<and> set ps \<subseteq> P \<and> int (length ps) = min n (int (card P)) \<and>
     (int (length ps) < n \<longrightarrow> set ps = P)"
proof -
  have P: "finite P" "\<forall>p \<in> P. storable p" using assms(1) by (simp_all add: members_of_def)
  obtain l where l: "membersFn k n = (l, None)" "distinct l" "set l \<subseteq> PackPeer ` P" "int (length l) = min n (int (card P))"
    using assms unfolding members_of_def by blast
  have u: "map PackPeer (unpack_peers l) = l" "\<forall>p \<in> set (unpack_peers l). storable p"
    using unpack_peers_ok [of l] l(3) P(2) by auto
  have "p \<in> P" if p: "p \<in> set (unpack_peers l)" for p
  proof -
    have "PackPeer p \<in> set l" using u(1) p by (metis image_eqI set_map)
    then obtain q where "q \<in> P" "PackPeer p = PackPeer q" using l(3) by blast
    then show ?thesis using u(2) P(2) p PackPeer_inj by blast
  qed
  then have sub: "set (unpack_peers l) \<subseteq> P" by blast
  have d: "distinct (unpack_peers l)" using u(1) l(2) by (metis distinct_map)
  have len: "int (length (unpack_peers l)) = min n (int (card P))" using u(1) l(4) by (metis length_map)
  have "set (unpack_peers l) = P" if "int (length (unpack_peers l)) < n"
    using card_subset_eq [OF P(1) sub] that len distinct_card [OF d] by simp
  then show ?thesis using sub len l(1) by (simp add: parsePeersList_def NoResultErr_def)
qed

lemma GetPeers_ok:
  assumes "\<And>sd. members_of membersFn (InfoHashKey ih sd v6) (P sd)" and "0 < n"
  shows "\<exists>ps e. GetPeers membersFn ih forSeeder n v6 = (ps, e) \<and> benign e \<and>
     set ps \<subseteq> (if forSeeder then {} else P True) \<union> P False \<and>
     int (length ps) = min n (int ((if forSeeder then 0 else card (P True)) + card (P False))) \<and>
     (int (length ps) < n \<longrightarrow> set ps = (if forSeeder then {} else P True) \<union> P False)"
proof (cases forSeeder)
  case True
  obtain ps where ps: "parsePeersList (membersFn (InfoHashKey ih False v6) n) = (ps, None)" "set ps \<subseteq> P False"
    "int (length ps) = min n (int (card (P False)))" "int (length ps) < n \<longrightarrow> set ps = P False"
    using parse_members [OF assms(1) assms(2), of False] by blast
  have "get_peers membersFn [InfoHashKey ih False v6] n [] = (ps, None)" using ps(1) by simp
  then show ?thesis using True ps(2-4) by (auto simp: GetPeers_def)
next
  case False
  obtain ps where ps: "parsePeersList (membersFn (InfoHashKey ih True v6) n) = (ps, None)" "set ps \<subseteq> P True"
    "int (length ps) = min n (int (card (P True)))" "int (length ps) < n \<longrightarrow> set ps = P True"
    using parse_members [OF assms(1) assms(2), of True] by blast
  show ?thesis
  proof (cases "int (length ps) < n")
    case less: True
    then have n': "0 < n - int (length ps)" by simp
    obtain qs where qs: "parsePeersList (membersFn (InfoHashKey ih False v6) (n - int (length ps))) = (qs, None)"
      "set qs \<subseteq> P False" "int (length qs) = min (n - int (length ps)) (int (card (P False)))"
      "int (length qs) < n - int (length ps) \<longrightarrow> set qs = P False"
      using parse_members [OF assms(1) n', of False] by blast
    have "get_peers membersFn [InfoHashKey ih True v6, InfoHashKey ih False v6] n [] = (ps @ qs, None)"
      using ps(1) qs(1) less by simp
    then show ?thesis using False ps qs less by (auto simp: GetPeers_def)
  next
    case ge: False
    then have "get_peers membersFn [InfoHashKey ih True v6, InfoHashKey ih False v6] n [] = (ps, None)"
      using ps(1) by simp
    moreover have "length ps \<noteq> 0" using ge assms(2) by linarith
    moreover have "int (length ps) = n" "n \<le> int (card (P True))" using ge ps(3) by linarith+
    ultimately show ?thesis using False ps(2) assms(2) by (auto simp: GetPeers_def)
  qed
qed

lemma AnnouncePeers_ok:
  assumes "redis_reads R ok view" and "redis_inv ok view s" and "is_infohash ih" and "0 < n"
  shows "\<exists>ps e. redis_AnnouncePeers R s ih forSeeder n v6 = (ps, e) \<and> benign e \<and>
     set ps \<subseteq> of_family v6 ((if forSeeder then {} else peers_at (view s) True ih) \<union> peers_at (view s) False ih) \<and>
     int (length ps) = min n (int ((if forSeeder then 0 else card (of_family v6 (peers_at (view s) True ih))) +
        card (of_family v6 (peers_at (view s) False ih)))) \<and>
     (int (length ps) < n \<longrightarrow>
        set ps = of_family v6 ((if forSeeder then {} else peers_at (view s) True ih) \<union> peers_at (view s) False ih))"
proof -
  have s: "ok s" "ks_ok (view s)" using assms(2) by (simp_all add: redis_inv_def)
  have "members_of (r_HRandField R s) (InfoHashKey ih sd v6) (of_family v6 (peers_at (view s) sd ih))" for sd
    using redis_readsD(6) [OF assms(1) s(1) ks_okE(1) [OF s(2) assms(3)]] finite_family [OF assms(1-3)]
    unfolding members_of_def PackPeer_family [OF s(2) assms(3)] card_redis_family [OF s(2) assms(3)]
    by (auto simp: of_family_def peers_at_def)
  from GetPeers_ok [OF this assms(4), of forSeeder] show ?thesis
    by (cases forSeeder) (simp_all add: redis_AnnouncePeers_def)
qed

text \<open>
  What \<open>ScrapeIH\<close> makes of the sizes \<open>c sd v6\<close> of the four swarms of an infohash and of the
  hash of the download counts.
\<close>

lemma ScrapeIH_ok:
  assumes "\<And>sd v6. countFn (InfoHashKey ih sd v6) = (int (c sd v6), None)"
    and "r_HGet R s CountDownloadsKey ih = (case d ih of None \<Rightarrow> ([], Some redis_Nil) | Some v \<Rightarrow> (v, None))"
    and "\<forall>v \<in> ran d. \<exists>n. v = FormatInt n"
    and "\<And>n. r_Int64 R (FormatInt n, None) = (n, None)" and "\<And>v e. r_Int64 R (v, Some e) = (0, Some e)"
  shows "\<exists>dc. ScrapeIH R s countFn ih = (of_nat (c False False + c False True), of_nat (c True False + c True True), dc, None)"
proof -
  have "\<exists>m e. r_Int64 R (r_HGet R s CountDownloadsKey ih) = (m, e) \<and> NoResultErr e = None"
  proof (cases "d ih")
    case None
    then show ?thesis using assms(2,5) by (simp add: NoResultErr_def)
  next
    case (Some v)
    then obtain n where "v = FormatInt n" using assms(3) by (auto simp: ran_def)
    then show ?thesis using assms(2,4) Some by (simp add: NoResultErr_def)
  qed
  then obtain m e where m: "r_Int64 R (r_HGet R s CountDownloadsKey ih) = (m, e)" "NoResultErr e = None" by blast
  have n: "NoResultErr None = None" by (simp add: NoResultErr_def)
  show ?thesis unfolding ScrapeIH_def assms(1) m(1) prod.case Let_def n m(2) by simp
qed

lemma ScrapeSwarm_ok:
  assumes "redis_reads R ok view" and "redis_inv ok view s" and "is_infohash ih"
  shows "\<exists>d. redis_ScrapeSwarm R s ih =
     (of_nat (card (peers_at (view s) False ih)), of_nat (card (peers_at (view s) True ih)), d, None)"
proof -
  have s: "ok s" "ks_ok (view s)" using assms(2) by (simp_all add: redis_inv_def)
  obtain d where d: "hash_at (view s) CountDownloadsKey = Some d" "\<forall>v \<in> ran d. \<exists>n. v = FormatInt n"
    using ks_okE(6) [OF s(2)] by blast
  note r = redis_readsD [OF assms(1) s(1)]
  show ?thesis
    unfolding redis_ScrapeSwarm_def card_peers [OF assms] card_redis_family [OF s(2) assms(3)]
    by (rule ScrapeIH_ok [where c = "\<lambda>sd v6. card (dom (rswarm_at (view s) ih sd v6))",
        OF r(2) [OF ks_okE(1) [OF s(2) assms(3)]] r(3) [OF d(1)] d(2) r(9) r(10)])
qed

subsection \<open>The storage contract\<close>

text \<open>
  A storage that keeps its peers by role and infohash, \<open>at\<close>, satisfies the contract when each
  operation does its update of \<open>at\<close> for well-formed infohashes. The drivers for Redis and for
  KeyDB both reach the contract this way.
\<close>

definition keyed_swarms :: "('s \<Rightarrow> bool \<Rightarrow> infohash \<Rightarrow> Peer set) \<Rightarrow> bool \<Rightarrow> 's \<Rightarrow> infohash \<Rightarrow> Peer set" where
  "keyed_swarms at sd s ih = (if is_infohash ih then at s sd ih else {})"

lemma keyed_swarms_at [simp]: "is_infohash ih \<Longrightarrow> keyed_swarms at sd s ih = at s sd ih"
  by (simp add: keyed_swarms_def)

lemma keyed_peer_storage:
  assumes put: "\<And>s ih p sd. I s \<Longrightarrow> is_infohash ih \<Longrightarrow> pok p \<Longrightarrow>
      \<exists>s'. (if sd then ps_PutSeeder st s ih p else ps_PutLeecher st s ih p) = Ret (None, s') \<and> I s' \<and>
        (\<forall>sd'. at s' sd' = (if sd' = sd then (at s sd)(ih := insert p (at s sd ih)) else at s sd'))"
    and del: "\<And>s ih p sd. I s \<Longrightarrow> is_infohash ih \<Longrightarrow> pok p \<Longrightarrow>
      \<exists>e s'. (if sd then ps_DeleteSeeder st s ih p else ps_DeleteLeecher st s ih p) = Ret (e, s') \<and> benign e \<and> I s' \<and>
        (\<forall>sd'. at s' sd' = (if sd' = sd then (at s sd)(ih := at s sd ih - {p}) else at s sd'))"
    and grad: "\<And>s ih p. I s \<Longrightarrow> is_infohash ih \<Longrightarrow> pok p \<Longrightarrow>
      \<exists>s'. ps_GraduateLeecher st s ih p = Ret (None, s') \<and> I s' \<and>
        at s' True = (at s True)(ih := insert p (at s True ih)) \<and> at s' False = (at s False)(ih := at s False ih - {p})"
    and ann: "\<And>s ih forSeeder n v6. I s \<Longrightarrow> is_infohash ih \<Longrightarrow> 0 < n \<Longrightarrow>
      \<exists>ps e. ps_AnnouncePeers st s ih forSeeder n v6 = Ret (ps, e) \<and> benign e \<and>
        set ps \<subseteq> of_family v6 ((if forSeeder then {} else at s True ih) \<union> at s False ih) \<and>
        int (length ps) = min n (int ((if forSeeder then 0 else card (of_family v6 (at s True ih))) +
          card (of_family v6 (at s False ih)))) \<and>
        (int (length ps) < n \<longrightarrow> set ps = of_family v6 ((if forSeeder then {} else at s True ih) \<union> at s False ih))"
    and scr: "\<And>s ih. I s \<Longrightarrow> is_infohash ih \<Longrightarrow>
      \<exists>d. ps_ScrapeSwarm st s ih = Ret (of_nat (card (at s False ih)), of_nat (card (at s True ih)), d, None)"
    and fin: "\<And>s ih sd. I s \<Longrightarrow> is_infohash ih \<Longrightarrow> finite (at s sd ih)"
  shows "peer_storage st I (keyed_swarms at True) (keyed_swarms at False) pok"
proof unfold_locales
  fix s ih p assume a: "I s" "is_infohash ih" "pok p"
  show "\<exists>s'. ps_PutSeeder st s ih p = Ret (None, s') \<and> I s' \<and>
      keyed_swarms at True s' = (keyed_swarms at True s)(ih := insert p (keyed_swarms at True s ih)) \<and> keyed_swarms at False s' = keyed_swarms at False s"
    using put [OF a, of True] a(2) by simp (elim exE conjE, intro exI conjI, assumption+, simp_all add: keyed_swarms_def fun_eq_iff)
  show "\<exists>s'. ps_PutLeecher st s ih p = Ret (None, s') \<and> I s' \<and>
      keyed_swarms at True s' = keyed_swarms at True s \<and> keyed_swarms at False s' = (keyed_swarms at False s)(ih := insert p (keyed_swarms at False s ih))"
    using put [OF a, of False] a(2) by simp (elim exE conjE, intro exI conjI, assumption+, simp_all add: keyed_swarms_def fun_eq_iff)
  show "\<exists>e s'. ps_DeleteSeeder st s ih p = Ret (e, s') \<and> benign e \<and> I s' \<and>
      keyed_swarms at True s' = (keyed_swarms at True s)(ih := keyed_swarms at True s ih - {p}) \<and> keyed_swarms at False s' = keyed_swarms at False s"
    using del [OF a, of True] a(2) by simp (elim exE conjE, intro exI conjI, assumption+, simp_all add: keyed_swarms_def fun_eq_iff)
  show "\<exists>e s'. ps_DeleteLeecher st s ih p = Ret (e, s') \<and> benign e \<and> I s' \<and>
      keyed_swarms at True s' = keyed_swarms at True s \<and> keyed_swarms at False s' = (keyed_swarms at False s)(ih := keyed_swarms at False s ih - {p})"
    using del [OF a, of False] a(2) by simp (elim exE conjE, intro exI conjI, assumption+, simp_all add: keyed_swarms_def fun_eq_iff)
  show "\<exists>s'. ps_GraduateLeecher st s ih p = Ret (None, s') \<and> I s' \<and>
      keyed_swarms at True s' = (keyed_swarms at True s)(ih := insert p (keyed_swarms at True s ih)) \<and>
      keyed_swarms at False s' = (keyed_swarms at False s)(ih := keyed_swarms at False s ih - {p})"
    using grad [OF a] a(2) by simp (elim exE conjE, intro exI conjI, assumption+, simp_all add: keyed_swarms_def fun_eq_iff)
qed (simp_all only: ann scr keyed_swarms_at, simp add: keyed_swarms_def fin)

lemma redis_peer_storage:
  assumes "redis_writes R ok view" and "redis_reads R ok view" and "- (2 ^ 63) \<le> clock" and "clock < 2 ^ 63"
  shows "peer_storage (redis_storage R clock) (redis_inv ok view)
     (keyed_swarms (\<lambda>s. peers_at (view s)) True) (keyed_swarms (\<lambda>s. peers_at (view s)) False) storable"
proof (rule keyed_peer_storage)
  note ops = redis_storage_def redis_PutSeeder_def redis_PutLeecher_def redis_DeleteSeeder_def redis_DeleteLeecher_def
  have ck: "count_key True = CountSeederKey" "count_key False = CountLeecherKey" by (simp_all add: count_key_def)
  fix s ih p sd assume a: "redis_inv ok view s" "is_infohash ih" "storable p"
  show "\<exists>s'. (if sd then ps_PutSeeder (redis_storage R clock) s ih p else ps_PutLeecher (redis_storage R clock) s ih p) =
      Ret (None, s') \<and> redis_inv ok view s' \<and>
      (\<forall>sd'. peers_at (view s') sd' = (if sd' = sd then (peers_at (view s) sd)(ih := insert p (peers_at (view s) sd ih))
         else peers_at (view s) sd'))"
    using putPeer_ok [OF assms(1) a assms(3,4), of sd] by (cases sd) (auto simp: ops ck)
  show "\<exists>e s'. (if sd then ps_DeleteSeeder (redis_storage R clock) s ih p else ps_DeleteLeecher (redis_storage R clock) s ih p) =
      Ret (e, s') \<and> benign e \<and> redis_inv ok view s' \<and>
      (\<forall>sd'. peers_at (view s') sd' = (if sd' = sd then (peers_at (view s) sd)(ih := peers_at (view s) sd ih - {p})
         else peers_at (view s) sd'))"
  proof -
    obtain e s' where d: "delPeer R s (peer_key ih sd p) (count_key sd) (PackPeer p) = (e, s')"
      "e = (if p \<in> peers_at (view s) sd ih then None else Some ErrResourceDoesNotExist)" "redis_inv ok view s'"
      "\<forall>sd'. peers_at (view s') sd' = (if sd' = sd then (peers_at (view s) sd)(ih := peers_at (view s) sd ih - {p})
         else peers_at (view s) sd')"
      using delPeer_ok [OF assms(1) a, of sd] by (elim exE conjE)
    have "(if sd then ps_DeleteSeeder (redis_storage R clock) s ih p else ps_DeleteLeecher (redis_storage R clock) s ih p) =
        Ret (e, s')" using d(1) by (cases sd) (simp_all add: ops ck)
    moreover have "benign e" by (simp add: d(2))
    ultimately show ?thesis using d(3,4) by (intro exI conjI)
  qed
  show "\<exists>s'. ps_GraduateLeecher (redis_storage R clock) s ih p = Ret (None, s') \<and> redis_inv ok view s' \<and>
      peers_at (view s') True = (peers_at (view s) True)(ih := insert p (peers_at (view s) True ih)) \<and>
      peers_at (view s') False = (peers_at (view s) False)(ih := peers_at (view s) False ih - {p})"
    using GraduateLeecher_ok [OF assms(1) a assms(3,4)] by (auto simp: redis_storage_def)
qed (use AnnouncePeers_ok [OF assms(2)] ScrapeSwarm_ok [OF assms(2)] finite_peers [OF assms(2)] in \<open>simp_all add: redis_storage_def\<close>)

subsection \<open>Garbage collection\<close>

text \<open>The peers of a swarm whose time stamp is after the cutoff.\<close>

definition fresh_fields :: "int \<Rightarrow> (bytes \<rightharpoonup> bytes) \<Rightarrow> (bytes \<rightharpoonup> bytes)" where
  "fresh_fields cutoff h = h |` {f. \<forall>t. h f = Some (FormatInt t) \<longrightarrow> cutoff < t}"

lemma gc_count_key_swarm: "gc_count_key (InfoHashKey ih sd v6) = Some (count_key sd)"
  by (cases sd; cases v6) (simp_all add: gc_count_key_def HasPrefix_def InfoHashKey_def key_defs count_key_def)

lemma peers_to_remove_iff:
  assumes "distinct (map fst l)" and "map_of l = h" and "rswarm_ok v6 h"
  shows "f \<in> set (peers_to_remove cutoff l) \<longleftrightarrow> (\<exists>t. h f = Some (FormatInt t) \<and> t \<le> cutoff)"
proof -
  have old: "(case x of Some t \<Rightarrow> t \<le> cutoff | None \<Rightarrow> False) \<longleftrightarrow> (\<exists>t. x = Some t \<and> t \<le> cutoff)" for x
    by (cases x) simp_all
  have "f \<in> set (peers_to_remove cutoff l) \<longleftrightarrow> (\<exists>v t. (f, v) \<in> set l \<and> ParseInt v = Some t \<and> t \<le> cutoff)"
    by (auto simp: peers_to_remove_def old)
  also have "\<dots> \<longleftrightarrow> (\<exists>v t. h f = Some v \<and> ParseInt v = Some t \<and> t \<le> cutoff)"
    using assms(1,2) by (auto simp: map_of_eq_Some_iff)
  also have "\<dots> \<longleftrightarrow> (\<exists>t. h f = Some (FormatInt t) \<and> t \<le> cutoff)"
    using assms(3) by (fastforce simp: rswarm_ok_def ParseInt_FormatInt FormatInt_inj)
  finally show ?thesis .
qed

lemma peers_to_remove_set:
  assumes "distinct (map fst l)" and "map_of l = h" and "rswarm_ok v6 h"
  shows "h |` (- set (peers_to_remove cutoff l)) = fresh_fields cutoff h"
  using peers_to_remove_iff [OF assms] by (auto simp: fresh_fields_def restrict_map_def fun_eq_iff not_le)

definition removed :: "int \<Rightarrow> (bytes \<rightharpoonup> bytes) \<Rightarrow> bytes set" where
  "removed cutoff h = {f. \<exists>t. h f = Some (FormatInt t) \<and> t \<le> cutoff}"

definition redis_typed :: "('r \<Rightarrow> bool) \<Rightarrow> ('r \<Rightarrow> keyspace) \<Rightarrow> 'r \<Rightarrow> bool" where
  "redis_typed ok view s \<longleftrightarrow> ok s \<and> ks_typed (view s)"

lemma gc_remove_ok:
  assumes "redis_writes R ok view" and "redis_typed ok view s" and "is_infohash ih"
    and "distinct (map fst l)" and "map_of l = rswarm_at (view s) ih sd v6"
    and "s' = gc_remove R (InfoHashKey ih sd v6) (count_key sd) (peers_to_remove cutoff l) s"
  shows "redis_typed ok view s'" "set_at (view s') IHKey = set_at (view s) IHKey"
    "rswarm_at (view s') ih' sd' v6' = (if ih' = ih \<and> sd' = sd \<and> v6' = v6 then fresh_fields cutoff (rswarm_at (view s) ih sd v6)
       else rswarm_at (view s) ih' sd' v6')"
    "int_at (view s') (count_key sd') = map_option (\<lambda>n. n - (if sd' = sd then int (card (removed cutoff (rswarm_at (view s) ih sd v6))) else 0))
       (int_at (view s) (count_key sd'))"
proof -
  define h k fs where "h = rswarm_at (view s) ih sd v6" and "k = InfoHashKey ih sd v6" and "fs = peers_to_remove cutoff l"
  have s: "ok s" "ks_typed (view s)" using assms(2) by (simp_all add: redis_typed_def)
  have k: "hash_at (view s) k = Some h" unfolding k_def h_def by (rule ks_typedE(1) [OF s(2) assms(3)])
  have sw: "rswarm_ok v6 h" unfolding h_def by (rule ks_typedE(2) [OF s(2) assms(3)])
  have fr: "h |` (- set fs) = fresh_fields cutoff h" unfolding fs_def
    by (rule peers_to_remove_set [OF assms(4) _ sw]) (simp add: assms(5) h_def)
  have rm: "set fs = removed cutoff h"
    unfolding fs_def removed_def using peers_to_remove_iff [OF assms(4) _ sw] assms(5) by (auto simp: h_def)
  have sub: "dom h \<inter> set fs = removed cutoff h" by (auto simp: rm removed_def)
  have "redis_typed ok view s' \<and> set_at (view s') IHKey = set_at (view s) IHKey \<and>
    rswarm_at (view s') ih' sd' v6' = (if ih' = ih \<and> sd' = sd \<and> v6' = v6 then fresh_fields cutoff h else rswarm_at (view s) ih' sd' v6') \<and>
    int_at (view s') (count_key sd') = map_option (\<lambda>n. n - (if sd' = sd then int (card (removed cutoff h)) else 0)) (int_at (view s) (count_key sd'))"
  proof (cases "fs = []")
    case True
    have "h |` (- set fs) = h" using True by (auto simp: restrict_map_def)
    then have "fresh_fields cutoff h = h" using fr by simp
    moreover have "s' = s" "removed cutoff h = {}"
      using assms(6) True rm by (simp_all add: gc_remove_def fs_def)
    ultimately
    show ?thesis using assms(2) by (auto simp: h_def option.map_ident)
  next
    case False
    obtain s1 where s1: "r_HDel R s k fs = (int (card (removed cutoff h)), None, s1)" "ok s1" "view s1 = put_hash k (fresh_fields cutoff h) (view s)"
      using redis_writesD(4) [OF assms(1) s(1) False k] by (auto simp: fr sub)
    have "finite (removed cutoff h)" using rm by (metis finite_set)
    then have pos: "0 < card (removed cutoff h)" using False rm by (simp add: card_gt_0_iff) (metis set_empty)
    obtain n where n: "int_at (view s) (count_key sd) = Some n" using int_at_count [OF s(2)] by blast
    then have "int_at (view s1) (count_key sd) = Some n" by (simp add: s1(3) k_def ks_simps)
    then obtain s2 where s2: "r_DecrBy R s1 (count_key sd) (int (card (removed cutoff h))) = (None, s2)" "ok s2"
      "view s2 = put_int (count_key sd) (n - int (card (removed cutoff h))) (view s1)"
      using redis_writesD(6) [OF assms(1) s1(2)] by blast
    have e: "s' = s2" using assms(6) s1(1) s2(1) False pos
      by (simp add: gc_remove_def fs_def [symmetric] k_def [symmetric] NoResultErr_def)
    have "rswarm_ok v6 (fresh_fields cutoff h)" unfolding fresh_fields_def by (rule rswarm_ok_del [OF sw])
    then have "ks_typed (view s1)" unfolding s1(3) k_def by (rule ks_typed_updates(1) [OF s(2)])
    then have "ks_typed (view s2)" using ks_typed_updates(4,5) [of "view s1"] by (simp add: s2(3) count_key_def)
    then show ?thesis using s2(2,3) n
      by (auto simp: e redis_typed_def s1(3) k_def ks_simps option.map_ident)
  qed
  then show "redis_typed ok view s'" "set_at (view s') IHKey = set_at (view s) IHKey"
    "rswarm_at (view s') ih' sd' v6' = (if ih' = ih \<and> sd' = sd \<and> v6' = v6 then fresh_fields cutoff (rswarm_at (view s) ih sd v6)
       else rswarm_at (view s) ih' sd' v6')"
    "int_at (view s') (count_key sd') = map_option (\<lambda>n. n - (if sd' = sd then int (card (removed cutoff (rswarm_at (view s) ih sd v6))) else 0))
       (int_at (view s) (count_key sd'))"
    by (simp_all add: h_def)
qed

lemma gc_watch_ok:
  assumes "redis_writes R ok view" and "redis_reads R ok view" and "redis_typed ok view s" and "is_infohash ih"
    and "s' = gc_watch R (InfoHashKey ih sd v6) s"
  shows "redis_typed ok view s'" "rswarm_at (view s') ih' sd' v6' = rswarm_at (view s) ih' sd' v6'"
    "the (set_at (view s') IHKey) = the (set_at (view s) IHKey) -
       (if rswarm_at (view s) ih sd v6 = Map.empty then {InfoHashKey ih sd v6} else {})"
    "int_at (view s') (count_key sd') = int_at (view s) (count_key sd')"
proof -
  have s: "ok s" "ks_typed (view s)" using assms(3) by (simp_all add: redis_typed_def)
  let ?h = "rswarm_at (view s) ih sd v6" and ?k = "InfoHashKey ih sd v6"
  note rd = redis_readsD [OF assms(2) s(1)]
  have fin: "finite (dom ?h)" by (rule rd(1) [OF ks_typedE(1) [OF s(2) assms(4)]])
  have e: "gc_empty R s ?k \<longleftrightarrow> ?h = Map.empty"
    using rd(2) [OF ks_typedE(1) [OF s(2) assms(4)], of sd v6] fin by (simp add: gc_empty_def NoResultErr_def)
  obtain x where x: "set_at (view s) IHKey = Some x" using ks_typedE(5) [OF s(2)] by blast
  obtain m s1 where s1: "r_SRem R s IHKey [?k] = (m, None, s1)" "ok s1" "view s1 = put_set IHKey (x - {?k}) (view s)"
    using redis_writesD(7) [OF assms(1) s(1) _ x, of "[?k]"] by auto
  have u: "gc_unlist R s ?k = s1" by (simp add: gc_unlist_def s1(1))
  have i: "redis_typed ok view s1"
    using ks_typed_updates(3) [OF s(2), of "{?k}"] s1(2) by (simp add: redis_typed_def s1(3) x)
  have w: "s' = (if ?h = Map.empty then s1 else s)" using assms(5) by (simp add: gc_watch_def rd(8) e u)
  show "redis_typed ok view s'" using w i assms(3) by auto
  show "rswarm_at (view s') ih' sd' v6' = rswarm_at (view s) ih' sd' v6'" by (simp add: w s1(3) ks_simps)
  show "the (set_at (view s') IHKey) = the (set_at (view s) IHKey) - (if ?h = Map.empty then {?k} else {})"
    by (simp add: w s1(3) x ks_simps)
  show "int_at (view s') (count_key sd') = int_at (view s) (count_key sd')" by (simp add: w s1(3) ks_simps)
qed

lemma gc_key_ok:
  assumes "redis_writes R ok view" and "redis_reads R ok view" and "redis_typed ok view s" and "is_infohash ih"
    and "s' = gc_key R cutoff (InfoHashKey ih sd v6) s"
  shows "redis_typed ok view s'"
    "rswarm_at (view s') ih' sd' v6' = (if ih' = ih \<and> sd' = sd \<and> v6' = v6 then fresh_fields cutoff (rswarm_at (view s) ih sd v6)
       else rswarm_at (view s) ih' sd' v6')"
    "the (set_at (view s') IHKey) = the (set_at (view s) IHKey) -
       (if fresh_fields cutoff (rswarm_at (view s) ih sd v6) = Map.empty then {InfoHashKey ih sd v6} else {})"
proof -
  let ?k = "InfoHashKey ih sd v6"
  have s: "ok s" "ks_typed (view s)" using assms(3) by (simp_all add: redis_typed_def)
  obtain l where l: "r_HGetAll R s ?k = (l, None)" "distinct (map fst l)" "map_of l = rswarm_at (view s) ih sd v6"
    using redis_readsD(5) [OF assms(2) s(1) ks_typedE(1) [OF s(2) assms(4)]] by blast
  define s1 where "s1 = gc_remove R ?k (count_key sd) (peers_to_remove cutoff l) s"
  note r = gc_remove_ok [OF assms(1,3,4) l(2,3) s1_def]
  have "s' = gc_watch R ?k s1"
    using assms(5) l(1) by (simp add: gc_key_def gc_count_key_swarm s1_def NoResultErr_def)
  note w = gc_watch_ok [OF assms(1,2) r(1) assms(4) this]
  show "redis_typed ok view s'" by (rule w(1))
  show "rswarm_at (view s') ih' sd' v6' = (if ih' = ih \<and> sd' = sd \<and> v6' = v6 then fresh_fields cutoff (rswarm_at (view s) ih sd v6)
       else rswarm_at (view s) ih' sd' v6')" unfolding w(2) r(3) ..
  show "the (set_at (view s') IHKey) = the (set_at (view s) IHKey) -
       (if fresh_fields cutoff (rswarm_at (view s) ih sd v6) = Map.empty then {?k} else {})"
    unfolding w(3) r(2,3) by simp
qed

lemma gc_keys_ok:
  assumes "redis_writes R ok view" and "redis_reads R ok view"
  shows "redis_typed ok view s \<Longrightarrow> distinct l \<Longrightarrow> \<forall>k \<in> set l. \<exists>ih sd v6. is_infohash ih \<and> k = InfoHashKey ih sd v6 \<Longrightarrow>
    s' = foldl (\<lambda>s k. gc_key R cutoff k s) s l \<Longrightarrow> redis_typed ok view s' \<and>
    (\<forall>ih sd v6. rswarm_at (view s') ih sd v6 =
       (if InfoHashKey ih sd v6 \<in> set l then fresh_fields cutoff (rswarm_at (view s) ih sd v6) else rswarm_at (view s) ih sd v6)) \<and>
    (\<forall>ih sd v6. InfoHashKey ih sd v6 \<in> the (set_at (view s') IHKey) \<longleftrightarrow> InfoHashKey ih sd v6 \<in> the (set_at (view s) IHKey) \<and>
       \<not> (InfoHashKey ih sd v6 \<in> set l \<and> fresh_fields cutoff (rswarm_at (view s) ih sd v6) = Map.empty))"
proof (induction l arbitrary: s)
  case Nil
  then show ?case by simp
next
  case (Cons k l)
  obtain ih sd v6 where k: "is_infohash ih" "k = InfoHashKey ih sd v6" using Cons.prems(3) by auto
  define s1 where "s1 = gc_key R cutoff (InfoHashKey ih sd v6) s"
  note g = gc_key_ok [OF assms Cons.prems(1) k(1) s1_def]
  have "redis_typed ok view s' \<and>
    (\<forall>ih sd v6. rswarm_at (view s') ih sd v6 =
       (if InfoHashKey ih sd v6 \<in> set l then fresh_fields cutoff (rswarm_at (view s1) ih sd v6) else rswarm_at (view s1) ih sd v6)) \<and>
    (\<forall>ih sd v6. InfoHashKey ih sd v6 \<in> the (set_at (view s') IHKey) \<longleftrightarrow> InfoHashKey ih sd v6 \<in> the (set_at (view s1) IHKey) \<and>
       \<not> (InfoHashKey ih sd v6 \<in> set l \<and> fresh_fields cutoff (rswarm_at (view s1) ih sd v6) = Map.empty))"
    using Cons.prems g(1) by (intro Cons.IH) (auto simp: s1_def k)
  then show ?case using Cons.prems(2) unfolding g(2,3) k(2) by auto
qed

lemma redis_gc_ok:
  assumes "redis_writes R ok view" and "redis_reads R ok view" and "redis_typed ok view s"
    and "s' = redis_gc R cutoff s"
  shows "redis_typed ok view s'"
    "rswarm_at (view s') ih sd v6 = (if InfoHashKey ih sd v6 \<in> the (set_at (view s) IHKey)
       then fresh_fields cutoff (rswarm_at (view s) ih sd v6) else rswarm_at (view s) ih sd v6)"
    "InfoHashKey ih sd v6 \<in> the (set_at (view s') IHKey) \<longleftrightarrow>
       InfoHashKey ih sd v6 \<in> the (set_at (view s) IHKey) \<and> fresh_fields cutoff (rswarm_at (view s) ih sd v6) \<noteq> Map.empty"
proof -
  have s: "ok s" "ks_typed (view s)" using assms(3) by (simp_all add: redis_typed_def)
  obtain x where x: "set_at (view s) IHKey = Some x" using ks_typedE(5) [OF s(2)] by blast
  obtain l where l: "r_SMembers R s IHKey = (l, None)" "distinct l" "set l = x"
    using redis_readsD(7) [OF assms(2) s(1) x] by blast
  have "\<forall>k \<in> set l. \<exists>ih sd v6. is_infohash ih \<and> k = InfoHashKey ih sd v6"
    using s(2) x l(3) unfolding ks_typed_def by simp
  moreover have "s' = foldl (\<lambda>s k. gc_key R cutoff k s) s l"
    using assms(4) l(1) by (simp add: redis_gc_def NoResultErr_def)
  ultimately have "redis_typed ok view s' \<and>
    (\<forall>ih sd v6. rswarm_at (view s') ih sd v6 =
       (if InfoHashKey ih sd v6 \<in> set l then fresh_fields cutoff (rswarm_at (view s) ih sd v6) else rswarm_at (view s) ih sd v6)) \<and>
    (\<forall>ih sd v6. InfoHashKey ih sd v6 \<in> the (set_at (view s') IHKey) \<longleftrightarrow> InfoHashKey ih sd v6 \<in> the (set_at (view s) IHKey) \<and>
       \<not> (InfoHashKey ih sd v6 \<in> set l \<and> fresh_fields cutoff (rswarm_at (view s) ih sd v6) = Map.empty))"
    by (rule gc_keys_ok [OF assms(1,2,3) l(2)])
  then show "redis_typed ok view s'"
    "rswarm_at (view s') ih sd v6 = (if InfoHashKey ih sd v6 \<in> the (set_at (view s) IHKey)
       then fresh_fields cutoff (rswarm_at (view s) ih sd v6) else rswarm_at (view s) ih sd v6)"
    "InfoHashKey ih sd v6 \<in> the (set_at (view s') IHKey) \<longleftrightarrow>
       InfoHashKey ih sd v6 \<in> the (set_at (view s) IHKey) \<and> fresh_fields cutoff (rswarm_at (view s) ih sd v6) \<noteq> Map.empty"
    by (auto simp: l(3) x)
qed

lemma fresh_fields_empty [simp]: "fresh_fields cutoff Map.empty = Map.empty"
  by (simp add: fresh_fields_def)

text \<open>The time stamp of a peer in a swarm.\<close>

definition stamped :: "keyspace \<Rightarrow> bool \<Rightarrow> infohash \<Rightarrow> Peer \<Rightarrow> int \<Rightarrow> bool" where
  "stamped ks sd ih p t \<longleftrightarrow> rswarm_at ks ih sd (Is6 (Peer_Addr p)) (PackPeer p) = Some (FormatInt t)"

subsection \<open>Properties\<close>

text \<open>
  C7: The Redis driver, over a server whose commands do what is documented and with a clock in
  the range of \<open>int64\<close>, satisfies the storage contract the middleware relies on, for the peers
  that its serialization can represent.
\<close>

theorem redis_storage_contract:
  assumes "redis_writes R ok view" and "redis_reads R ok view" and "- (2 ^ 63) \<le> clock" and "clock < 2 ^ 63"
  shows "peer_storage (redis_storage R clock) (redis_inv ok view)
     (keyed_swarms (\<lambda>s. peers_at (view s)) True) (keyed_swarms (\<lambda>s. peers_at (view s)) False) storable"
  using assms by (rule redis_peer_storage)

text \<open>
  C14: Garbage collection in Redis, with no other client active. It keeps the invariant of the
  driver, removes from every swarm exactly the peers whose time stamp is not after the cutoff,
  and leaves in the set of swarms the keys of those that still have peers.
\<close>

theorem redis_gc_correct:
  assumes "redis_writes R ok view" and "redis_reads R ok view" and "redis_inv ok view s"
  shows "redis_inv ok view (redis_gc R cutoff s) \<and>
    (\<forall>ih sd. is_infohash ih \<longrightarrow> peers_at (view (redis_gc R cutoff s)) sd ih =
       {p \<in> peers_at (view s) sd ih. \<forall>t. stamped (view s) sd ih p t \<longrightarrow> cutoff < t}) \<and>
    (\<forall>ih sd v6. is_infohash ih \<longrightarrow> (InfoHashKey ih sd v6 \<in> the (set_at (view (redis_gc R cutoff s)) IHKey) \<longleftrightarrow>
       (\<exists>p \<in> peers_at (view (redis_gc R cutoff s)) sd ih. Is6 (Peer_Addr p) = v6)))"
proof -
  define s' where "s' = redis_gc R cutoff s"
  have t: "redis_typed ok view s" "ks_ok (view s)" using assms(3) by (simp_all add: redis_typed_def redis_inv_def ks_ok_def)
  note g = redis_gc_ok [OF assms(1,2) t(1) s'_def]
  have sw: "rswarm_at (view s') ih sd v6 = fresh_fields cutoff (rswarm_at (view s) ih sd v6)" if "is_infohash ih" for ih sd v6
    using ks_ok_listed [OF t(2) that, of sd v6] unfolding g(2) by (cases "rswarm_at (view s) ih sd v6 = Map.empty") auto
  have li: "InfoHashKey ih sd v6 \<in> the (set_at (view s') IHKey) \<longleftrightarrow> rswarm_at (view s') ih sd v6 \<noteq> Map.empty"
    if "is_infohash ih" for ih sd v6
    using ks_ok_listed [OF t(2) that, of sd v6] unfolding g(3) sw [OF that]
    by (cases "rswarm_at (view s) ih sd v6 = Map.empty") auto
  have ok: "redis_inv ok view s'"
    using g(1) li unfolding redis_inv_def redis_typed_def ks_ok_def ks_listed_def by auto
  moreover have "peers_at (view s') sd ih = {p \<in> peers_at (view s) sd ih. \<forall>t. stamped (view s) sd ih p t \<longrightarrow> cutoff < t}"
    if "is_infohash ih" for ih sd
    by (auto simp: peers_at_def sw [OF that] stamped_def fresh_fields_def restrict_map_def split: if_splits)
  moreover have "InfoHashKey ih sd v6 \<in> the (set_at (view s') IHKey) \<longleftrightarrow>
      (\<exists>p \<in> peers_at (view s') sd ih. Is6 (Peer_Addr p) = v6)" if ih: "is_infohash ih" for ih sd v6
  proof -
    have k: "ks_ok (view s')" using ok by (simp add: redis_inv_def)
    have "rswarm_at (view s') ih sd v6 \<noteq> Map.empty \<longleftrightarrow> dom (rswarm_at (view s') ih sd v6) \<noteq> {}" by auto
    also have "\<dots> \<longleftrightarrow> of_family v6 (peers_at (view s') sd ih) \<noteq> {}"
      by (simp flip: PackPeer_family [OF k ih])
    finally show ?thesis using li [OF ih] by (auto simp: of_family_def)
  qed
  ultimately show ?thesis unfolding s'_def by blast
qed

text \<open>
  C15: Garbage collection in Redis with another client active. The comment of \<open>gc\<close> relies on a
  transaction that fails when a swarm changes between the check that it is empty and the
  removal of its key; there is no transaction around the two commands. When a peer is put in
  between, its swarm is no longer in the set of swarms, and no later collection removes the
  peer, whatever its age.
\<close>

theorem redis_gc_race:
  assumes "redis_writes R ok view" and "redis_reads R ok view" and "redis_inv ok view s"
    and "is_infohash ih" and "storable p" and "- (2 ^ 63) \<le> clock" and "clock < 2 ^ 63"
    and "gc_empty R s (peer_key ih True p)"
  shows "\<exists>s1. redis_PutSeeder R clock s ih p = (None, s1) \<and>
    (let s2 = gc_unlist R s1 (peer_key ih True p) in
       \<not> ks_listed (view s2) \<and> (\<forall>cutoff. p \<in> peers_at (view (redis_gc R cutoff s2)) True ih))"
proof -
  let ?k = "peer_key ih True p"
  obtain s1 where s1: "redis_PutSeeder R clock s ih p = (None, s1)" "redis_inv ok view s1" "p \<in> peers_at (view s1) True ih"
    using putPeer_ok [OF assms(1,3-7), of True] by (auto simp: redis_PutSeeder_def count_key_def)
  have t: "ok s1" "ks_typed (view s1)" using s1(2) by (simp_all add: redis_inv_def ks_ok_def)
  obtain x where x: "set_at (view s1) IHKey = Some x" using ks_typedE(5) [OF t(2)] by blast
  obtain m s2 where s2: "r_SRem R s1 IHKey [?k] = (m, None, s2)" "ok s2" "view s2 = put_set IHKey (x - {?k}) (view s1)"
    using redis_writesD(7) [OF assms(1) t(1) _ x, of "[?k]"] by auto
  have u: "gc_unlist R s1 ?k = s2" by (simp add: gc_unlist_def s2(1))
  have t2: "redis_typed ok view s2"
    using ks_typed_updates(3) [OF t(2), of "{?k}"] s2(2) by (simp add: redis_typed_def s2(3) x)
  have n: "?k \<notin> the (set_at (view s2) IHKey)" by (simp add: s2(3) ks_simps)
  have p2: "p \<in> peers_at (view s2) True ih" using s1(3) by (simp add: s2(3))
  then have "rswarm_at (view s2) ih True (Is6 (Peer_Addr p)) \<noteq> Map.empty" by (auto simp: peers_at_def)
  then have "\<not> ks_listed (view s2)" using n assms(4) unfolding ks_listed_def peer_key_def by blast
  moreover have "p \<in> peers_at (view (redis_gc R cutoff s2)) True ih" for cutoff
    using p2 n redis_gc_ok(2) [OF assms(1,2) t2 refl, of cutoff ih True "Is6 (Peer_Addr p)"]
    by (simp add: peers_at_def peer_key_def)
  ultimately show ?thesis using s1(1) u by (simp add: Let_def)
qed

text \<open>
  The counters of the Redis driver drift away from the swarms: each announce of a seeder
  adds one to the number of seeders, also when the peer is in the swarm already, and a
  graduation leaves the number of leechers as it was, because the result of the queued
  deletion is read before the transaction is executed.
\<close>

theorem redis_counters_drift:
  assumes "redis_writes R ok view" and "redis_inv ok view s" and "is_infohash ih" and "storable p"
    and "- (2 ^ 63) \<le> clock" and "clock < 2 ^ 63"
  shows "(\<exists>s'. redis_PutSeeder R clock s ih p = (None, s') \<and>
       int_at (view s') CountSeederKey = map_option (\<lambda>n. n + 1) (int_at (view s) CountSeederKey) \<and>
       (p \<in> peers_at (view s) True ih \<longrightarrow> peers_at (view s') = peers_at (view s))) \<and>
    (\<exists>s'. redis_GraduateLeecher R clock s ih p = (None, s') \<and>
       int_at (view s') CountLeecherKey = int_at (view s) CountLeecherKey \<and>
       peers_at (view s') False ih = peers_at (view s) False ih - {p})"
proof
  obtain s' where s': "redis_PutSeeder R clock s ih p = (None, s')"
    "\<forall>sd'. peers_at (view s') sd' = (if sd' = True then (peers_at (view s) True)(ih := insert p (peers_at (view s) True ih))
        else peers_at (view s) sd')"
    "int_at (view s') CountSeederKey = map_option (\<lambda>n. n + 1) (int_at (view s) CountSeederKey)"
    using putPeer_ok [OF assms, of True] by (auto simp: redis_PutSeeder_def count_key_def)
  have "peers_at (view s') sd' = peers_at (view s) sd'" if "p \<in> peers_at (view s) True ih" for sd'
    using s'(2) that by (simp add: insert_absorb)
  then show "\<exists>s'. redis_PutSeeder R clock s ih p = (None, s') \<and>
       int_at (view s') CountSeederKey = map_option (\<lambda>n. n + 1) (int_at (view s) CountSeederKey) \<and>
       (p \<in> peers_at (view s) True ih \<longrightarrow> peers_at (view s') = peers_at (view s))"
    using s'(1,3) by (auto simp: fun_eq_iff)
  obtain s1 where "redis_GraduateLeecher R clock s ih p = (None, s1)"
      "peers_at (view s1) False = (peers_at (view s) False)(ih := peers_at (view s) False ih - {p})"
      "int_at (view s1) CountLeecherKey = int_at (view s) CountLeecherKey"
    using GraduateLeecher_ok [OF assms] by blast
  then show "\<exists>s'. redis_GraduateLeecher R clock s ih p = (None, s') \<and>
       int_at (view s') CountLeecherKey = int_at (view s) CountLeecherKey \<and>
       peers_at (view s') False ih = peers_at (view s) False ih - {p}"
    by (intro exI [of _ s1]) simp
qed

text \<open>
  Serialized peers. Unpacking a packed peer recovers it, and what unpacks at all is the
  packing of its result, up to IPv4 addresses that are mapped into IPv6.
\<close>

theorem UnpackPeer_roundtrip:
  "(storable p \<longrightarrow> UnpackPeer (PackPeer p) = Inr p) \<and>
   (UnpackPeer b = Inr q \<longrightarrow> storable q \<and> (length b = 26 \<or> length b = 38) \<and>
      (PackPeer q = b \<or> length b = 38 \<and> length (PackPeer q) = 26))"
proof (intro conjI impI)
  show "UnpackPeer (PackPeer p) = Inr p" if "storable p" using that by (rule Unpack_Pack)
  assume q: "UnpackPeer b = Inr q"
  then obtain a where a: "26 \<le> length b" "AddrFromSlice (drop 22 b) = Some a"
    "q = \<lparr>peer_ID = take 20 b, peer_AddrPort = \<lparr>ap_addr = Unmap a, ap_port = be_word (take 2 (drop 20 b))\<rparr>\<rparr>"
    by (auto simp: UnpackPeer_def NewPeerID_def peerMinimumLen_def PeerIDLen_def split: if_splits option.splits)
  have l: "length b = 26 \<or> length b = 38" using AddrFromSlice_Some_iff [of "drop 22 b"] a(1,2) by auto
  have v: "addr_IsValid a" "zone a = []" using AddrFromSlice_valid [OF a(2)] by simp_all
  have z: "zone (Unmap a) = []" using v(2) by (cases a) auto
  show "storable q" using a(1,3) v z by (simp add: storable_def PeerIDLen_def)
  show "length b = 26 \<or> length b = 38" by (rule l)
  have port: "be_bytes 2 (be_word (take 2 (drop 20 b)) :: u16) = take 2 (drop 20 b)"
    using be_bytes_be_word [of "take 2 (drop 20 b)", where ?'a = 16] a(1) by simp
  have pk: "PackPeer q = take 20 b @ take 2 (drop 20 b) @ AsSlice (Unmap a)"
    by (simp add: PackPeer_def a(3) Peer_Addr_def Peer_Port_def port PeerIDLen_def)
  show "PackPeer q = b \<or> length b = 38 \<and> length (PackPeer q) = 26"
  proof (cases "Is4In6 a")
    case True
    then have "length (AsSlice a) = 16" "BitLen (Unmap a) = 32" by (cases a; simp)+
    moreover from this have "length b = 38" using AsSlice_AddrFromSlice [OF a(2)] l by auto
    ultimately show ?thesis by (simp add: pk)
  next
    case False
    then have "PackPeer q = take 20 b @ take 2 (drop 20 b) @ drop 22 b"
      using AsSlice_AddrFromSlice [OF a(2)] by (simp add: pk)
    also have "drop 22 b = drop 2 (drop 20 b)" by simp
    also have "take 20 b @ take 2 (drop 20 b) @ drop 2 (drop 20 b) = b" by (simp only: append_take_drop_id)
    finally show ?thesis by simp
  qed
qed

text \<open>
  Blank addresses in the configuration of the Redis driver. They are dropped, but the
  default address takes their place only when the list was empty before; a list of blank
  addresses passes validation and makes the start of the tracker panic.
\<close>

theorem redis_blank_addresses:
  assumes "rc_Addresses cfg \<noteq> []" and "\<forall>a \<in> set (rc_Addresses cfg). TrimSpace trim a = []"
    and "\<not> rc_Cluster cfg" and "\<not> rc_Sentinel cfg"
  shows "redis_newStore trim png (Inr cfg) = Panic ''index out of range''"
proof -
  have "[a \<leftarrow> rc_Addresses cfg. length (TrimSpace trim a) > 0] = []" using assms(2) by (simp add: filter_empty_conv)
  then show ?thesis using assms
    by (simp add: redis_newStore_def RedisConfig_Validate_def redis_Connect_def redis_new_client_def Let_def)
qed

subsection \<open>Witnesses\<close>

definition redis_peer :: Peer where
  "redis_peer = \<lparr>peer_ID = replicate 20 1, peer_AddrPort = \<lparr>ap_addr = AddrV4 0x01020304, ap_port = 6881\<rparr>\<rparr>"

definition redis_ih :: infohash where
  "redis_ih = replicate 20 3"

lemma redis_peer_storable: "storable redis_peer"
  by (simp add: storable_def redis_peer_def PeerIDLen_def)

lemma redis_ih_ok: "is_infohash redis_ih"
  by (simp add: is_infohash_def redis_ih_def len_defs)

lemma empty_server_inv: "redis_inv srv_ok srv_view []"
proof -
  have "hash_at (srv_view []) k = Some Map.empty" "set_at (srv_view []) k = Some {}" "int_at (srv_view []) k = Some 0"
    "rswarm_at (srv_view []) ih sd v6 = Map.empty" for k ih sd v6
    by (simp_all add: hash_at_def set_at_def int_at_def rswarm_at_def)
  then show ?thesis
    by (simp add: redis_inv_def ks_ok_def ks_typed_def ks_listed_def rswarm_ok_def)
qed

theorem redis_storage_contract_witness:
  "peer_storage (redis_storage example_server 7) (redis_inv srv_ok srv_view)
     (keyed_swarms (\<lambda>s. peers_at (srv_view s)) True) (keyed_swarms (\<lambda>s. peers_at (srv_view s)) False) storable \<and>
   redis_inv srv_ok srv_view [] \<and> storable redis_peer"
  using redis_storage_contract [OF example_server_writes example_server_reads, of 7] empty_server_inv redis_peer_storable
  by simp

interpretation rds: peer_storage "redis_storage example_server 7" "redis_inv srv_ok srv_view"
    "keyed_swarms (\<lambda>s. peers_at (srv_view s)) True" "keyed_swarms (\<lambda>s. peers_at (srv_view s)) False" storable
  by (rule redis_peer_storage [OF example_server_writes example_server_reads]) simp_all

theorem redis_gc_correct_witness:
  "\<exists>s. redis_PutSeeder example_server 5 [] redis_ih redis_peer = (None, s) \<and>
     redis_inv srv_ok srv_view (redis_gc example_server 9 s)"
proof -
  obtain s where "redis_PutSeeder example_server 5 [] redis_ih redis_peer = (None, s)" "redis_inv srv_ok srv_view s"
    using putPeer_ok [OF example_server_writes empty_server_inv redis_ih_ok redis_peer_storable, of 5 True]
    by (auto simp: redis_PutSeeder_def count_key_def)
  then show ?thesis
    using redis_gc_correct [OF example_server_writes example_server_reads, of s 9] by auto
qed

theorem redis_gc_race_witness:
  "\<exists>s1. redis_PutSeeder example_server 5 [] redis_ih redis_peer = (None, s1) \<and>
     redis_peer \<in> peers_at (srv_view (redis_gc example_server 1000 (gc_unlist example_server s1 (peer_key redis_ih True redis_peer))))
       True redis_ih"
proof -
  have "gc_empty example_server [] (peer_key redis_ih True redis_peer)"
    by (simp add: gc_empty_def example_server_def get_hash_def NoResultErr_def)
  then show ?thesis
    using redis_gc_race [OF example_server_writes example_server_reads empty_server_inv redis_ih_ok redis_peer_storable, of 5]
    by (auto simp: Let_def)
qed

theorem redis_counters_drift_witness:
  "\<exists>s. redis_GraduateLeecher example_server 5 [] redis_ih redis_peer = (None, s) \<and> int_at (srv_view s) CountLeecherKey = Some 0"
  using redis_counters_drift [OF example_server_writes empty_server_inv redis_ih_ok redis_peer_storable, of 5]
  by (auto simp: int_at_def)

theorem UnpackPeer_roundtrip_witness:
  "storable redis_peer \<and> UnpackPeer (PackPeer redis_peer) = Inr redis_peer"
  using UnpackPeer_roundtrip [of redis_peer] redis_peer_storable by simp

definition blank_config :: RedisConfig where
  "blank_config = \<lparr>rc_PeerLifetime = 0, rc_Addresses = [[32], []], rc_DB = 0, rc_PoolSize = 0, rc_Login = [], rc_Password = [],
     rc_Sentinel = False, rc_SentinelMaster = [], rc_Cluster = False, rc_ReadTimeout = 0, rc_WriteTimeout = 0,
     rc_ConnectTimeout = 0\<rparr>"

theorem redis_blank_addresses_witness:
  "redis_newStore (\<lambda>b. b) (\<lambda>c. None) (Inr blank_config) = Panic ''index out of range''"
  by (rule redis_blank_addresses) (simp_all add: blank_config_def TrimSpace_def is_space_def)

end
