(* ===== verification/KeyDb.thy ===== *)
theory KeyDb
  imports RedisProps
begin

section \<open>Package \<open>storage/keydb\<close>: the KeyDB driver\<close>

text \<open>
  \<open>storage/keydb/storage.go\<close>: keyed_swarms are sets whose members expire on the server. It shares the
  connection, the keys and the reading of keyed_swarms with the Redis driver; \<open>keydb\<close> adds the
  commands that only this driver sends. The properties are about the commands at one moment:
  members that expire later are removed by the server.
\<close>

subsection \<open>The driver\<close>

record 'r keydb = "'r redis" +
  k_SAdd :: "'r \<Rightarrow> bytes \<Rightarrow> bytes \<Rightarrow> err \<times> 'r"
  k_SMove :: "'r \<Rightarrow> bytes \<Rightarrow> bytes \<Rightarrow> bytes \<Rightarrow> bool \<times> err \<times> 'r"
  k_SRandMemberN :: "'r \<Rightarrow> bytes \<Rightarrow> int \<Rightarrow> bytes list \<times> err"
  k_ExpireMember :: "'r \<Rightarrow> bytes \<Rightarrow> bytes \<Rightarrow> nat \<Rightarrow> err \<times> 'r"
  k_HIncrBy :: "'r \<Rightarrow> bytes \<Rightarrow> bytes \<Rightarrow> int \<Rightarrow> err \<times> 'r"

definition errNotKeyDB :: goerror where
  "errNotKeyDB = OtherError ''provided instance seems not KeyDB''"

text \<open>
  Starting: \<open>commandInfo\<close> is the reply to \<open>COMMAND INFO\<close>, the number of known commands and the
  error; \<open>seconds\<close> is the conversion of a duration to whole seconds through \<open>float64\<close>. The
  result holds the client and the lifetime of a member.
\<close>

definition keydb_newStore ::
  "(bytes \<Rightarrow> bytes) \<Rightarrow> (redis_client \<Rightarrow> err) \<Rightarrow> (redis_client option \<Rightarrow> nat \<times> err) \<Rightarrow> (duration \<Rightarrow> nat) \<Rightarrow>
   goerror + RedisConfig \<Rightarrow> (goerror + redis_client option \<times> nat) go" where
  "keydb_newStore trim png commandInfo seconds conf =
     (case conf of Inl e \<Rightarrow> Ret (Inl e)
      | Inr cfg0 \<Rightarrow>
     (case RedisConfig_Validate trim cfg0 of Inl e \<Rightarrow> Ret (Inl e)
      | Inr cfg1 \<Rightarrow>
          (let cfg = (if rc_PeerLifetime cfg1 \<le> 0 then cfg1\<lparr>rc_PeerLifetime := DefaultPeerLifetime\<rparr> else cfg1) in
           bind_go (redis_Connect png cfg) (\<lambda>(rs, e).
             case e of Some x \<Rightarrow> Ret (Inl x)
             | None \<Rightarrow>
                 (let (n, cmdErr) = commandInfo rs;
                      e1 = NoResultErr cmdErr;
                      e2 = (if e1 = None \<and> n = 0 then Some errNotKeyDB else e1)
                  in Ret (case e2 of Some x \<Rightarrow> Inl x | None \<Rightarrow> Inr (rs, seconds (rc_PeerLifetime cfg))))))))"

definition keydb_addPeer :: "'r keydb \<Rightarrow> nat \<Rightarrow> 'r \<Rightarrow> bytes \<Rightarrow> bytes \<Rightarrow> err \<times> 'r" where
  "keydb_addPeer K peerTTL s infoHashKey peerID =
     (let (e, s1) = k_SAdd K s infoHashKey peerID in
      if e = None then k_ExpireMember K s1 infoHashKey peerID peerTTL else (e, s1))"

definition keydb_delPeer :: "'r keydb \<Rightarrow> 'r \<Rightarrow> bytes \<Rightarrow> bytes \<Rightarrow> err \<times> 'r" where
  "keydb_delPeer K s infoHashKey peerID =
     (let (deleted, e, s1) = r_SRem K s infoHashKey [peerID]; e' = NoResultErr e in
      (if e' = None \<and> deleted = 0 then Some ErrResourceDoesNotExist else e', s1))"

definition keydb_PutSeeder :: "'r keydb \<Rightarrow> nat \<Rightarrow> 'r \<Rightarrow> infohash \<Rightarrow> Peer \<Rightarrow> err \<times> 'r" where
  "keydb_PutSeeder K ttl s ih p = keydb_addPeer K ttl s (peer_key ih True p) (PackPeer p)"

definition keydb_DeleteSeeder :: "'r keydb \<Rightarrow> 'r \<Rightarrow> infohash \<Rightarrow> Peer \<Rightarrow> err \<times> 'r" where
  "keydb_DeleteSeeder K s ih p = keydb_delPeer K s (peer_key ih True p) (PackPeer p)"

definition keydb_PutLeecher :: "'r keydb \<Rightarrow> nat \<Rightarrow> 'r \<Rightarrow> infohash \<Rightarrow> Peer \<Rightarrow> err \<times> 'r" where
  "keydb_PutLeecher K ttl s ih p = keydb_addPeer K ttl s (peer_key ih False p) (PackPeer p)"

definition keydb_DeleteLeecher :: "'r keydb \<Rightarrow> 'r \<Rightarrow> infohash \<Rightarrow> Peer \<Rightarrow> err \<times> 'r" where
  "keydb_DeleteLeecher K s ih p = keydb_delPeer K s (peer_key ih False p) (PackPeer p)"

definition keydb_GraduateLeecher :: "'r keydb \<Rightarrow> nat \<Rightarrow> 'r \<Rightarrow> infohash \<Rightarrow> Peer \<Rightarrow> err \<times> 'r" where
  "keydb_GraduateLeecher K peerTTL s ih p =
     (let peerID = PackPeer p; ihSeederKey = peer_key ih True p; ihLeecherKey = peer_key ih False p;
          (moved, e, s1) = k_SMove K s ihLeecherKey ihSeederKey peerID
      in if e = None
         then let (e1, s2) = (if \<not> moved then k_SAdd K s1 ihSeederKey peerID else (None, s1))
              in if e1 \<noteq> None
                 then let (e2, s3) = k_ExpireMember K s2 ihSeederKey peerID peerTTL
                      in if e2 = None then k_HIncrBy K s3 CountDownloadsKey ih 1 else (e2, s3)
                 else (None, s2)
         else (e, s1))"

definition keydb_AnnouncePeers :: "'r keydb \<Rightarrow> 'r \<Rightarrow> infohash \<Rightarrow> bool \<Rightarrow> int \<Rightarrow> bool \<Rightarrow> Peer list \<times> err" where
  "keydb_AnnouncePeers K s ih forSeeder numWant v6 = GetPeers (k_SRandMemberN K s) ih forSeeder numWant v6"

definition keydb_ScrapeSwarm :: "'r keydb \<Rightarrow> 'r \<Rightarrow> infohash \<Rightarrow> u32 \<times> u32 \<times> u32 \<times> err" where
  "keydb_ScrapeSwarm K s ih = ScrapeIH K s (r_SCard K s) ih"

definition keydb_storage :: "'r keydb \<Rightarrow> nat \<Rightarrow> 'r PeerStorage" where
  "keydb_storage K ttl =
     \<lparr>ds_Put = redis_Put K, ds_Contains = redis_Contains K, ds_Load = redis_Load K, ds_Delete = redis_Delete K,
      ds_Preservable = True,
      ps_PutSeeder = \<lambda>s ih p. Ret (keydb_PutSeeder K ttl s ih p),
      ps_DeleteSeeder = \<lambda>s ih p. Ret (keydb_DeleteSeeder K s ih p),
      ps_PutLeecher = \<lambda>s ih p. Ret (keydb_PutLeecher K ttl s ih p),
      ps_DeleteLeecher = \<lambda>s ih p. Ret (keydb_DeleteLeecher K s ih p),
      ps_GraduateLeecher = \<lambda>s ih p. Ret (keydb_GraduateLeecher K ttl s ih p),
      ps_AnnouncePeers = \<lambda>s ih forSeeder n v6. Ret (keydb_AnnouncePeers K s ih forSeeder n v6),
      ps_ScrapeSwarm = \<lambda>s ih. Ret (keydb_ScrapeSwarm K s ih),
      ps_Ping = r_Ping K\<rparr>"

subsection \<open>What is documented of the commands\<close>

definition keydb_documented :: "'r keydb \<Rightarrow> ('r \<Rightarrow> bool) \<Rightarrow> ('r \<Rightarrow> keyspace) \<Rightarrow> bool" where
  "keydb_documented K ok view \<longleftrightarrow>
     (\<forall>s k x m. ok s \<longrightarrow> set_at (view s) k = Some x \<longrightarrow>
        (\<exists>s'. k_SAdd K s k m = (None, s') \<and> ok s' \<and> view s' = put_set k (insert m x) (view s))) \<and>
     (\<forall>s k x m. ok s \<longrightarrow> set_at (view s) k = Some x \<longrightarrow>
        (\<exists>s'. r_SRem K s k [m] = (if m \<in> x then 1 else 0, None, s') \<and> ok s' \<and> view s' = put_set k (x - {m}) (view s))) \<and>
     (\<forall>s k x k' x' m. ok s \<longrightarrow> set_at (view s) k = Some x \<longrightarrow> set_at (view s) k' = Some x' \<longrightarrow> k \<noteq> k' \<longrightarrow>
        (\<exists>s'. k_SMove K s k k' m = (m \<in> x, None, s') \<and> ok s' \<and>
           view s' = (if m \<in> x then put_set k' (insert m x') (put_set k (x - {m}) (view s)) else view s))) \<and>
     (\<forall>s k x m t. ok s \<longrightarrow> set_at (view s) k = Some x \<longrightarrow> m \<in> x \<longrightarrow> 0 < t \<longrightarrow>
        (\<exists>s'. k_ExpireMember K s k m t = (None, s') \<and> ok s' \<and> view s' = view s)) \<and>
     (\<forall>s k x. ok s \<longrightarrow> set_at (view s) k = Some x \<longrightarrow> finite x \<and> r_SCard K s k = (int (card x), None)) \<and>
     (\<forall>s k x n. ok s \<longrightarrow> set_at (view s) k = Some x \<longrightarrow> 0 < n \<longrightarrow>
        (\<exists>l. k_SRandMemberN K s k n = (l, None) \<and> distinct l \<and> set l \<subseteq> x \<and> int (length l) = min n (int (card x)))) \<and>
     (\<forall>s k h f. ok s \<longrightarrow> hash_at (view s) k = Some h \<longrightarrow>
        r_HGet K s k f = (case h f of None \<Rightarrow> ([], Some redis_Nil) | Some v \<Rightarrow> (v, None))) \<and>
     (\<forall>n. r_Int64 K (FormatInt n, None) = (n, None)) \<and>
     (\<forall>v e. r_Int64 K (v, Some e) = (0, Some e))"

lemma keydbD:
  assumes "keydb_documented K ok view"
  shows "ok s \<Longrightarrow> set_at (view s) k = Some x \<Longrightarrow>
        \<exists>s'. k_SAdd K s k m = (None, s') \<and> ok s' \<and> view s' = put_set k (insert m x) (view s)"
    "ok s \<Longrightarrow> set_at (view s) k = Some x \<Longrightarrow>
        \<exists>s'. r_SRem K s k [m] = (if m \<in> x then 1 else 0, None, s') \<and> ok s' \<and> view s' = put_set k (x - {m}) (view s)"
    "ok s \<Longrightarrow> set_at (view s) k = Some x \<Longrightarrow> set_at (view s) k' = Some x' \<Longrightarrow> k \<noteq> k' \<Longrightarrow>
        \<exists>s'. k_SMove K s k k' m = (m \<in> x, None, s') \<and> ok s' \<and>
           view s' = (if m \<in> x then put_set k' (insert m x') (put_set k (x - {m}) (view s)) else view s)"
    "ok s \<Longrightarrow> set_at (view s) k = Some x \<Longrightarrow> m \<in> x \<Longrightarrow> 0 < t \<Longrightarrow>
        \<exists>s'. k_ExpireMember K s k m t = (None, s') \<and> ok s' \<and> view s' = view s"
    "ok s \<Longrightarrow> set_at (view s) k = Some x \<Longrightarrow> finite x"
    "ok s \<Longrightarrow> set_at (view s) k = Some x \<Longrightarrow> r_SCard K s k = (int (card x), None)"
    "ok s \<Longrightarrow> set_at (view s) k = Some x \<Longrightarrow> 0 < n \<Longrightarrow>
        \<exists>l. k_SRandMemberN K s k n = (l, None) \<and> distinct l \<and> set l \<subseteq> x \<and> int (length l) = min n (int (card x))"
    "ok s \<Longrightarrow> hash_at (view s) k = Some h \<Longrightarrow> r_HGet K s k f = (case h f of None \<Rightarrow> ([], Some redis_Nil) | Some v \<Rightarrow> (v, None))"
    "r_Int64 K (FormatInt i, None) = (i, None)" "r_Int64 K (v, Some e) = (0, Some e)"
  using assms unfolding keydb_documented_def by simp_all

subsection \<open>The keys of the driver\<close>

definition kset :: "keyspace \<Rightarrow> infohash \<Rightarrow> bool \<Rightarrow> bool \<Rightarrow> bytes set" where
  "kset ks ih sd v6 = the (set_at ks (InfoHashKey ih sd v6))"

definition kset_ok :: "bool \<Rightarrow> bytes set \<Rightarrow> bool" where
  "kset_ok v6 x \<longleftrightarrow> (\<forall>f \<in> x. \<exists>p. storable p \<and> Is6 (Peer_Addr p) = v6 \<and> PackPeer p = f)"

definition keydb_ks_ok :: "keyspace \<Rightarrow> bool" where
  "keydb_ks_ok ks \<longleftrightarrow>
     hash_at ks CountDownloadsKey \<noteq> None \<and> (\<forall>v \<in> ran (the (hash_at ks CountDownloadsKey)). \<exists>n. v = FormatInt n) \<and>
     (\<forall>ih sd v6. is_infohash ih \<longrightarrow> set_at ks (InfoHashKey ih sd v6) \<noteq> None \<and> kset_ok v6 (kset ks ih sd v6))"

definition keydb_inv :: "('r \<Rightarrow> bool) \<Rightarrow> ('r \<Rightarrow> keyspace) \<Rightarrow> 'r \<Rightarrow> bool" where
  "keydb_inv ok view s \<longleftrightarrow> ok s \<and> keydb_ks_ok (view s)"

definition kpeers_at :: "keyspace \<Rightarrow> bool \<Rightarrow> infohash \<Rightarrow> Peer set" where
  "kpeers_at ks sd ih = {p. storable p \<and> PackPeer p \<in> kset ks ih sd (Is6 (Peer_Addr p))}"

lemma keydb_invE:
  assumes "keydb_inv ok view s"
  shows "ok s" "is_infohash ih \<Longrightarrow> set_at (view s) (InfoHashKey ih sd v6) = Some (kset (view s) ih sd v6)"
    "is_infohash ih \<Longrightarrow> kset_ok v6 (kset (view s) ih sd v6)"
    "\<exists>d. hash_at (view s) CountDownloadsKey = Some d \<and> (\<forall>v \<in> ran d. \<exists>n. v = FormatInt n)"
  using assms unfolding keydb_inv_def keydb_ks_ok_def by (auto simp: kset_def)

lemma kset_put [ks_simps]:
  "kset (put_set (InfoHashKey ih sd v6) x ks) ih' sd' v6' =
     (if ih' = ih \<and> sd' = sd \<and> v6' = v6 then x else kset ks ih' sd' v6')"
  by (simp add: kset_def ks_simps)

lemma keydb_ks_ok_put:
  "keydb_ks_ok ks \<Longrightarrow> kset_ok v6 x \<Longrightarrow> keydb_ks_ok (put_set (InfoHashKey ih sd v6) x ks)"
  unfolding keydb_ks_ok_def by (simp add: ks_simps)

lemma kset_ok_insert: "kset_ok v6 x \<Longrightarrow> storable p \<Longrightarrow> Is6 (Peer_Addr p) = v6 \<Longrightarrow> kset_ok v6 (insert (PackPeer p) x)"
  by (auto simp: kset_ok_def)

lemma kset_ok_remove: "kset_ok v6 x \<Longrightarrow> kset_ok v6 (x - A)"
  by (auto simp: kset_ok_def)

lemma kpeers_at_put:
  assumes "storable p"
  shows "kpeers_at (put_set (peer_key ih sd p) (insert (PackPeer p) (kset ks ih sd (Is6 (Peer_Addr p)))) ks) sd' =
     (if sd' = sd then (kpeers_at ks sd)(ih := insert p (kpeers_at ks sd ih)) else kpeers_at ks sd')"
proof (intro ext set_eqI)
  fix ih' q
  show "q \<in> kpeers_at (put_set (peer_key ih sd p) (insert (PackPeer p) (kset ks ih sd (Is6 (Peer_Addr p)))) ks) sd' ih' \<longleftrightarrow>
     q \<in> (if sd' = sd then (kpeers_at ks sd)(ih := insert p (kpeers_at ks sd ih)) else kpeers_at ks sd') ih'"
    using PackPeer_inj [OF _ assms, of q] assms
    by (cases "storable q"; cases "Is6 (Peer_Addr q) = Is6 (Peer_Addr p)") (auto simp: kpeers_at_def peer_key_def kset_put)
qed

lemma kpeers_at_del:
  assumes "storable p"
  shows "kpeers_at (put_set (peer_key ih sd p) (kset ks ih sd (Is6 (Peer_Addr p)) - {PackPeer p}) ks) sd' =
     (if sd' = sd then (kpeers_at ks sd)(ih := kpeers_at ks sd ih - {p}) else kpeers_at ks sd')"
proof (intro ext set_eqI)
  fix ih' q
  show "q \<in> kpeers_at (put_set (peer_key ih sd p) (kset ks ih sd (Is6 (Peer_Addr p)) - {PackPeer p}) ks) sd' ih' \<longleftrightarrow>
     q \<in> (if sd' = sd then (kpeers_at ks sd)(ih := kpeers_at ks sd ih - {p}) else kpeers_at ks sd') ih'"
    using PackPeer_inj [OF _ assms, of q] assms
    by (cases "storable q"; cases "Is6 (Peer_Addr q) = Is6 (Peer_Addr p)") (auto simp: kpeers_at_def peer_key_def kset_put)
qed

subsection \<open>The operations\<close>

lemma keydb_add_ok:
  assumes "keydb_documented K ok view" and "keydb_inv ok view s" and "is_infohash ih" and "storable p" and "0 < ttl"
  shows "\<exists>s'. keydb_addPeer K ttl s (peer_key ih sd p) (PackPeer p) = (None, s') \<and> keydb_inv ok view s' \<and>
     (\<forall>sd'. kpeers_at (view s') sd' = (if sd' = sd then (kpeers_at (view s) sd)(ih := insert p (kpeers_at (view s) sd ih))
        else kpeers_at (view s) sd'))"
proof -
  let ?k = "peer_key ih sd p" and ?x = "kset (view s) ih sd (Is6 (Peer_Addr p))"
  note inv = keydb_invE [OF assms(2)]
  have k: "set_at (view s) ?k = Some ?x" unfolding peer_key_def by (rule inv(2) [OF assms(3)])
  obtain s1 where s1: "k_SAdd K s ?k (PackPeer p) = (None, s1)" "ok s1" "view s1 = put_set ?k (insert (PackPeer p) ?x) (view s)"
    using keydbD(1) [OF assms(1) inv(1) k] by blast
  have "set_at (view s1) ?k = Some (insert (PackPeer p) ?x)" by (simp add: s1(3) ks_simps)
  then obtain s2 where s2: "k_ExpireMember K s1 ?k (PackPeer p) ttl = (None, s2)" "ok s2" "view s2 = view s1"
    using keydbD(4) [OF assms(1) s1(2) _ _ assms(5)] by blast
  have "keydb_ks_ok (view s2)"
    unfolding s2(3) s1(3) peer_key_def
    using assms(2) kset_ok_insert [OF inv(3) [OF assms(3)] assms(4)] by (intro keydb_ks_ok_put) (simp_all add: keydb_inv_def)
  then show ?thesis
    using s1(1) s2 kpeers_at_put [OF assms(4), of ih sd "view s"] by (simp add: keydb_addPeer_def keydb_inv_def s1(3))
qed

lemma keydb_del_ok:
  assumes "keydb_documented K ok view" and "keydb_inv ok view s" and "is_infohash ih" and "storable p"
  shows "\<exists>e s'. keydb_delPeer K s (peer_key ih sd p) (PackPeer p) = (e, s') \<and> benign e \<and> keydb_inv ok view s' \<and>
     (\<forall>sd'. kpeers_at (view s') sd' = (if sd' = sd then (kpeers_at (view s) sd)(ih := kpeers_at (view s) sd ih - {p})
        else kpeers_at (view s) sd'))"
proof -
  let ?k = "peer_key ih sd p" and ?x = "kset (view s) ih sd (Is6 (Peer_Addr p))"
  note inv = keydb_invE [OF assms(2)]
  have k: "set_at (view s) ?k = Some ?x" unfolding peer_key_def by (rule inv(2) [OF assms(3)])
  obtain s1 where s1: "r_SRem K s ?k [PackPeer p] = (if PackPeer p \<in> ?x then 1 else 0, None, s1)" "ok s1"
    "view s1 = put_set ?k (?x - {PackPeer p}) (view s)"
    using keydbD(2) [OF assms(1) inv(1) k] by blast
  have "keydb_ks_ok (view s1)"
    unfolding s1(3) peer_key_def
    using assms(2) kset_ok_remove [OF inv(3) [OF assms(3)]] by (intro keydb_ks_ok_put) (simp_all add: keydb_inv_def)
  then show ?thesis
    using s1 kpeers_at_del [OF assms(4), of ih sd "view s"]
    by (simp add: keydb_delPeer_def keydb_inv_def s1(3) NoResultErr_def)
qed

lemma keydb_graduate_ok:
  assumes "keydb_documented K ok view" and "keydb_inv ok view s" and "is_infohash ih" and "storable p"
  shows "\<exists>s'. keydb_GraduateLeecher K ttl s ih p = (None, s') \<and> keydb_inv ok view s' \<and>
     kpeers_at (view s') True = (kpeers_at (view s) True)(ih := insert p (kpeers_at (view s) True ih)) \<and>
     kpeers_at (view s') False = (kpeers_at (view s) False)(ih := kpeers_at (view s) False ih - {p}) \<and>
     hash_at (view s') CountDownloadsKey = hash_at (view s) CountDownloadsKey \<and>
     (\<forall>f g ttl'. keydb_GraduateLeecher (K\<lparr>k_ExpireMember := f, k_HIncrBy := g\<rparr>) ttl' s ih p = (None, s'))"
proof -
  define v6 where "v6 = Is6 (Peer_Addr p)"
  let ?kl = "InfoHashKey ih False v6" and ?kd = "InfoHashKey ih True v6"
  let ?l = "kset (view s) ih False v6" and ?d = "kset (view s) ih True v6" and ?f = "PackPeer p"
  have key: "peer_key ih sd p = InfoHashKey ih sd v6" for sd by (simp add: peer_key_def v6_def)
  note inv = keydb_invE [OF assms(2)]
  obtain s1 where s1: "k_SMove K s ?kl ?kd ?f = (?f \<in> ?l, None, s1)" "ok s1"
    "view s1 = (if ?f \<in> ?l then put_set ?kd (insert ?f ?d) (put_set ?kl (?l - {?f}) (view s)) else view s)"
    using keydbD(3) [OF assms(1) inv(1) inv(2) [OF assms(3)] inv(2) [OF assms(3)], of False v6 True v6] by auto
  obtain s2 where s2: "keydb_GraduateLeecher K ttl s ih p = (None, s2)" "ok s2"
    "\<forall>f g ttl'. keydb_GraduateLeecher (K\<lparr>k_ExpireMember := f, k_HIncrBy := g\<rparr>) ttl' s ih p = (None, s2)"
    "view s2 = put_set ?kd (insert ?f ?d) (if ?f \<in> ?l then put_set ?kl (?l - {?f}) (view s) else view s)"
  proof (cases "?f \<in> ?l")
    case True
    then show ?thesis using s1 that by (simp add: keydb_GraduateLeecher_def key)
  next
    case False
    then have v: "view s1 = view s" using s1(3) by simp
    then obtain s2 where "k_SAdd K s1 ?kd ?f = (None, s2)" "ok s2" "view s2 = put_set ?kd (insert ?f ?d) (view s)"
      using keydbD(1) [OF assms(1) s1(2), of ?kd ?d ?f] inv(2) [OF assms(3)] by (auto simp: v)
    then show ?thesis using s1(1) False that by (simp add: keydb_GraduateLeecher_def key)
  qed
  define ks1 where "ks1 = (if ?f \<in> ?l then put_set ?kl (?l - {?f}) (view s) else view s)"
  have p1: "kpeers_at ks1 sd' = (if sd' = False then (kpeers_at (view s) False)(ih := kpeers_at (view s) False ih - {p})
      else kpeers_at (view s) sd')" for sd'
  proof (cases "?f \<in> ?l")
    case True
    then show ?thesis using kpeers_at_del [OF assms(4), of ih False "view s" sd'] by (simp add: ks1_def key v6_def)
  next
    case False
    then have "p \<notin> kpeers_at (view s) False ih" by (simp add: kpeers_at_def v6_def)
    then show ?thesis using False by (simp add: ks1_def)
  qed
  have d1: "kset ks1 ih True v6 = ?d" by (simp add: ks1_def ks_simps)
  have v2: "view s2 = put_set ?kd (insert ?f ?d) ks1" using s2(4) by (simp add: ks1_def)
  have p2: "kpeers_at (view s2) sd' = (if sd' = True then (kpeers_at ks1 True)(ih := insert p (kpeers_at ks1 True ih))
      else kpeers_at ks1 sd')" for sd'
    using kpeers_at_put [OF assms(4), of ih True ks1 sd'] d1 by (simp add: v2 key v6_def)
  have "keydb_ks_ok ks1"
    using assms(2) kset_ok_remove [OF inv(3) [OF assms(3)]] by (auto simp: ks1_def keydb_inv_def intro: keydb_ks_ok_put)
  then have "keydb_ks_ok (view s2)"
    unfolding v2 using kset_ok_insert [OF inv(3) [OF assms(3)] assms(4)] by (intro keydb_ks_ok_put) (simp_all add: v6_def)
  moreover have "hash_at (view s2) CountDownloadsKey = hash_at (view s) CountDownloadsKey"
    by (simp add: v2 ks1_def ks_simps)
  ultimately show ?thesis using s2(1-3) p2 p1 by (simp add: keydb_inv_def)
qed

lemma PackPeer_kfamily:
  assumes "keydb_inv ok view s" and "is_infohash ih"
  shows "PackPeer ` of_family v6 (kpeers_at (view s) sd ih) = kset (view s) ih sd v6"
  using keydb_invE(3) [OF assms, of v6 sd] by (fastforce simp: of_family_def kpeers_at_def kset_ok_def)

lemma kfamily:
  assumes "keydb_documented K ok view" and "keydb_inv ok view s" and "is_infohash ih"
  shows "finite (of_family v6 (kpeers_at (view s) sd ih))"
    "card (of_family v6 (kpeers_at (view s) sd ih)) = card (kset (view s) ih sd v6)"
    "finite (kpeers_at (view s) sd ih)"
proof -
  have inj: "inj_on PackPeer (of_family v6 (kpeers_at (view s) sd ih))" for v6
    by (auto simp: inj_on_def of_family_def kpeers_at_def PackPeer_inj)
  have f: "finite (of_family v6 (kpeers_at (view s) sd ih))" for v6
    using keydbD(5) [OF assms(1) keydb_invE(1) [OF assms(2)] keydb_invE(2) [OF assms(2,3)], of sd v6]
      PackPeer_kfamily [OF assms(2,3), of v6 sd] finite_image_iff [OF inj] by metis
  show "finite (of_family v6 (kpeers_at (view s) sd ih))" by (rule f)
  show "card (of_family v6 (kpeers_at (view s) sd ih)) = card (kset (view s) ih sd v6)"
    using card_image [OF inj] PackPeer_kfamily [OF assms(2,3), of v6 sd] by metis
  have "kpeers_at (view s) sd ih = of_family True (kpeers_at (view s) sd ih) \<union> of_family False (kpeers_at (view s) sd ih)"
    by (auto simp: of_family_def)
  then show "finite (kpeers_at (view s) sd ih)" using f by (metis finite_Un)
qed

lemma keydb_announce_ok:
  assumes "keydb_documented K ok view" and "keydb_inv ok view s" and "is_infohash ih" and "0 < n"
  shows "\<exists>ps e. keydb_AnnouncePeers K s ih forSeeder n v6 = (ps, e) \<and> benign e \<and>
     set ps \<subseteq> of_family v6 ((if forSeeder then {} else kpeers_at (view s) True ih) \<union> kpeers_at (view s) False ih) \<and>
     int (length ps) = min n (int ((if forSeeder then 0 else card (of_family v6 (kpeers_at (view s) True ih))) +
        card (of_family v6 (kpeers_at (view s) False ih)))) \<and>
     (int (length ps) < n \<longrightarrow>
        set ps = of_family v6 ((if forSeeder then {} else kpeers_at (view s) True ih) \<union> kpeers_at (view s) False ih))"
proof -
  note inv = keydb_invE [OF assms(2)]
  have "members_of (k_SRandMemberN K s) (InfoHashKey ih sd v6) (of_family v6 (kpeers_at (view s) sd ih))" for sd
    using keydbD(7) [OF assms(1) inv(1) inv(2) [OF assms(3)]] kfamily(1) [OF assms(1-3)]
    unfolding members_of_def PackPeer_kfamily [OF assms(2,3)] kfamily(2) [OF assms(1-3)]
    by (auto simp: of_family_def kpeers_at_def)
  from GetPeers_ok [OF this assms(4), of forSeeder] show ?thesis
    by (cases forSeeder) (simp_all add: keydb_AnnouncePeers_def)
qed

lemma keydb_scrape_ok:
  assumes "keydb_documented K ok view" and "keydb_inv ok view s" and "is_infohash ih"
  shows "\<exists>d. keydb_ScrapeSwarm K s ih =
     (of_nat (card (kpeers_at (view s) False ih)), of_nat (card (kpeers_at (view s) True ih)), d, None)"
proof -
  note inv = keydb_invE [OF assms(2)] and r = keydbD [OF assms(1)]
  obtain d where d: "hash_at (view s) CountDownloadsKey = Some d" "\<forall>v \<in> ran d. \<exists>n. v = FormatInt n"
    using inv(4) by blast
  show ?thesis
    unfolding keydb_ScrapeSwarm_def card_of_family [OF kfamily(3) [OF assms]] kfamily(2) [OF assms]
    by (rule ScrapeIH_ok [where c = "\<lambda>sd v6. card (kset (view s) ih sd v6)",
        OF r(6) [OF inv(1) inv(2) [OF assms(3)]] r(8) [OF inv(1) d(1)] d(2) r(9) r(10)])
qed

lemma keydb_peer_storage:
  assumes "keydb_documented K ok view" and "0 < ttl"
  shows "peer_storage (keydb_storage K ttl) (keydb_inv ok view)
     (keyed_swarms (\<lambda>s. kpeers_at (view s)) True) (keyed_swarms (\<lambda>s. kpeers_at (view s)) False) storable"
proof (rule keyed_peer_storage)
  note ops = keydb_storage_def keydb_PutSeeder_def keydb_PutLeecher_def keydb_DeleteSeeder_def keydb_DeleteLeecher_def
  fix s ih p sd assume a: "keydb_inv ok view s" "is_infohash ih" "storable p"
  show "\<exists>s'. (if sd then ps_PutSeeder (keydb_storage K ttl) s ih p else ps_PutLeecher (keydb_storage K ttl) s ih p) =
      Ret (None, s') \<and> keydb_inv ok view s' \<and>
      (\<forall>sd'. kpeers_at (view s') sd' = (if sd' = sd then (kpeers_at (view s) sd)(ih := insert p (kpeers_at (view s) sd ih))
         else kpeers_at (view s) sd'))"
    using keydb_add_ok [OF assms(1) a assms(2), of sd] by (cases sd) (auto simp: ops)
  show "\<exists>e s'. (if sd then ps_DeleteSeeder (keydb_storage K ttl) s ih p else ps_DeleteLeecher (keydb_storage K ttl) s ih p) =
      Ret (e, s') \<and> benign e \<and> keydb_inv ok view s' \<and>
      (\<forall>sd'. kpeers_at (view s') sd' = (if sd' = sd then (kpeers_at (view s) sd)(ih := kpeers_at (view s) sd ih - {p})
         else kpeers_at (view s) sd'))"
    using keydb_del_ok [OF assms(1) a, of sd] by (cases sd) (auto simp: ops)
  show "\<exists>s'. ps_GraduateLeecher (keydb_storage K ttl) s ih p = Ret (None, s') \<and> keydb_inv ok view s' \<and>
      kpeers_at (view s') True = (kpeers_at (view s) True)(ih := insert p (kpeers_at (view s) True ih)) \<and>
      kpeers_at (view s') False = (kpeers_at (view s) False)(ih := kpeers_at (view s) False ih - {p})"
    using keydb_graduate_ok [OF assms(1) a, of ttl] by (auto simp: keydb_storage_def)
qed (use keydb_announce_ok [OF assms(1)] keydb_scrape_ok [OF assms(1)] kfamily(3) [OF assms(1)] in \<open>simp_all add: keydb_storage_def\<close>)

subsection \<open>Properties\<close>

text \<open>
  C17: The KeyDB driver, over a server whose commands do what is documented, satisfies the storage
  contract the middleware relies on, for the peers that its serialization can represent. The
  lifetime of peers is at least one second; with less, a member expires when it is added.
\<close>

theorem keydb_storage_contract:
  assumes "keydb_documented K ok view" and "0 < ttl"
  shows "peer_storage (keydb_storage K ttl) (keydb_inv ok view)
     (keyed_swarms (\<lambda>s. kpeers_at (view s)) True) (keyed_swarms (\<lambda>s. kpeers_at (view s)) False) storable"
  using assms by (rule keydb_peer_storage)

text \<open>
  C18: A graduation in KeyDB. The peer becomes a seeder, without the lifetime that every other
  seeder is given and without the download being counted: the outcome does not depend on the
  peer lifetime, nor on what \<open>EXPIREMEMBER\<close> and \<open>HINCRBY\<close> do, because the condition that guards
  these two commands is that the previous one failed.
\<close>

theorem keydb_graduate_unlimited:
  assumes "keydb_documented K ok view" and "keydb_inv ok view s" and "is_infohash ih" and "storable p"
  shows "\<exists>s'. keydb_GraduateLeecher K ttl s ih p = (None, s') \<and> p \<in> kpeers_at (view s') True ih \<and>
     hash_at (view s') CountDownloadsKey = hash_at (view s) CountDownloadsKey \<and>
     (\<forall>expireMember hIncrBy ttl'.
        keydb_GraduateLeecher (K\<lparr>k_ExpireMember := expireMember, k_HIncrBy := hIncrBy\<rparr>) ttl' s ih p = (None, s'))"
  using keydb_graduate_ok [OF assms, of ttl] by fastforce

subsection \<open>An executable server\<close>

definition example_keydb :: "srv keydb" where
  "example_keydb = redis.extend
     (example_server
       \<lparr>r_SRem := \<lambda>s k xs. srv_write (case get_set s k of None \<Rightarrow> 0 | Some ys \<Rightarrow> int (length (filter (\<lambda>y. y \<in> set xs) ys)))
          (map_option (\<lambda>ys. set_set k (filter (\<lambda>y. y \<notin> set xs) ys) s) (get_set s k)) s 0\<rparr>)
     (keydb.fields
       (\<lambda>s k m. snd (srv_write () (map_option (\<lambda>ys. set_set k (List.insert m ys) s) (get_set s k)) s ()))
       (\<lambda>s k k' m. case (get_set s k, get_set s k') of
           (Some ys, Some zs) \<Rightarrow>
             if m \<in> set ys then (True, None, set_set k' (List.insert m zs) (set_set k (filter (\<lambda>y. y \<noteq> m) ys) s))
             else (False, None, s)
         | _ \<Rightarrow> (False, Some wrong_type, s))
       (\<lambda>s k n. case get_set s k of None \<Rightarrow> ([], Some wrong_type) | Some ys \<Rightarrow> (take (nat n) ys, None))
       (\<lambda>s k m t. (None, s))
       (\<lambda>s k f d. (None, s)))"

lemma example_keydb_simps:
  "r_SRem example_keydb = (\<lambda>s k xs. srv_write (case get_set s k of None \<Rightarrow> 0 | Some ys \<Rightarrow> int (length (filter (\<lambda>y. y \<in> set xs) ys)))
          (map_option (\<lambda>ys. set_set k (filter (\<lambda>y. y \<notin> set xs) ys) s) (get_set s k)) s 0)"
  "r_SCard example_keydb = r_SCard example_server" "r_HGet example_keydb = r_HGet example_server"
  "r_Int64 example_keydb = r_Int64 example_server"
  "k_SAdd example_keydb s k m = snd (srv_write () (map_option (\<lambda>ys. set_set k (List.insert m ys) s) (get_set s k)) s ())"
  "k_SMove example_keydb s k k' m = (case (get_set s k, get_set s k') of
     (Some ys, Some zs) \<Rightarrow>
       if m \<in> set ys then (True, None, set_set k' (List.insert m zs) (set_set k (filter (\<lambda>y. y \<noteq> m) ys) s))
       else (False, None, s)
   | _ \<Rightarrow> (False, Some wrong_type, s))"
  "k_SRandMemberN example_keydb s k n = (case get_set s k of None \<Rightarrow> ([], Some wrong_type) | Some ys \<Rightarrow> (take (nat n) ys, None))"
  "k_ExpireMember example_keydb s k m t = (None, s)"
  by (simp_all add: example_keydb_def redis.extend_def keydb.fields_def)

lemma length_filter_eq: "distinct ys \<Longrightarrow> length (filter (\<lambda>y. y = m) ys) = (if m \<in> set ys then 1 else 0)"
  by (induction ys) (auto simp: filter_empty_conv)

lemma example_keydb_documented: "keydb_documented example_keydb srv_ok srv_view"
  unfolding keydb_documented_def
proof (intro conjI allI impI)
  fix s k x m assume a: "srv_ok s" "set_at (srv_view s) k = Some x"
  obtain ys where ys: "get_set s k = Some ys" "x = set ys" using a(2) by (auto simp: set_at_srv)
  have d: "distinct ys" by (rule get_ok(2) [OF a(1) ys(1)])
  show "\<exists>s'. k_SAdd example_keydb s k m = (None, s') \<and> srv_ok s' \<and> srv_view s' = put_set k (insert m x) (srv_view s)"
    using a(1) d by (simp add: example_keydb_simps srv_write_def ys)
  have "{y \<in> set ys. y \<noteq> m} = x - {m}" by (auto simp: ys(2))
  then show "\<exists>s'. r_SRem example_keydb s k [m] = (if m \<in> x then 1 else 0, None, s') \<and> srv_ok s' \<and>
      srv_view s' = put_set k (x - {m}) (srv_view s)"
    using a(1) d by (simp add: example_keydb_simps srv_write_def ys length_filter_eq)
  show "finite x" by (simp add: ys(2))
  show "r_SCard example_keydb s k = (int (card x), None)"
    by (simp add: example_keydb_simps example_server_def ys distinct_card [OF d])
  show "\<exists>l. k_SRandMemberN example_keydb s k n = (l, None) \<and> distinct l \<and> set l \<subseteq> x \<and> int (length l) = min n (int (card x))"
    if "0 < n" for n
    using that d by (auto simp: example_keydb_simps ys distinct_card dest: in_set_takeD)
  show "\<exists>s'. k_ExpireMember example_keydb s k m t = (None, s') \<and> srv_ok s' \<and> srv_view s' = srv_view s" for t
    using a(1) by (simp add: example_keydb_simps)
  show "\<exists>s'. k_SMove example_keydb s k k' m = (m \<in> x, None, s') \<and> srv_ok s' \<and>
      srv_view s' = (if m \<in> x then put_set k' (insert m x') (put_set k (x - {m}) (srv_view s)) else srv_view s)"
    if "set_at (srv_view s) k' = Some x'" "k \<noteq> k'" for k' x'
  proof -
    note b = that
    obtain zs where zs: "get_set s k' = Some zs" "x' = set zs" using b(1) by (auto simp: set_at_srv)
    have "distinct zs" by (rule get_ok(2) [OF a(1) zs(1)])
    moreover have "{y \<in> set ys. y \<noteq> m} = x - {m}" by (auto simp: ys(2))
    ultimately show ?thesis using a(1) d by (simp add: example_keydb_simps ys(1) zs) (simp add: ys(2))
  qed
next
  show "r_HGet example_keydb s k f = (case h f of None \<Rightarrow> ([], Some redis_Nil) | Some v \<Rightarrow> (v, None))"
    if "srv_ok s" "hash_at (srv_view s) k = Some h" for s k h f
    using redis_readsD(3) [OF example_server_reads that] by (simp add: example_keydb_simps)
  show "r_Int64 example_keydb (FormatInt n, None) = (n, None)" for n
    using redis_readsD(9) [OF example_server_reads srv_ok_Nil] by (simp add: example_keydb_simps)
  show "r_Int64 example_keydb (v, Some e) = (0, Some e)" for v e
    using redis_readsD(10) [OF example_server_reads srv_ok_Nil] by (simp add: example_keydb_simps)
qed

lemma empty_keydb_inv: "keydb_inv srv_ok srv_view []"
proof -
  have "hash_at (srv_view []) k = Some Map.empty" "set_at (srv_view []) k = Some {}" "kset (srv_view []) ih sd v6 = {}" for k ih sd v6
    by (simp_all add: hash_at_def set_at_def kset_def)
  then show ?thesis by (simp add: keydb_inv_def keydb_ks_ok_def kset_ok_def)
qed

interpretation kdb: peer_storage "keydb_storage example_keydb 7" "keydb_inv srv_ok srv_view"
    "keyed_swarms (\<lambda>s. kpeers_at (srv_view s)) True" "keyed_swarms (\<lambda>s. kpeers_at (srv_view s)) False" storable
  by (rule keydb_peer_storage [OF example_keydb_documented]) simp

theorem keydb_storage_contract_witness:
  "peer_storage (keydb_storage example_keydb 7) (keydb_inv srv_ok srv_view)
     (keyed_swarms (\<lambda>s. kpeers_at (srv_view s)) True) (keyed_swarms (\<lambda>s. kpeers_at (srv_view s)) False) storable \<and>
   keydb_inv srv_ok srv_view [] \<and> storable redis_peer"
  using keydb_storage_contract [OF example_keydb_documented, of 7] empty_keydb_inv redis_peer_storable by simp

theorem keydb_graduate_unlimited_witness:
  "\<exists>s. keydb_GraduateLeecher example_keydb 7 [] redis_ih redis_peer = (None, s) \<and> redis_peer \<in> kpeers_at (srv_view s) True redis_ih"
  using keydb_graduate_unlimited [OF example_keydb_documented empty_keydb_inv redis_ih_ok redis_peer_storable, of 7] by blast

end
