(* ===== verification/Pg.thy ===== *)
theory Pg
  imports StorageSpec
begin

section \<open>Package \<open>storage/pg\<close>: the PostgreSQL driver\<close>

text \<open>
  \<open>storage/pg/storage.go\<close>. The driver sends the queries of its configuration with named
  arguments, \<open>pgargs\<close>. What the connection pool of \<open>pgx\<close> does is the record \<open>pgdb\<close>: single
  statements, queries with their rows, transactions and the scanning of a row into variables.
  Reading does not change the database. \<open>PTime\<close> is a time in the resolution of the column. Arguments \<open>trim\<close> and \<open>uni\<close> are the Unicode parts of
  \<open>strings.TrimSpace\<close> and \<open>strings.ToUpper\<close>.
\<close>

subsection \<open>The database\<close>

datatype pgval = PText bytes | PBytes bytes | PBytesList "bytes list" | PBool bool | PInt int | PTime int

type_synonym pgargs = "(bytes, pgval) gomap"

text \<open>
  The rows that \<open>Next\<close> delivers and the error that ends them. Scanning gets the number of
  destinations and the positions of those that are not nil.
\<close>

record 'row pgrows =
  rows_Fields :: "bytes list"
  rows_Rows :: "'row list"
  rows_Err :: err

record ('db, 'tx, 'row) pgdb =
  pg_Exec :: "'db \<Rightarrow> bytes \<Rightarrow> pgargs \<Rightarrow> err \<times> 'db"
  pg_Query :: "'db \<Rightarrow> bytes \<Rightarrow> pgargs \<Rightarrow> goerror + 'row pgrows"
  pg_Begin :: "'db \<Rightarrow> goerror + 'tx"
  pg_SendBatch :: "'tx \<Rightarrow> (bytes \<times> pgargs) list \<Rightarrow> err \<times> 'tx"
  pg_Commit :: "'tx \<Rightarrow> err \<times> 'db"
  pg_Rollback :: "'tx \<Rightarrow> err \<times> 'db"
  pg_ScanPeer :: "'row \<Rightarrow> nat \<Rightarrow> nat \<Rightarrow> nat \<Rightarrow> nat \<Rightarrow> goerror + bytes \<times> bytes \<times> int"
  pg_ScanCounts :: "'row \<Rightarrow> nat \<Rightarrow> nat \<Rightarrow> nat \<Rightarrow> u32 \<times> u32 \<times> err"
  pg_RowBytes :: "'db \<Rightarrow> bytes \<Rightarrow> pgargs \<Rightarrow> bytes option \<times> err"
  pg_RowUint32 :: "'db \<Rightarrow> bytes \<Rightarrow> pgargs \<Rightarrow> u32 \<times> err"
  pg_RowInt :: "'db \<Rightarrow> bytes \<Rightarrow> pgargs \<Rightarrow> int \<times> err"

definition pg_ErrNoRows :: goerror where "pg_ErrNoRows = OtherError ''no rows in result set''"

definition noResultErr :: "err \<Rightarrow> err" where
  "noResultErr e = (if e = None \<or> e = Some pg_ErrNoRows then None else e)"

definition pCtx :: bytes where "pCtx = str ''context''"
definition pKey :: bytes where "pKey = str ''key''"
definition pValue :: bytes where "pValue = str ''value''"
definition pInfoHash :: bytes where "pInfoHash = str ''info_hash''"
definition pPeerID :: bytes where "pPeerID = str ''peer_id''"
definition pAddress :: bytes where "pAddress = str ''address''"
definition pPort :: bytes where "pPort = str ''port''"
definition pV6 :: bytes where "pV6 = str ''is_v6''"
definition pSeeder :: bytes where "pSeeder = str ''is_seeder''"
definition pCreated :: bytes where "pCreated = str ''created''"
definition pCount :: bytes where "pCount = str ''count''"

subsection \<open>Configuration\<close>

record peerQueryConf =
  pq_AddQuery :: bytes
  pq_DelQuery :: bytes
  pq_GraduateQuery :: bytes
  pq_CountQuery :: bytes
  pq_CountSeedersColumn :: bytes
  pq_CountLeechersColumn :: bytes
  pq_ByInfoHashClause :: bytes

record announceQueryConf =
  aq_Query :: bytes
  aq_PeerIDColumn :: bytes
  aq_AddressColumn :: bytes
  aq_PortColumn :: bytes

record dataQueryConf =
  dq_AddQuery :: bytes
  dq_GetQuery :: bytes
  dq_DelQuery :: bytes

record downloadQueryConf =
  wq_GetQuery :: bytes
  wq_IncrementQuery :: bytes

record PgConfig =
  pg_ConnectionString :: bytes
  pg_PingQuery :: bytes
  pg_Peer :: peerQueryConf
  pg_Announce :: announceQueryConf
  pg_Downloads :: downloadQueryConf
  pg_Data :: dataQueryConf
  pg_GCQuery :: bytes
  pg_InfoHashCountQuery :: bytes

definition defaultPingQuery :: bytes where "defaultPingQuery = str ''SELECT 0''"

definition errConnectionStringNotProvided :: goerror where
  "errConnectionStringNotProvided = OtherError ''database connection string not provided''"

definition errRequiredParameterNotSet :: "string \<Rightarrow> goerror" where
  "errRequiredParameterNotSet name = OtherError (''required parameter not provided: '' @ name)"

text \<open>The closure \<open>fn\<close> of \<open>Validate\<close>, followed by the rest of it when the parameter is there.\<close>

definition pg_required :: "(bytes \<Rightarrow> bytes) \<Rightarrow> bytes \<Rightarrow> string \<Rightarrow> (bytes \<Rightarrow> goerror + 'a) \<Rightarrow> goerror + 'a" where
  "pg_required trim p name rest =
     (let p' = TrimSpace trim p in
      if length p' = 0 then Inl (errRequiredParameterNotSet name) else rest p')"

definition PgConfig_Validate :: "(bytes \<Rightarrow> bytes) \<Rightarrow> (bytes \<Rightarrow> bytes) \<Rightarrow> PgConfig \<Rightarrow> goerror + PgConfig" where
  "PgConfig_Validate trim uni cfg =
     (let connectionString = TrimSpace trim (pg_ConnectionString cfg);
          pingQuery = (if length (pg_PingQuery cfg) = 0 then defaultPingQuery else pg_PingQuery cfg);
          P = pg_Peer cfg; A = pg_Announce cfg; D = pg_Data cfg
      in if length connectionString = 0 then Inl errConnectionStringNotProvided
         else
           pg_required trim (pq_AddQuery P) ''peer.addQuery'' (\<lambda>addQuery.
           pg_required trim (pq_DelQuery P) ''peer.delQuery'' (\<lambda>delQuery.
           pg_required trim (pq_GraduateQuery P) ''peer.graduateQuery'' (\<lambda>graduateQuery.
           pg_required trim (pq_CountQuery P) ''peer.countQuery'' (\<lambda>countQuery.
           pg_required trim (pq_CountSeedersColumn P) ''peer.countSeedersColumn'' (\<lambda>countSeeders.
           pg_required trim (pq_CountLeechersColumn P) ''peer.countLeechersColumn'' (\<lambda>countLeechers.
           pg_required trim (pq_ByInfoHashClause P) ''peer.byInfoHashClause'' (\<lambda>byInfoHash.
           pg_required trim (aq_Query A) ''announce.query'' (\<lambda>query.
           pg_required trim (aq_PeerIDColumn A) ''announce.peerIDColumn'' (\<lambda>peerID.
           pg_required trim (aq_AddressColumn A) ''announce.addressColumn'' (\<lambda>address.
           pg_required trim (aq_PortColumn A) ''announce.portColumn'' (\<lambda>port.
           pg_required trim (dq_AddQuery D) ''data.addQuery'' (\<lambda>dataAdd.
           pg_required trim (dq_GetQuery D) ''data.getQuery'' (\<lambda>dataGet.
           pg_required trim (dq_DelQuery D) ''data.delQuery'' (\<lambda>dataDel.
             Inr (cfg\<lparr>pg_ConnectionString := connectionString, pg_PingQuery := pingQuery,
               pg_Peer := \<lparr>pq_AddQuery = addQuery, pq_DelQuery = delQuery, pq_GraduateQuery = graduateQuery,
                 pq_CountQuery = countQuery, pq_CountSeedersColumn = ToUpper uni countSeeders,
                 pq_CountLeechersColumn = ToUpper uni countLeechers, pq_ByInfoHashClause = byInfoHash\<rparr>,
               pg_Announce := \<lparr>aq_Query = query, aq_PeerIDColumn = ToUpper uni peerID,
                 aq_AddressColumn = ToUpper uni address, aq_PortColumn = ToUpper uni port\<rparr>,
               pg_Data := \<lparr>dq_AddQuery = dataAdd, dq_GetQuery = dataGet, dq_DelQuery = dataDel\<rparr>\<rparr>))))))))))))))))"

text \<open>\<open>connect\<close> is \<open>pgxpool.New\<close>.\<close>

definition pg_newStore ::
  "(bytes \<Rightarrow> bytes) \<Rightarrow> (bytes \<Rightarrow> bytes) \<Rightarrow> (bytes \<Rightarrow> goerror + 'db) \<Rightarrow> goerror + PgConfig \<Rightarrow> goerror + PgConfig \<times> 'db" where
  "pg_newStore trim uni connect conf =
     (case conf of Inl e \<Rightarrow> Inl e
      | Inr cfg0 \<Rightarrow>
     (case PgConfig_Validate trim uni cfg0 of Inl e \<Rightarrow> Inl e
      | Inr cfg \<Rightarrow>
     (case connect (pg_ConnectionString cfg) of Inl e \<Rightarrow> Inl e | Inr con \<Rightarrow> Inr (cfg, con))))"

subsection \<open>Transactions\<close>

definition errRollBack :: "goerror \<Rightarrow> goerror \<Rightarrow> goerror" where
  "errRollBack txErr e = OtherError (''error occurred while rolling back failed query: '' @ err_text txErr @
     '', failed query error: '' @ err_text e)"

definition txBatch :: "('db, 'tx, 'row) pgdb \<Rightarrow> 'db \<Rightarrow> (bytes \<times> pgargs) list \<Rightarrow> err \<times> 'db" where
  "txBatch D s batch =
     (case pg_Begin D s of Inl e \<Rightarrow> (Some e, s)
      | Inr tx \<Rightarrow>
          (let (e, tx') = pg_SendBatch D tx batch in
           case e of None \<Rightarrow> pg_Commit D tx'
           | Some x \<Rightarrow>
               (let (txErr, s') = pg_Rollback D tx' in
                (case txErr of None \<Rightarrow> Some x | Some y \<Rightarrow> Some (errRollBack y x), s'))))"

subsection \<open>Data operations\<close>

definition data_args :: "bytes \<Rightarrow> Entry \<Rightarrow> pgargs" where
  "data_args storeCtx v = [(pCtx, PText storeCtx), (pKey, PBytes (e_Key v)), (pValue, PBytes (e_Value v))]"

definition pg_Put :: "('db, 'tx, 'row) pgdb \<Rightarrow> PgConfig \<Rightarrow> 'db \<Rightarrow> bytes \<Rightarrow> Entry list \<Rightarrow> err \<times> 'db" where
  "pg_Put D cfg s storeCtx values =
     (case values of
        [] \<Rightarrow> (None, s)
      | [v] \<Rightarrow> pg_Exec D s (dq_AddQuery (pg_Data cfg)) (data_args storeCtx v)
      | _ \<Rightarrow> txBatch D s (map (\<lambda>v. (dq_AddQuery (pg_Data cfg), data_args storeCtx v)) values))"

definition pg_Contains :: "('db, 'tx, 'row) pgdb \<Rightarrow> PgConfig \<Rightarrow> 'db \<Rightarrow> bytes \<Rightarrow> bytes \<Rightarrow> bool \<times> err" where
  "pg_Contains D cfg s storeCtx key =
     (case pg_Query D s (dq_GetQuery (pg_Data cfg)) [(pCtx, PText storeCtx), (pKey, PBytes key)] of
        Inl e \<Rightarrow> (False, Some e)
      | Inr rows \<Rightarrow> (if rows_Rows rows = [] then (False, rows_Err rows) else (True, None)))"

definition pg_Load :: "('db, 'tx, 'row) pgdb \<Rightarrow> PgConfig \<Rightarrow> 'db \<Rightarrow> bytes \<Rightarrow> bytes \<Rightarrow> bytes option \<times> err" where
  "pg_Load D cfg s storeCtx key =
     (let (out, e) = pg_RowBytes D s (dq_GetQuery (pg_Data cfg)) [(pCtx, PText storeCtx), (pKey, PBytes key)]
      in (out, noResultErr e))"

definition pg_Delete :: "('db, 'tx, 'row) pgdb \<Rightarrow> PgConfig \<Rightarrow> 'db \<Rightarrow> bytes \<Rightarrow> bytes list \<Rightarrow> err \<times> 'db" where
  "pg_Delete D cfg s storeCtx keys =
     (if length keys > 0
      then pg_Exec D s (dq_DelQuery (pg_Data cfg)) [(pCtx, PText storeCtx), (pKey, PBytesList keys)]
      else (None, s))"

subsection \<open>Peer operations\<close>

definition peer_args :: "infohash \<Rightarrow> Peer \<Rightarrow> pgargs" where
  "peer_args ih p =
     [(pInfoHash, PBytes ih), (pPeerID, PBytes (peer_ID p)), (pAddress, PBytes (AsSlice (Peer_Addr p))),
      (pPort, PInt (uint (ap_port (peer_AddrPort p))))]"

definition pg_putPeer :: "('db, 'tx, 'row) pgdb \<Rightarrow> PgConfig \<Rightarrow> int \<Rightarrow> 'db \<Rightarrow> infohash \<Rightarrow> Peer \<Rightarrow> bool \<Rightarrow> err \<times> 'db" where
  "pg_putPeer D cfg now s ih p seeder =
     pg_Exec D s (pq_AddQuery (pg_Peer cfg))
       (peer_args ih p @ [(pSeeder, PBool seeder), (pV6, PBool (Is6 (Peer_Addr p))), (pCreated, PTime now)])"

definition pg_delPeer :: "('db, 'tx, 'row) pgdb \<Rightarrow> PgConfig \<Rightarrow> 'db \<Rightarrow> infohash \<Rightarrow> Peer \<Rightarrow> bool \<Rightarrow> err \<times> 'db" where
  "pg_delPeer D cfg s ih p seeder =
     pg_Exec D s (pq_DelQuery (pg_Peer cfg)) (peer_args ih p @ [(pSeeder, PBool seeder)])"

definition pg_PutSeeder :: "('db, 'tx, 'row) pgdb \<Rightarrow> PgConfig \<Rightarrow> int \<Rightarrow> 'db \<Rightarrow> infohash \<Rightarrow> Peer \<Rightarrow> err \<times> 'db" where
  "pg_PutSeeder D cfg now s ih p = pg_putPeer D cfg now s ih p True"

definition pg_DeleteSeeder :: "('db, 'tx, 'row) pgdb \<Rightarrow> PgConfig \<Rightarrow> 'db \<Rightarrow> infohash \<Rightarrow> Peer \<Rightarrow> err \<times> 'db" where
  "pg_DeleteSeeder D cfg s ih p = pg_delPeer D cfg s ih p True"

definition pg_PutLeecher :: "('db, 'tx, 'row) pgdb \<Rightarrow> PgConfig \<Rightarrow> int \<Rightarrow> 'db \<Rightarrow> infohash \<Rightarrow> Peer \<Rightarrow> err \<times> 'db" where
  "pg_PutLeecher D cfg now s ih p = pg_putPeer D cfg now s ih p False"

definition pg_DeleteLeecher :: "('db, 'tx, 'row) pgdb \<Rightarrow> PgConfig \<Rightarrow> 'db \<Rightarrow> infohash \<Rightarrow> Peer \<Rightarrow> err \<times> 'db" where
  "pg_DeleteLeecher D cfg s ih p = pg_delPeer D cfg s ih p False"

definition pg_GraduateLeecher :: "('db, 'tx, 'row) pgdb \<Rightarrow> PgConfig \<Rightarrow> 'db \<Rightarrow> infohash \<Rightarrow> Peer \<Rightarrow> err \<times> 'db" where
  "pg_GraduateLeecher D cfg s ih p =
     txBatch D s [(pq_GraduateQuery (pg_Peer cfg), peer_args ih p),
                  (wq_IncrementQuery (pg_Downloads cfg), [(pInfoHash, PBytes ih)])]"

subsection \<open>Reading swarms\<close>

definition errRequiredColumnsNotFound :: "bytes list \<Rightarrow> goerror" where
  "errRequiredColumnsNotFound cols = OtherError (''one or more required columns not found in result set: ['' @
     strings_Join (map (map (\<lambda>b. char_of (unat b))) cols) '' '' @ '']'')"

text \<open>The positions of the columns of a result, -1 for those that are not there.\<close>

definition announce_columns :: "(bytes \<Rightarrow> bytes) \<Rightarrow> announceQueryConf \<Rightarrow> bytes list \<Rightarrow> int \<times> int \<times> int" where
  "announce_columns uni A fs =
     foldl (\<lambda>(idIndex, ipIndex, portIndex) (i, field).
        let name = ToUpper uni field in
        if name = aq_PeerIDColumn A then (int i, ipIndex, portIndex)
        else if name = aq_AddressColumn A then (idIndex, int i, portIndex)
        else if name = aq_PortColumn A then (idIndex, ipIndex, int i)
        else (idIndex, ipIndex, portIndex)) (- 1, - 1, - 1) (enumerate 0 fs)"

definition max_index :: "int \<Rightarrow> int \<Rightarrow> int \<Rightarrow> int" where
  "max_index idIndex ipIndex portIndex =
     (if idIndex \<ge> ipIndex \<and> idIndex \<ge> portIndex then idIndex
      else if ipIndex \<ge> idIndex \<and> ipIndex \<ge> portIndex then ipIndex
      else if portIndex \<ge> idIndex \<and> portIndex \<ge> ipIndex then portIndex
      else 0)"

definition scan_peer :: "('db, 'tx, 'row) pgdb \<Rightarrow> int \<times> int \<times> int \<Rightarrow> 'row \<Rightarrow> goerror + Peer" where
  "scan_peer D cols row =
     (let (idIndex, ipIndex, portIndex) = cols in
      case pg_ScanPeer D row (nat (max_index idIndex ipIndex portIndex + 1)) (nat idIndex) (nat ipIndex) (nat portIndex) of
        Inl e \<Rightarrow> Inl e
      | Inr (idb, ip, port) \<Rightarrow>
     (case NewPeerID idb of
        Inl e \<Rightarrow> Inl e
      | Inr pid \<Rightarrow>
     (case AddrFromSlice ip of
        None \<Rightarrow> Inl ErrInvalidIP
      | Some netAddr \<Rightarrow> Inr \<lparr>peer_ID = pid, peer_AddrPort = \<lparr>ap_addr = netAddr, ap_port = word_of_int port\<rparr>\<rparr>)))"

text \<open>The loop over the rows; the error of a row is overwritten by the next one.\<close>

fun scan_peers ::
  "('db, 'tx, 'row) pgdb \<Rightarrow> int \<times> int \<times> int \<Rightarrow> int \<Rightarrow> 'row list \<Rightarrow> Peer list \<Rightarrow> err \<Rightarrow> Peer list \<times> err" where
  "scan_peers D cols maxCount [] peers e = (peers, e)"
| "scan_peers D cols maxCount (row # rows) peers e =
     (if int (length peers) < maxCount
      then case scan_peer D cols row of
             Inl x \<Rightarrow> scan_peers D cols maxCount rows peers (Some x)
           | Inr p \<Rightarrow> scan_peers D cols maxCount rows (peers @ [p]) None
      else (peers, e))"

definition pg_getPeers ::
  "(bytes \<Rightarrow> bytes) \<Rightarrow> ('db, 'tx, 'row) pgdb \<Rightarrow> PgConfig \<Rightarrow> 'db \<Rightarrow> infohash \<Rightarrow> bool \<Rightarrow> int \<Rightarrow> bool \<Rightarrow> Peer list \<times> err" where
  "pg_getPeers uni D cfg s ih sdr maxCount isV6 =
     (case pg_Query D s (aq_Query (pg_Announce cfg))
             [(pInfoHash, PBytes ih), (pSeeder, PBool sdr), (pV6, PBool isV6), (pCount, PInt maxCount)] of
        Inl e \<Rightarrow> ([], Some e)
      | Inr rows \<Rightarrow>
          (let A = pg_Announce cfg; (idIndex, ipIndex, portIndex) = announce_columns uni A (rows_Fields rows) in
           if idIndex < 0 \<or> ipIndex < 0 \<or> portIndex < 0
           then ([], Some (errRequiredColumnsNotFound [aq_PeerIDColumn A, aq_AddressColumn A, aq_PortColumn A]))
           else scan_peers D (idIndex, ipIndex, portIndex) maxCount (rows_Rows rows) [] None))"

definition pg_AnnouncePeers ::
  "(bytes \<Rightarrow> bytes) \<Rightarrow> ('db, 'tx, 'row) pgdb \<Rightarrow> PgConfig \<Rightarrow> 'db \<Rightarrow> infohash \<Rightarrow> bool \<Rightarrow> int \<Rightarrow> bool \<Rightarrow> Peer list \<times> err" where
  "pg_AnnouncePeers uni D cfg s ih forSeeder numWant v6 =
     (let (peers, e) =
        (if forSeeder then pg_getPeers uni D cfg s ih False numWant v6
         else let (ps, e1) = pg_getPeers uni D cfg s ih True numWant v6 in
              if e1 = None
              then let (addPeers, e2) = pg_getPeers uni D cfg s ih False (numWant - int (length ps)) v6
                   in (ps @ addPeers, e2)
              else (ps, e1))
      in if e = None then (peers, if length peers = 0 then Some ErrResourceDoesNotExist else None)
         else (peers, if length peers > 0 then None else e))"

definition count_columns :: "(bytes \<Rightarrow> bytes) \<Rightarrow> peerQueryConf \<Rightarrow> bytes list \<Rightarrow> int \<times> int" where
  "count_columns uni P fs =
     foldl (\<lambda>(si, li) (i, field).
        let name = ToUpper uni field in
        if name = pq_CountSeedersColumn P then (int i, li)
        else if name = pq_CountLeechersColumn P then (si, int i)
        else (si, li)) (- 1, - 1) (enumerate 0 fs)"

definition pg_countPeers ::
  "(bytes \<Rightarrow> bytes) \<Rightarrow> ('db, 'tx, 'row) pgdb \<Rightarrow> PgConfig \<Rightarrow> 'db \<Rightarrow> bytes \<Rightarrow> u32 \<times> u32 \<times> err" where
  "pg_countPeers uni D cfg s ih =
     (let P = pg_Peer cfg;
          res = (if length ih = 0 then pg_Query D s (pq_CountQuery P) []
                 else pg_Query D s (pq_CountQuery P @ str '' '' @ pq_ByInfoHashClause P) [(pInfoHash, PBytes ih)])
      in case res of
           Inl e \<Rightarrow> (0, 0, noResultErr (Some e))
         | Inr rows \<Rightarrow>
             (case rows_Rows rows of
                [] \<Rightarrow> (0, 0, None)
              | row # _ \<Rightarrow>
                  (let (si, li) = count_columns uni P (rows_Fields rows) in
                   if si < 0 \<or> li < 0
                   then (0, 0, Some (errRequiredColumnsNotFound [pq_CountSeedersColumn P, pq_CountLeechersColumn P]))
                   else let mi = (if si > li then si else li);
                            (sdrs, lchs, e) = pg_ScanCounts D row (nat (mi + 1)) (nat si) (nat li)
                        in (sdrs, lchs, noResultErr e))))"

definition pg_ScrapeSwarm ::
  "(bytes \<Rightarrow> bytes) \<Rightarrow> ('db, 'tx, 'row) pgdb \<Rightarrow> PgConfig \<Rightarrow> 'db \<Rightarrow> infohash \<Rightarrow> u32 \<times> u32 \<times> u32 \<times> err" where
  "pg_ScrapeSwarm uni D cfg s ih =
     (let (sdrs, lchs, e) = pg_countPeers uni D cfg s ih in
      if e \<noteq> None then (lchs, sdrs, 0, e)
      else if length (wq_GetQuery (pg_Downloads cfg)) > 0
      then let (snatched, e2) = pg_RowUint32 D s (wq_GetQuery (pg_Downloads cfg)) [(pInfoHash, PBytes ih)]
           in (lchs, sdrs, snatched, noResultErr e2)
      else (lchs, sdrs, 0, None))"

text \<open>One collection of \<open>ScheduleGC\<close>.\<close>

definition pg_gc :: "('db, 'tx, 'row) pgdb \<Rightarrow> PgConfig \<Rightarrow> int \<Rightarrow> 'db \<Rightarrow> err \<times> 'db" where
  "pg_gc D cfg created s = pg_Exec D s (pg_GCQuery cfg) [(pCreated, PTime created)]"

subsection \<open>The storage\<close>

definition pg_Ping :: "('db, 'tx, 'row) pgdb \<Rightarrow> PgConfig \<Rightarrow> 'db \<Rightarrow> err" where
  "pg_Ping D cfg s = fst (pg_Exec D s (pg_PingQuery cfg) [])"

definition pg_storage :: "(bytes \<Rightarrow> bytes) \<Rightarrow> ('db, 'tx, 'row) pgdb \<Rightarrow> PgConfig \<Rightarrow> int \<Rightarrow> 'db PeerStorage" where
  "pg_storage uni D cfg now =
     \<lparr>ds_Put = pg_Put D cfg, ds_Contains = pg_Contains D cfg, ds_Load = pg_Load D cfg, ds_Delete = pg_Delete D cfg,
      ds_Preservable = True,
      ps_PutSeeder = \<lambda>s ih p. Ret (pg_PutSeeder D cfg now s ih p),
      ps_DeleteSeeder = \<lambda>s ih p. Ret (pg_DeleteSeeder D cfg s ih p),
      ps_PutLeecher = \<lambda>s ih p. Ret (pg_PutLeecher D cfg now s ih p),
      ps_DeleteLeecher = \<lambda>s ih p. Ret (pg_DeleteLeecher D cfg s ih p),
      ps_GraduateLeecher = \<lambda>s ih p. Ret (pg_GraduateLeecher D cfg s ih p),
      ps_AnnouncePeers = \<lambda>s ih forSeeder n v6. Ret (pg_AnnouncePeers uni D cfg s ih forSeeder n v6),
      ps_ScrapeSwarm = \<lambda>s ih. Ret (pg_ScrapeSwarm uni D cfg s ih),
      ps_Ping = pg_Ping D cfg\<rparr>"

text \<open>
  \<open>Close\<close> hands the work to a goroutine; closing the channel a second time panics there and
  ends the program. The argument and the result say whether the channel is closed.
\<close>

definition pg_Close :: "bool \<Rightarrow> (err \<times> bool) go" where
  "pg_Close channelClosed = (if channelClosed then Panic ''close of closed channel'' else Ret (None, True))"

end
