(* ===== verification/PgProps.thy ===== *)
theory PgProps
  imports Pg RedisProps
begin

section \<open>The PostgreSQL driver over a database that does what is documented\<close>

text \<open>
  \<open>docs/storage/postgres.md\<close> gives a table of peers and the queries, and asks that other queries
  behave in the same way; \<open>pg_documented\<close> says what these queries do to a table, \<open>view\<close>, with one
  row per info hash, peer ID, address and port, and the role, the address family and the time
  stamp of the peer. Arguments are found by their names. The announce query is the one of
  \<open>storage/pg/storage_test.go\<close>; that of the document has positional parameters, which the driver
  does not send. The graduation compares the column of peer IDs with itself in both places, so
  it has no condition on the peer ID.
\<close>

subsection \<open>The table of peers\<close>

type_synonym pkey = "infohash \<times> peerid \<times> bytes \<times> int"

definition prow :: "infohash \<Rightarrow> Peer \<Rightarrow> pkey" where
  "prow ih p = (ih, peer_ID p, AsSlice (Peer_Addr p), uint (ap_port (peer_AddrPort p)))"








subsection \<open>What is documented of the queries\<close>







subsection \<open>The registry of the table\<close>














lemma fst_prow [simp]: "fst (prow ih p) = ih"
  by (simp add: prow_def)










subsection \<open>Reading\<close>











subsection \<open>Writing\<close>







lemma scan_peers_bound:
  "int (length ps) \<le> max 0 n \<Longrightarrow> int (length (fst (scan_peers D cols n rows ps e))) \<le> max 0 n"
  by (induction rows arbitrary: ps e) (auto split: sum.split)

lemma getPeers_bound: "int (length (fst (pg_getPeers uni D cfg s ih sd n v6))) \<le> max 0 n"
  using scan_peers_bound [of "[]" n D] by (simp add: pg_getPeers_def Let_def split: sum.split prod.split)

subsection \<open>Properties\<close>


text \<open>
  C38: Announcing in PostgreSQL over any database, whatever its queries return: there is an error
  exactly when there are no peers, and there are never more peers than wanted.
\<close>

theorem pg_announce_total:
  "(snd (pg_AnnouncePeers uni D cfg s ih forSeeder numWant v6) = None \<longleftrightarrow>
      fst (pg_AnnouncePeers uni D cfg s ih forSeeder numWant v6) \<noteq> []) \<and>
   int (length (fst (pg_AnnouncePeers uni D cfg s ih forSeeder numWant v6))) \<le> max 0 numWant"
proof -
  obtain ps e where ps: "pg_getPeers uni D cfg s ih True numWant v6 = (ps, e)" by fastforce
  obtain qs e' where qs: "pg_getPeers uni D cfg s ih False (numWant - int (length ps)) v6 = (qs, e')" by fastforce
  obtain rs e'' where rs: "pg_getPeers uni D cfg s ih False numWant v6 = (rs, e'')" by fastforce
  have b: "int (length ps) \<le> max 0 numWant" "int (length qs) \<le> max 0 (numWant - int (length ps))" "int (length rs) \<le> max 0 numWant"
    using getPeers_bound [of uni D cfg s ih] ps qs rs by (metis fst_conv)+
  then show ?thesis by (auto simp: pg_AnnouncePeers_def ps qs rs)
qed

subsection \<open>An executable database\<close>




















end
