(* ===== verification/MemoryRaces.thy ===== *)
theory MemoryRaces
  imports MemoryProps
begin

section \<open>Interleavings in the in-memory storage\<close>

text \<open>
  A shard of \<open>storage/memory\<close> at the grain of its locks. The map of a shard holds references to
  swarms, so a goroutine keeps working on a swarm after another one has removed it from the
  map: \<open>c_heap\<close> are the swarms, \<open>c_swarms\<close> maps an infohash to the position of its swarm. A
  \<open>thread\<close> says what a goroutine does next and with which values; each step is one critical
  section, one atomic addition to a counter, or one unlocked read of a length.
\<close>

subsection \<open>State\<close>

record cshard =
  c_swarms :: "(infohash, nat) gomap"
  c_heap :: "swarm list"
  c_numSeeders :: u64
  c_numLeechers :: u64

definition peers_of :: "bool \<Rightarrow> swarm \<Rightarrow> (Peer, int) gomap" where
  "peers_of sd sw = (if sd then seeders sw else leechers sw)"

definition set_peers :: "bool \<Rightarrow> (Peer, int) gomap \<Rightarrow> swarm \<Rightarrow> swarm" where
  "set_peers sd m sw = (if sd then sw\<lparr>seeders := m\<rparr> else sw\<lparr>leechers := m\<rparr>)"

definition c_peers :: "cshard \<Rightarrow> nat \<Rightarrow> bool \<Rightarrow> (Peer, int) gomap" where
  "c_peers s a sd = peers_of sd (c_heap s ! a)"

definition c_set_peers :: "cshard \<Rightarrow> nat \<Rightarrow> bool \<Rightarrow> (Peer, int) gomap \<Rightarrow> cshard" where
  "c_set_peers s a sd m = s\<lparr>c_heap := (c_heap s)[a := set_peers sd m (c_heap s ! a)]\<rparr>"

definition c_add :: "cshard \<Rightarrow> bool \<Rightarrow> u64 \<Rightarrow> cshard" where
  "c_add s sd d = (if sd then s\<lparr>c_numSeeders := c_numSeeders s + d\<rparr> else s\<lparr>c_numLeechers := c_numLeechers s + d\<rparr>)"

text \<open>
  \<open>Lookup\<close> and \<open>Create\<close> are the two critical sections of \<open>getOrCreate\<close>. The first argument says
  for which operation, a put of a seeder or a leecher, or a graduation.
\<close>

datatype kop = KPut bool | KGraduate

datatype thread =
    Lookup kop infohash Peer int
  | Create kop infohash Peer int
  | Unleech nat Peer int
  | UnleechCount nat Peer int
  | Check bool nat Peer int
  | Count bool nat Peer int
  | Store bool nat Peer int
  | DelLookup bool infohash Peer
  | DelPeer bool nat Peer
  | DelCount bool
  | GcLookup infohash int
  | GcScan bool nat infohash int
  | GcDel bool nat infohash int "Peer list"
  | GcDelCount bool nat infohash int "Peer list"
  | GcLeechersLen nat infohash
  | GcSeedersLen nat infohash
  | GcRemove infohash
  | Done

fun found :: "kop \<Rightarrow> nat \<Rightarrow> Peer \<Rightarrow> int \<Rightarrow> thread" where
  "found (KPut sd) a p t = Check sd a p t"
| "found KGraduate a p t = Unleech a p t"

text \<open>The collection of a swarm goes on with the seeders after the leechers, then looks at the lengths.\<close>

definition gc_next :: "bool \<Rightarrow> nat \<Rightarrow> infohash \<Rightarrow> int \<Rightarrow> thread" where
  "gc_next sd a ih cutoff = (if sd then GcLeechersLen a ih else GcScan True a ih cutoff)"

fun tstep :: "((Peer \<times> int) list \<Rightarrow> (Peer \<times> int) list) \<Rightarrow> thread \<Rightarrow> cshard \<Rightarrow> thread \<times> cshard" where
  "tstep ord (Lookup k ih p t) s =
     (case m_get (c_swarms s) ih of Some a \<Rightarrow> (found k a p t, s) | None \<Rightarrow> (Create k ih p t, s))"
| "tstep ord (Create k ih p t) s =
     (case m_get (c_swarms s) ih of
        Some a \<Rightarrow> (found k a p t, s)
      | None \<Rightarrow> (found k (length (c_heap s)) p t,
                 s\<lparr>c_swarms := m_set ih (length (c_heap s)) (c_swarms s),
                   c_heap := c_heap s @ [\<lparr>seeders = [], leechers = []\<rparr>]\<rparr>))"
| "tstep ord (Unleech a p t) s =
     (let (ok, m) = peers_del p (c_peers s a False) in
      (if ok then UnleechCount a p t else Check True a p t, c_set_peers s a False m))"
| "tstep ord (UnleechCount a p t) s = (Check True a p t, c_add s False decrUint64)"
| "tstep ord (Check sd a p t) s =
     (case m_get (c_peers s a sd) p of None \<Rightarrow> (Count sd a p t, s) | Some _ \<Rightarrow> (Store sd a p t, s))"
| "tstep ord (Count sd a p t) s = (Store sd a p t, c_add s sd 1)"
| "tstep ord (Store sd a p t) s = (Done, c_set_peers s a sd (m_set p t (c_peers s a sd)))"
| "tstep ord (DelLookup sd ih p) s =
     (case m_get (c_swarms s) ih of Some a \<Rightarrow> (DelPeer sd a p, s) | None \<Rightarrow> (Done, s))"
| "tstep ord (DelPeer sd a p) s =
     (let (ok, m) = peers_del p (c_peers s a sd) in (if ok then DelCount sd else Done, c_set_peers s a sd m))"
| "tstep ord (DelCount sd) s = (Done, c_add s sd decrUint64)"
| "tstep ord (GcLookup ih cutoff) s =
     (case m_get (c_swarms s) ih of Some a \<Rightarrow> (GcScan False a ih cutoff, s) | None \<Rightarrow> (Done, s))"
| "tstep ord (GcScan sd a ih cutoff) s = (GcDel sd a ih cutoff (stale_peers ord cutoff (c_peers s a sd)), s)"
| "tstep ord (GcDel sd a ih cutoff []) s = (gc_next sd a ih cutoff, s)"
| "tstep ord (GcDel sd a ih cutoff (p # toDel)) s =
     (let (ok, m) = peers_del p (c_peers s a sd) in
      (if ok then GcDelCount sd a ih cutoff toDel else GcDel sd a ih cutoff toDel, c_set_peers s a sd m))"
| "tstep ord (GcDelCount sd a ih cutoff toDel) s = (GcDel sd a ih cutoff toDel, c_add s sd decrUint64)"
| "tstep ord (GcLeechersLen a ih) s = (if length (c_peers s a False) = 0 then GcSeedersLen a ih else Done, s)"
| "tstep ord (GcSeedersLen a ih) s = (if length (c_peers s a True) = 0 then GcRemove ih else Done, s)"
| "tstep ord (GcRemove ih) s = (Done, s\<lparr>c_swarms := m_del ih (c_swarms s)\<rparr>)"
| "tstep ord Done s = (Done, s)"

text \<open>A step of one of the goroutines, and a run of the scheduler that picks them by number.\<close>

inductive cstep ::
  "((Peer \<times> int) list \<Rightarrow> (Peer \<times> int) list) \<Rightarrow> cshard \<times> thread list \<Rightarrow> cshard \<times> thread list \<Rightarrow> bool" for ord where
  "i < length ts \<Longrightarrow> tstep ord (ts ! i) s = (t', s') \<Longrightarrow> cstep ord (s, ts) (s', ts[i := t'])"

definition crun ::
  "((Peer \<times> int) list \<Rightarrow> (Peer \<times> int) list) \<Rightarrow> nat list \<Rightarrow> cshard \<times> thread list \<Rightarrow> cshard \<times> thread list" where
  "crun ord is c = foldl (\<lambda>(s, ts) i. let (t', s') = tstep ord (ts ! i) s in (s', ts[i := t'])) c is"

inductive_cases cstepE: "cstep ord (s, ts) c"

subsection \<open>What a shard holds\<close>

definition c_at :: "cshard \<Rightarrow> infohash \<Rightarrow> bool \<Rightarrow> Peer set" where
  "c_at s ih sd = (case m_get (c_swarms s) ih of None \<Rightarrow> {} | Some a \<Rightarrow> m_keys (c_peers s a sd))"

text \<open>References are valid and no two infohashes share a swarm.\<close>

definition c_ok :: "cshard \<Rightarrow> bool" where
  "c_ok s \<longleftrightarrow> (\<forall>ih a. m_get (c_swarms s) ih = Some a \<longrightarrow> a < length (c_heap s)) \<and>
     (\<forall>ih ih' a. m_get (c_swarms s) ih = Some a \<longrightarrow> m_get (c_swarms s) ih' = Some a \<longrightarrow> ih = ih')"

lemma c_peers_set:
  "a < length (c_heap s) \<Longrightarrow>
   c_peers (c_set_peers s a sd m) a' sd' = (if a' = a \<and> sd' = sd then m else c_peers s a' sd')"
  by (auto simp: c_peers_def c_set_peers_def peers_of_def set_peers_def nth_list_update)

lemma c_simps [simp]:
  "c_swarms (c_set_peers s a sd m) = c_swarms s" "length (c_heap (c_set_peers s a sd m)) = length (c_heap s)"
  "c_swarms (c_add s sd d) = c_swarms s" "c_heap (c_add s sd d) = c_heap s" "c_peers (c_add s sd d) = c_peers s"
  by (auto simp: c_set_peers_def c_add_def c_peers_def fun_eq_iff)

lemma c_at_add [simp]: "c_at (c_add s sd d) = c_at s"
  by (simp add: c_at_def fun_eq_iff split: option.split)

lemma c_ok_simps [simp]: "c_ok (c_set_peers s a sd m) = c_ok s" "c_ok (c_add s sd d) = c_ok s"
  by (simp_all add: c_ok_def)

lemma c_at_set:
  assumes "c_ok s" and "m_get (c_swarms s) ih = Some a"
  shows "c_at (c_set_peers s a sd m) ih' sd' = (if ih' = ih \<and> sd' = sd then m_keys m else c_at s ih' sd')"
proof -
  have a: "a < length (c_heap s)" "m_get (c_swarms s) ih' = Some a \<Longrightarrow> ih' = ih"
    using assms unfolding c_ok_def by blast+
  show ?thesis
  proof (cases "m_get (c_swarms s) ih'")
    case None
    then show ?thesis using assms(2) by (auto simp: c_at_def)
  next
    case (Some b)
    show ?thesis
    proof (cases "ih' = ih")
      case True
      then show ?thesis using assms(2) a(1) by (simp add: c_at_def c_peers_set)
    next
      case False
      then have "b \<noteq> a" using a(2) Some by blast
      then show ?thesis using False Some a(1) by (simp add: c_at_def c_peers_set)
    qed
  qed
qed

lemma c_create:
  assumes "c_ok s" and "m_get (c_swarms s) ih = None"
  shows "c_ok (s\<lparr>c_swarms := m_set ih (length (c_heap s)) (c_swarms s), c_heap := c_heap s @ [\<lparr>seeders = [], leechers = []\<rparr>]\<rparr>)"
    (is "c_ok ?s")
    and "c_at (s\<lparr>c_swarms := m_set ih (length (c_heap s)) (c_swarms s), c_heap := c_heap s @ [\<lparr>seeders = [], leechers = []\<rparr>]\<rparr>) = c_at s"
proof -
  have v: "a < length (c_heap s)" if "m_get (c_swarms s) ih' = Some a" for ih' a using assms(1) that by (simp add: c_ok_def)
  have inj: "ih1 = ih2" if "m_get (c_swarms s) ih1 = Some a" "m_get (c_swarms s) ih2 = Some a" for ih1 ih2 a
    using assms(1) that unfolding c_ok_def by blast
  have g: "m_get (c_swarms ?s) ih' = (if ih' = ih then Some (length (c_heap s)) else m_get (c_swarms s) ih')" for ih' by simp
  have fresh: "m_get (c_swarms s) ih' \<noteq> Some (length (c_heap s))" for ih' using v [of ih' "length (c_heap s)"] by blast
  show "c_ok ?s"
    unfolding c_ok_def
  proof (intro conjI allI impI)
    show "a < length (c_heap ?s)" if "m_get (c_swarms ?s) ih' = Some a" for ih' a
      using that v [of ih' a] unfolding g by (auto split: if_splits)
    show "ih1 = ih2" if "m_get (c_swarms ?s) ih1 = Some a" "m_get (c_swarms ?s) ih2 = Some a" for ih1 ih2 a
      using that fresh inj [of ih1 a ih2] unfolding g by (auto split: if_splits)
  qed
  show "c_at ?s = c_at s"
  proof (intro ext)
    fix ih' sd
    show "c_at ?s ih' sd = c_at s ih' sd"
    proof (cases "m_get (c_swarms s) ih'")
      case None
      then show ?thesis using assms(2) by (cases "ih' = ih") (simp_all add: c_at_def c_peers_def peers_of_def)
    next
      case (Some a)
      then have "ih' \<noteq> ih" using assms(2) by auto
      then show ?thesis using Some v [OF Some] by (simp add: c_at_def c_peers_def nth_append)
    qed
  qed
qed

subsection \<open>Puts that run at the same time\<close>

text \<open>
  How far a goroutine that puts a peer has come: before it has found the swarm; after it, when
  the swarm it holds is the one in the map; and at its end, when the peer is there.
\<close>

definition put_progress :: "cshard \<Rightarrow> bool \<times> infohash \<times> Peer \<times> int \<Rightarrow> thread \<Rightarrow> bool" where
  "put_progress s put th = (case put of (sd, ih, p, t) \<Rightarrow>
     th = Lookup (KPut sd) ih p t \<or> th = Create (KPut sd) ih p t \<or>
     (\<exists>a. m_get (c_swarms s) ih = Some a \<and> (th = Check sd a p t \<or> th = Count sd a p t \<or> th = Store sd a p t)) \<or>
     (th = Done \<and> p \<in> c_at s ih sd))"

definition puts_inv :: "cshard \<Rightarrow> (bool \<times> infohash \<times> Peer \<times> int) list \<Rightarrow> cshard \<times> thread list \<Rightarrow> bool" where
  "puts_inv s0 puts c = (case c of (s, ts) \<Rightarrow> c_ok s \<and> list_all2 (put_progress s) puts ts \<and>
     (\<forall>ih sd. c_at s0 ih sd \<subseteq> c_at s ih sd \<and> c_at s ih sd \<subseteq> c_at s0 ih sd \<union> {p. \<exists>t. (sd, ih, p, t) \<in> set puts}))"

lemma put_progress_mono:
  assumes "put_progress s put th" and "\<And>ih a. m_get (c_swarms s) ih = Some a \<Longrightarrow> m_get (c_swarms s') ih = Some a"
    and "\<And>ih sd. c_at s ih sd \<subseteq> c_at s' ih sd"
  shows "put_progress s' put th"
  using assms unfolding put_progress_def by (cases put) blast

lemma put_step:
  assumes "c_ok s" and "put_progress s (sd, ih, p, t) th" and "tstep ord th s = (th', s')"
  shows "c_ok s'" "put_progress s' (sd, ih, p, t) th'"
    "\<And>ih' a. m_get (c_swarms s) ih' = Some a \<Longrightarrow> m_get (c_swarms s') ih' = Some a"
    "\<And>ih' sd'. c_at s ih' sd' \<subseteq> c_at s' ih' sd'"
    "\<And>ih' sd'. c_at s' ih' sd' \<subseteq> c_at s ih' sd' \<union> (if ih' = ih \<and> sd' = sd then {p} else {})"
proof -
  consider (lookup) "th = Lookup (KPut sd) ih p t" | (create) "th = Create (KPut sd) ih p t"
    | (check) a where "m_get (c_swarms s) ih = Some a" "th = Check sd a p t"
    | (count) a where "m_get (c_swarms s) ih = Some a" "th = Count sd a p t"
    | (store) a where "m_get (c_swarms s) ih = Some a" "th = Store sd a p t"
    | (ended) "th = Done" "p \<in> c_at s ih sd"
    using assms(2) unfolding put_progress_def by auto
  then have "c_ok s' \<and> put_progress s' (sd, ih, p, t) th' \<and>
    (\<forall>ih' a. m_get (c_swarms s) ih' = Some a \<longrightarrow> m_get (c_swarms s') ih' = Some a) \<and>
    (\<forall>ih' sd'. c_at s ih' sd' \<subseteq> c_at s' ih' sd' \<and>
       c_at s' ih' sd' \<subseteq> c_at s ih' sd' \<union> (if ih' = ih \<and> sd' = sd then {p} else {}))"
  proof cases
    case lookup
    then show ?thesis using assms(1,3) by (auto simp: put_progress_def split: option.splits)
  next
    case create
    show ?thesis
    proof (cases "m_get (c_swarms s) ih")
      case None
      then have s': "s' = s\<lparr>c_swarms := m_set ih (length (c_heap s)) (c_swarms s), c_heap := c_heap s @ [\<lparr>seeders = [], leechers = []\<rparr>]\<rparr>"
        "th' = Check sd (length (c_heap s)) p t" using assms(3) create by auto
      show ?thesis using None c_create [OF assms(1) None] by (simp add: s' put_progress_def)
    next
      case (Some a)
      then show ?thesis using assms(1,3) create by (simp add: put_progress_def)
    qed
  next
    case check
    then show ?thesis using assms(1,3) by (auto simp: put_progress_def split: option.splits)
  next
    case count
    then show ?thesis using assms(1,3) by (auto simp: put_progress_def)
  next
    case store
    then have s': "s' = c_set_peers s a sd (m_set p t (c_peers s a sd))" "th' = Done" using assms(3) by auto
    have "c_at s ih sd = m_keys (c_peers s a sd)" using store(1) by (simp add: c_at_def)
    then show ?thesis using assms(1) by (auto simp: s' put_progress_def c_at_set [OF assms(1) store(1)])
  next
    case ended
    then show ?thesis using assms(1,3) by (auto simp: put_progress_def)
  qed
  then show "c_ok s'" "put_progress s' (sd, ih, p, t) th'"
    "\<And>ih' a. m_get (c_swarms s) ih' = Some a \<Longrightarrow> m_get (c_swarms s') ih' = Some a"
    "\<And>ih' sd'. c_at s ih' sd' \<subseteq> c_at s' ih' sd'"
    "\<And>ih' sd'. c_at s' ih' sd' \<subseteq> c_at s ih' sd' \<union> (if ih' = ih \<and> sd' = sd then {p} else {})"
    by blast+
qed

lemma puts_inv_step:
  assumes "puts_inv s0 puts c" and "cstep ord c c'"
  shows "puts_inv s0 puts c'"
  using assms(2,1)
proof (induction rule: cstep.induct)
  case (1 i ts s t' s')
  then have inv: "c_ok s" "list_all2 (put_progress s) puts ts"
    "\<And>ih sd. c_at s0 ih sd \<subseteq> c_at s ih sd" "\<And>ih sd. c_at s ih sd \<subseteq> c_at s0 ih sd \<union> {p. \<exists>t. (sd, ih, p, t) \<in> set puts}"
    by (simp_all add: puts_inv_def)
  obtain sd ih p t where put: "puts ! i = (sd, ih, p, t)" using prod_cases4 by blast
  have len: "length puts = length ts" using inv(2) by (rule list_all2_lengthD)
  have "put_progress s (sd, ih, p, t) (ts ! i)" using list_all2_nthD2 [OF inv(2) 1(1)] put by simp
  note st = put_step [OF inv(1) this 1(2)]
  have mem: "(sd, ih, p, t) \<in> set puts" using put len 1(1) by (metis nth_mem)
  have "list_all2 (put_progress s') puts (ts[i := t'])"
  proof (rule list_all2_all_nthI)
    show "length puts = length (ts[i := t'])" by (simp add: len)
    fix j assume j: "j < length puts"
    have "put_progress s (puts ! j) (ts ! j)" using list_all2_nthD [OF inv(2) j] .
    then show "put_progress s' (puts ! j) (ts[i := t'] ! j)"
      using put_progress_mono [OF _ st(3,4)] st(2) put j len by (cases "j = i") auto
  qed
  moreover have "c_at s0 ih' sd' \<subseteq> c_at s' ih' sd'" for ih' sd' using inv(3) st(4) by blast
  moreover have "c_at s' ih' sd' \<subseteq> c_at s0 ih' sd' \<union> {p. \<exists>t. (sd', ih', p, t) \<in> set puts}" for ih' sd'
    using inv(4) [of ih' sd'] st(5) [of ih' sd'] mem by (auto split: if_splits)
  ultimately show ?case using st(1) by (simp add: puts_inv_def)
qed

lemma puts_inv_reach:
  assumes "(cstep ord)\<^sup>*\<^sup>* c c'" and "puts_inv s0 puts c"
  shows "puts_inv s0 puts c'"
  using assms by (induction rule: rtranclp_induct) (auto intro: puts_inv_step)

definition start_put :: "bool \<times> infohash \<times> Peer \<times> int \<Rightarrow> thread" where
  "start_put put = (case put of (sd, ih, p, t) \<Rightarrow> Lookup (KPut sd) ih p t)"

lemma puts_inv_start: "c_ok s \<Longrightarrow> puts_inv s puts (s, map start_put puts)"
  by (auto simp: puts_inv_def put_progress_def start_put_def list_all2_map2 intro: list_all2_refl)

text \<open>Every goroutine that puts a peer needs at most five more steps, whatever the others do.\<close>

fun put_rank :: "thread \<Rightarrow> nat" where
  "put_rank (Lookup k ih p t) = 5"
| "put_rank (Create k ih p t) = 4"
| "put_rank (Check sd a p t) = 3"
| "put_rank (Count sd a p t) = 2"
| "put_rank (Store sd a p t) = 1"
| "put_rank th = 0"

lemma put_rank_step:
  "put_progress s put th \<Longrightarrow> th \<noteq> Done \<Longrightarrow> tstep ord th s = (th', s') \<Longrightarrow> put_rank th' < put_rank th"
  by (cases put) (auto simp: put_progress_def split: option.splits)

lemma sum_list_update_less:
  "i < length xs \<Longrightarrow> f y < f (xs ! i) \<Longrightarrow> sum_list (map f (xs[i := y])) < (sum_list (map f xs) :: nat)"
proof (induction xs arbitrary: i)
  case (Cons x xs)
  then show ?case by (cases i) auto
qed simp

lemma puts_finish:
  "puts_inv s0 puts (s, ts) \<Longrightarrow> \<exists>s' ts'. (cstep ord)\<^sup>*\<^sup>* (s, ts) (s', ts') \<and> (\<forall>th \<in> set ts'. th = Done)"
proof (induction "sum_list (map put_rank ts)" arbitrary: s ts rule: less_induct)
  case less
  show ?case
  proof (cases "\<forall>th \<in> set ts. th = Done")
    case False
    then obtain i where i: "i < length ts" "ts ! i \<noteq> Done" by (metis in_set_conv_nth)
    obtain th' s' where st: "tstep ord (ts ! i) s = (th', s')" by fastforce
    have step: "cstep ord (s, ts) (s', ts[i := th'])" using i(1) st by (rule cstep.intros)
    have "put_progress s (puts ! i) (ts ! i)" using less.prems i(1) by (auto simp: puts_inv_def list_all2_nthD2)
    then have "put_rank th' < put_rank (ts ! i)" using put_rank_step i(2) st by blast
    then have "sum_list (map put_rank (ts[i := th'])) < sum_list (map put_rank ts)" by (rule sum_list_update_less [OF i(1)])
    from less.hyps [OF this puts_inv_step [OF less.prems step]]
    show ?thesis using step by (meson converse_rtranclp_into_rtranclp)
  qed auto
qed

subsection \<open>One goroutine at a time\<close>

text \<open>The shard of the sequential model that a state here stands for.\<close>

definition represents :: "peerShard \<Rightarrow> cshard \<Rightarrow> bool" where
  "represents sh s \<longleftrightarrow> numSeeders sh = c_numSeeders s \<and> numLeechers sh = c_numLeechers s \<and>
     (\<forall>ih. m_get (swarms sh) ih = map_option (\<lambda>a. c_heap s ! a) (m_get (c_swarms s) ih))"

lemma solo_step: "tstep ord th s = (th', s') \<Longrightarrow> (cstep ord)\<^sup>*\<^sup>* (s', [th']) c \<Longrightarrow> (cstep ord)\<^sup>*\<^sup>* (s, [th]) c"
  using cstep.intros [of 0 "[th]" ord s th' s'] by (auto intro: converse_rtranclp_into_rtranclp)

lemma represents_write:
  assumes "represents sh s" and "c_ok s" and "m_get (c_swarms s) ih = Some a"
  shows "represents (sh\<lparr>swarms := m_set ih (set_peers sd m (c_heap s ! a)) (swarms sh)\<rparr>) (c_set_peers s a sd m)"
proof -
  have "a < length (c_heap s)" "\<And>ih'. ih' \<noteq> ih \<Longrightarrow> m_get (c_swarms s) ih' \<noteq> Some a"
    using assms(2,3) unfolding c_ok_def by blast+
  then show ?thesis
    using assms(1,3) by (auto simp: represents_def c_set_peers_def nth_list_update map_option_case split: option.split)
qed

lemma represents_add:
  "represents sh s \<Longrightarrow> represents (if sd then sh\<lparr>numSeeders := numSeeders sh + d\<rparr> else sh\<lparr>numLeechers := numLeechers sh + d\<rparr>) (c_add s sd d)"
  by (simp add: represents_def c_add_def)

lemma solo_getOrCreate:
  assumes "represents sh s" and "c_ok s" and "getOrCreate (swarms sh) ih = (sw, m)"
  shows "\<exists>s' a. (\<forall>c. (cstep ord)\<^sup>*\<^sup>* (s', [found k a p t]) c \<longrightarrow> (cstep ord)\<^sup>*\<^sup>* (s, [Lookup k ih p t]) c) \<and>
     c_ok s' \<and> m_get (c_swarms s') ih = Some a \<and> c_heap s' ! a = sw \<and> represents (sh\<lparr>swarms := m\<rparr>) s'"
proof (cases "m_get (c_swarms s) ih")
  case (Some a)
  then have "sw = c_heap s ! a" "m = swarms sh" using assms(1,3) by (auto simp: represents_def getOrCreate_def)
  then show ?thesis using Some assms(1,2) by (intro exI [of _ s] exI [of _ a]) (auto intro: solo_step)
next
  case None
  let ?s = "s\<lparr>c_swarms := m_set ih (length (c_heap s)) (c_swarms s), c_heap := c_heap s @ [\<lparr>seeders = [], leechers = []\<rparr>]\<rparr>"
  have sw: "sw = \<lparr>seeders = [], leechers = []\<rparr>" "m = m_set ih sw (swarms sh)"
    using assms(1,3) None by (auto simp: represents_def getOrCreate_def Let_def)
  have v: "a < length (c_heap s)" if "m_get (c_swarms s) ih' = Some a" for ih' a using assms(2) that by (simp add: c_ok_def)
  have "represents (sh\<lparr>swarms := m\<rparr>) ?s"
    using assms(1) v by (auto simp: represents_def sw nth_append map_option_case split: option.split)
  moreover have "(cstep ord)\<^sup>*\<^sup>* (s, [Lookup k ih p t]) c" if "(cstep ord)\<^sup>*\<^sup>* (?s, [found k (length (c_heap s)) p t]) c" for c
    using None that by (auto intro!: solo_step [of ord "Lookup k ih p t" s "Create k ih p t" s]
        solo_step [of ord "Create k ih p t" s "found k (length (c_heap s)) p t" ?s])
  ultimately show ?thesis
    using c_create(1) [OF assms(2) None] by (intro exI [of _ ?s] exI [of _ "length (c_heap s)"]) (simp add: sw)
qed

definition c_bump :: "bool \<Rightarrow> u64 \<Rightarrow> peerShard \<Rightarrow> peerShard" where
  "c_bump sd d sh = (if sd then sh\<lparr>numSeeders := numSeeders sh + d\<rparr> else sh\<lparr>numLeechers := numLeechers sh + d\<rparr>)"

lemma represents_c_bump: "represents sh s \<Longrightarrow> represents (c_bump sd d sh) (c_add s sd d)"
  using represents_add by (simp add: c_bump_def)

definition seq_put :: "bool \<Rightarrow> infohash \<Rightarrow> Peer \<Rightarrow> int \<Rightarrow> swarm \<Rightarrow> peerShard \<Rightarrow> peerShard" where
  "seq_put sd ih p t sw sh =
     (if m_get (peers_of sd sw) p = None then c_bump sd 1 sh else sh)
       \<lparr>swarms := m_set ih (set_peers sd (m_set p t (peers_of sd sw)) sw) (swarms sh)\<rparr>"

definition seq_del :: "bool \<Rightarrow> infohash \<Rightarrow> Peer \<Rightarrow> swarm \<Rightarrow> peerShard \<Rightarrow> peerShard" where
  "seq_del sd ih p sw sh =
     (let (ok, m) = peers_del p (peers_of sd sw) in
      (if ok then c_bump sd decrUint64 sh else sh)\<lparr>swarms := m_set ih (set_peers sd m sw) (swarms sh)\<rparr>)"

lemma swarms_c_bump [simp]:
  "swarms (c_bump sd d sh) = swarms sh" "c_bump sd d (sh\<lparr>swarms := m\<rparr>) = (c_bump sd d sh)\<lparr>swarms := m\<rparr>"
  by (simp_all add: c_bump_def)

lemma represents_del:
  assumes "represents sh s" and "c_ok s" and "m_get (c_swarms s) ih = Some a" and "peers_del p (c_peers s a sd) = (ok, m)"
  shows "represents (seq_del sd ih p (c_heap s ! a) sh)
     (if ok then c_add (c_set_peers s a sd m) sd decrUint64 else c_set_peers s a sd m)"
  using represents_write [OF assms(1-3), of sd m] represents_c_bump [OF represents_write [OF assms(1-3), of sd m], of sd decrUint64]
    assms(4) by (simp add: seq_del_def c_peers_def)

lemma solo_put:
  assumes "represents sh s" and "c_ok s" and "m_get (c_swarms s) ih = Some a"
  shows "\<exists>s'. (cstep ord)\<^sup>*\<^sup>* (s, [Check sd a p t]) (s', [Done]) \<and> c_ok s' \<and> represents (seq_put sd ih p t (c_heap s ! a) sh) s'"
proof (cases "m_get (c_peers s a sd) p")
  case None
  let ?s = "c_set_peers (c_add s sd 1) a sd (m_set p t (c_peers s a sd))"
  have "(cstep ord)\<^sup>*\<^sup>* (s, [Check sd a p t]) (?s, [Done])"
    using None by (auto intro!: solo_step [of ord "Check sd a p t" s "Count sd a p t" s]
        solo_step [of ord "Count sd a p t" s "Store sd a p t" "c_add s sd 1"]
        solo_step [of ord "Store sd a p t" "c_add s sd 1" Done ?s])
  moreover have "represents (seq_put sd ih p t (c_heap s ! a) sh) ?s"
    using represents_write [OF represents_c_bump [OF assms(1), of sd 1], of ih a sd "m_set p t (c_peers s a sd)"] assms(2,3) None
    by (simp add: seq_put_def c_peers_def)
  ultimately show ?thesis using assms(2) by (intro exI [of _ ?s]) simp
next
  case (Some x)
  let ?s = "c_set_peers s a sd (m_set p t (c_peers s a sd))"
  have "(cstep ord)\<^sup>*\<^sup>* (s, [Check sd a p t]) (?s, [Done])"
    using Some by (auto intro!: solo_step [of ord "Check sd a p t" s "Store sd a p t" s] solo_step [of ord "Store sd a p t" s Done ?s])
  moreover have "represents (seq_put sd ih p t (c_heap s ! a) sh) ?s"
    using represents_write [OF assms, of sd "m_set p t (c_peers s a sd)"] Some by (simp add: seq_put_def c_peers_def)
  ultimately show ?thesis using assms(2) by (intro exI [of _ ?s]) simp
qed

lemma solo_del:
  assumes "represents sh s" and "c_ok s" and "m_get (c_swarms s) ih = Some a"
  shows "\<exists>s'. (cstep ord)\<^sup>*\<^sup>* (s, [DelLookup sd ih p]) (s', [Done]) \<and> c_ok s' \<and> represents (seq_del sd ih p (c_heap s ! a) sh) s'"
proof -
  obtain ok m where d: "peers_del p (c_peers s a sd) = (ok, m)" by fastforce
  let ?s = "c_set_peers s a sd m"
  let ?t = "if ok then c_add ?s sd decrUint64 else ?s"
  have "(cstep ord)\<^sup>*\<^sup>* (s, [DelLookup sd ih p]) (?t, [Done])"
    using assms(3) d
    by (auto intro!: solo_step [of ord "DelLookup sd ih p" s "DelPeer sd a p" s]
        solo_step [of ord "DelPeer sd a p" s "if ok then DelCount sd else Done" ?s]
        solo_step [of ord "DelCount sd" ?s Done "c_add ?s sd decrUint64"])
  then show ?thesis using assms(2) represents_del [OF assms d] by (intro exI [of _ ?t]) simp
qed

lemma solo_graduate:
  assumes "represents sh s" and "c_ok s" and "m_get (c_swarms s) ih = Some a"
  shows "\<exists>s'. (cstep ord)\<^sup>*\<^sup>* (s, [Unleech a p t]) (s', [Done]) \<and> c_ok s' \<and>
     represents (seq_put True ih p t (set_peers False (snd (peers_del p (leechers (c_heap s ! a)))) (c_heap s ! a))
       (seq_del False ih p (c_heap s ! a) sh)) s'"
proof -
  obtain ok m where d: "peers_del p (c_peers s a False) = (ok, m)" by fastforce
  let ?s = "c_set_peers s a False m"
  let ?t = "if ok then c_add ?s False decrUint64 else ?s"
  have a: "a < length (c_heap s)" using assms(2,3) by (simp add: c_ok_def)
  note r = represents_del [OF assms d]
  have h: "c_heap ?t ! a = set_peers False (snd (peers_del p (leechers (c_heap s ! a)))) (c_heap s ! a)"
    using d a by (auto simp: c_set_peers_def c_peers_def peers_of_def)
  obtain s' where s': "(cstep ord)\<^sup>*\<^sup>* (?t, [Check True a p t]) (s', [Done])" "c_ok s'"
    "represents (seq_put True ih p t (c_heap ?t ! a) (seq_del False ih p (c_heap s ! a) sh)) s'"
  proof -
    have "c_ok ?t" "m_get (c_swarms ?t) ih = Some a" using assms(2,3) by simp_all
    then show ?thesis using that solo_put [OF r, of ih a ord True p t] by blast
  qed
  have "(cstep ord)\<^sup>*\<^sup>* (s, [Unleech a p t]) (s', [Done])"
  proof (cases ok)
    case True
    then show ?thesis
      using s'(1) d by (auto intro!: solo_step [of ord "Unleech a p t" s "UnleechCount a p t" ?s]
          solo_step [of ord "UnleechCount a p t" ?s "Check True a p t" "c_add ?s False decrUint64"])
  next
    case False
    then show ?thesis using s'(1) d by (auto intro!: solo_step [of ord "Unleech a p t" s "Check True a p t" ?s])
  qed
  then show ?thesis using s'(2,3) unfolding h by blast
qed

lemma solo_deletes:
  assumes "\<not> closed ps" and "the_shard ps ih (Is6 (Peer_Addr p)) = Ret (i, sh)" and "c_ok s" and "represents sh s"
  shows "(\<exists>e sh' s'. DeleteSeeder ps ih p = Ret (e, ps\<lparr>shards := (shards ps)[i := sh']\<rparr>) \<and> represents sh' s' \<and>
        (cstep ord)\<^sup>*\<^sup>* (s, [DelLookup True ih p]) (s', [Done])) \<and>
     (\<exists>e sh' s'. DeleteLeecher ps ih p = Ret (e, ps\<lparr>shards := (shards ps)[i := sh']\<rparr>) \<and> represents sh' s' \<and>
        (cstep ord)\<^sup>*\<^sup>* (s, [DelLookup False ih p]) (s', [Done]))"
proof (cases "m_get (c_swarms s) ih")
  case None
  then have n: "m_get (swarms sh) ih = None" using assms(4) by (simp add: represents_def)
  have sh: "shards ps ! i = sh"
    using assms(2) unfolding the_shard_def by (cases "shardIndex ps ih (Is6 (Peer_Addr p))") (auto split: if_splits)
  have ps: "ps\<lparr>shards := (shards ps)[i := sh]\<rparr> = ps" unfolding sh [symmetric] by simp
  have st: "(cstep ord)\<^sup>*\<^sup>* (s, [DelLookup sd ih p]) (s, [Done])" for sd
    using None by (auto intro!: solo_step [of ord "DelLookup sd ih p" s Done s])
  have "DeleteSeeder ps ih p = Ret (Some ErrResourceDoesNotExist, ps\<lparr>shards := (shards ps)[i := sh]\<rparr>)"
    "DeleteLeecher ps ih p = Ret (Some ErrResourceDoesNotExist, ps\<lparr>shards := (shards ps)[i := sh]\<rparr>)"
    using assms(1,2) n unfolding ps by (simp_all add: DeleteSeeder_def DeleteLeecher_def)
  then show ?thesis using st assms(4) by blast
next
  case (Some a)
  then have n: "m_get (swarms sh) ih = Some (c_heap s ! a)" using assms(4) by (simp add: represents_def)
  have "DeleteSeeder ps ih p = Ret (None, ps\<lparr>shards := (shards ps)[i := seq_del True ih p (c_heap s ! a) sh]\<rparr>)"
    using assms(1,2) n
    by (cases sh) (auto simp: DeleteSeeder_def seq_del_def peers_of_def set_peers_def c_bump_def Let_def split: prod.split)
  moreover have "DeleteLeecher ps ih p = Ret (None, ps\<lparr>shards := (shards ps)[i := seq_del False ih p (c_heap s ! a) sh]\<rparr>)"
    using assms(1,2) n
    by (cases sh) (auto simp: DeleteLeecher_def seq_del_def peers_of_def set_peers_def c_bump_def Let_def split: prod.split)
  ultimately show ?thesis using solo_del [OF assms(4,3) Some, of ord _ p] by blast
qed

subsection \<open>Properties\<close>

text \<open>
  C19: The sequential model of the in-memory storage is what a goroutine does when no other runs
  at the same time: from a shard that stands for the one an operation works on, its steps end,
  with the shard that the operation of the sequential model leaves behind.
\<close>

theorem memory_solo_sequential:
  assumes "\<not> closed ps" and "the_shard ps ih (Is6 (Peer_Addr p)) = Ret (i, sh)" and "c_ok s" and "represents sh s"
  shows "(\<exists>sh' s'. PutSeeder now ps ih p = Ret (None, ps\<lparr>shards := (shards ps)[i := sh']\<rparr>) \<and> represents sh' s' \<and>
        (cstep ord)\<^sup>*\<^sup>* (s, [Lookup (KPut True) ih p now]) (s', [Done])) \<and>
     (\<exists>sh' s'. PutLeecher now ps ih p = Ret (None, ps\<lparr>shards := (shards ps)[i := sh']\<rparr>) \<and> represents sh' s' \<and>
        (cstep ord)\<^sup>*\<^sup>* (s, [Lookup (KPut False) ih p now]) (s', [Done])) \<and>
     (\<exists>sh' s'. GraduateLeecher now ps ih p = Ret (None, ps\<lparr>shards := (shards ps)[i := sh']\<rparr>) \<and> represents sh' s' \<and>
        (cstep ord)\<^sup>*\<^sup>* (s, [Lookup KGraduate ih p now]) (s', [Done])) \<and>
     (\<exists>e sh' s'. DeleteSeeder ps ih p = Ret (e, ps\<lparr>shards := (shards ps)[i := sh']\<rparr>) \<and> represents sh' s' \<and>
        (cstep ord)\<^sup>*\<^sup>* (s, [DelLookup True ih p]) (s', [Done])) \<and>
     (\<exists>e sh' s'. DeleteLeecher ps ih p = Ret (e, ps\<lparr>shards := (shards ps)[i := sh']\<rparr>) \<and> represents sh' s' \<and>
        (cstep ord)\<^sup>*\<^sup>* (s, [DelLookup False ih p]) (s', [Done]))"
proof -
  obtain sw m where g: "getOrCreate (swarms sh) ih = (sw, m)" by fastforce
  let ?sh = "sh\<lparr>swarms := m\<rparr>"
  have goc: "\<exists>s1 a. (\<forall>c. (cstep ord)\<^sup>*\<^sup>* (s1, [found k a p now]) c \<longrightarrow> (cstep ord)\<^sup>*\<^sup>* (s, [Lookup k ih p now]) c) \<and>
     c_ok s1 \<and> m_get (c_swarms s1) ih = Some a \<and> c_heap s1 ! a = sw \<and> represents ?sh s1" for k
    by (rule solo_getOrCreate [OF assms(4,3) g])
  have put: "\<exists>s'. (cstep ord)\<^sup>*\<^sup>* (s, [Lookup (KPut sd) ih p now]) (s', [Done]) \<and> represents (seq_put sd ih p now sw ?sh) s'" for sd
    using goc [of "KPut sd"] solo_put [where ord = ord and sd = sd and p = p and t = now and ih = ih and sh = ?sh]
    unfolding found.simps by metis
  have grad: "\<exists>s'. (cstep ord)\<^sup>*\<^sup>* (s, [Lookup KGraduate ih p now]) (s', [Done]) \<and>
      represents (seq_put True ih p now (set_peers False (snd (peers_del p (leechers sw))) sw) (seq_del False ih p sw ?sh)) s'"
    using goc [of KGraduate] solo_graduate [where ord = ord and p = p and t = now and ih = ih and sh = ?sh]
    unfolding found.simps by metis
  have "PutSeeder now ps ih p = Ret (None, ps\<lparr>shards := (shards ps)[i := seq_put True ih p now sw ?sh]\<rparr>)"
    using assms(1,2) g
    by (cases sh) (auto simp: PutSeeder_def seq_put_def peers_of_def set_peers_def c_bump_def split: option.split)
  moreover have "PutLeecher now ps ih p = Ret (None, ps\<lparr>shards := (shards ps)[i := seq_put False ih p now sw ?sh]\<rparr>)"
    using assms(1,2) g
    by (cases sh) (auto simp: PutLeecher_def seq_put_def peers_of_def set_peers_def c_bump_def split: option.split)
  moreover have "GraduateLeecher now ps ih p = Ret (None, ps\<lparr>shards := (shards ps)[i :=
      seq_put True ih p now (set_peers False (snd (peers_del p (leechers sw))) sw) (seq_del False ih p sw ?sh)]\<rparr>)"
    using assms(1,2) g
    by (cases sh; cases sw) (auto simp: GraduateLeecher_def seq_put_def seq_del_def peers_of_def set_peers_def c_bump_def Let_def split: option.split prod.split)
  moreover have "(\<exists>e sh' s'. DeleteSeeder ps ih p = Ret (e, ps\<lparr>shards := (shards ps)[i := sh']\<rparr>) \<and> represents sh' s' \<and>
        (cstep ord)\<^sup>*\<^sup>* (s, [DelLookup True ih p]) (s', [Done])) \<and>
     (\<exists>e sh' s'. DeleteLeecher ps ih p = Ret (e, ps\<lparr>shards := (shards ps)[i := sh']\<rparr>) \<and> represents sh' s' \<and>
        (cstep ord)\<^sup>*\<^sup>* (s, [DelLookup False ih p]) (s', [Done]))"
    by (rule solo_deletes [OF assms])
  ultimately show ?thesis using put [of True] put [of False] grad by blast
qed

text \<open>
  C8: Peers put at the same time. However the goroutines that put any number of seeders and
  leechers into the swarms of a shard are interleaved, they can all come to their end, and when
  they have, each swarm holds exactly the peers it held before and those that were put.
\<close>

theorem memory_puts_interleaved:
  assumes "c_ok s" and "(cstep ord)\<^sup>*\<^sup>* (s, map start_put puts) (s', ts)"
  shows "(\<exists>s'' ts''. (cstep ord)\<^sup>*\<^sup>* (s', ts) (s'', ts'') \<and> (\<forall>th \<in> set ts''. th = Done)) \<and>
    ((\<forall>th \<in> set ts. th = Done) \<longrightarrow> (\<forall>ih sd. c_at s' ih sd = c_at s ih sd \<union> {p. \<exists>t. (sd, ih, p, t) \<in> set puts}))"
proof -
  have inv: "puts_inv s puts (s', ts)" using puts_inv_reach [OF assms(2) puts_inv_start [OF assms(1)]] .
  have "c_at s' ih sd = c_at s ih sd \<union> {p. \<exists>t. (sd, ih, p, t) \<in> set puts}" if fin: "\<forall>th \<in> set ts. th = Done" for ih sd
  proof -
    have "p \<in> c_at s' ih sd" if "(sd, ih, p, t) \<in> set puts" for p t
    proof -
      note mem = that
      obtain j where j: "j < length puts" "puts ! j = (sd, ih, p, t)" using mem unfolding in_set_conv_nth by blast
      have a: "list_all2 (put_progress s') puts ts" using inv by (simp add: puts_inv_def)
      have "put_progress s' (sd, ih, p, t) (ts ! j)" using list_all2_nthD [OF a j(1)] unfolding j(2) .
      moreover have "ts ! j = Done" using fin j(1) nth_mem [of j ts] unfolding list_all2_lengthD [OF a] by simp
      ultimately show ?thesis by (simp add: put_progress_def)
    qed
    moreover have "c_at s ih sd \<subseteq> c_at s' ih sd" "c_at s' ih sd \<subseteq> c_at s ih sd \<union> {p. \<exists>t. (sd, ih, p, t) \<in> set puts}"
      using inv by (simp_all add: puts_inv_def)
    ultimately show ?thesis by blast
  qed
  then show ?thesis using puts_finish [OF inv] by blast
qed

text \<open>The state of a shard with one swarm that has one seeder, put at time 0.\<close>

definition one_seeder :: "infohash \<Rightarrow> Peer \<Rightarrow> cshard" where
  "one_seeder ih q = \<lparr>c_swarms = [(ih, 0)], c_heap = [\<lparr>seeders = [(q, 0)], leechers = []\<rparr>], c_numSeeders = 1, c_numLeechers = 0\<rparr>"

definition no_swarms :: cshard where
  "no_swarms = \<lparr>c_swarms = [], c_heap = [], c_numSeeders = 0, c_numLeechers = 0\<rparr>"

lemmas race_simps = crun_def one_seeder_def no_swarms_def c_at_def c_peers_def c_set_peers_def c_add_def peers_of_def set_peers_def
  peers_del_def stale_peers_def gc_next_def decrUint64_def m_get_def m_set_def m_del_def m_keys_def Let_def numeral_2_eq_2

text \<open>
  C9: A peer can be lost to the garbage collection. One goroutine puts a seeder, with time stamp
  1, another one collects what is not newer than 0 from the same swarm. Whichever runs first,
  the new seeder is there when the other runs after it. But the collection may find the swarm
  empty and remove it between the moments at which the first goroutine has looked the swarm up
  and stores the seeder in it: then the put has succeeded, the seeder is counted, and it is in
  no swarm.
\<close>

theorem memory_gc_loses_peer:
  "(let c = (one_seeder ih q, [Lookup (KPut True) ih p 1, GcLookup ih 0]) in
    (\<exists>sched s. crun id sched c = (s, [Done, Done]) \<and> c_at s ih True = {} \<and> c_numSeeders s = 1) \<and>
    (\<exists>s. crun id ([0, 0, 0, 0] @ [1, 1, 1, 1, 1, 1, 1, 1, 1, 1]) c = (s, [Done, Done]) \<and> p \<in> c_at s ih True) \<and>
    (\<exists>s. crun id ([1, 1, 1, 1, 1, 1, 1, 1, 1, 1] @ [0, 0, 0, 0, 0]) c = (s, [Done, Done]) \<and> p \<in> c_at s ih True))"
proof -
  have "\<exists>sched s. crun id sched (one_seeder ih q, [Lookup (KPut True) ih p 1, GcLookup ih 0]) = (s, [Done, Done]) \<and>
      c_at s ih True = {} \<and> c_numSeeders s = 1"
    by (rule exI [of _ "[0] @ [1, 1, 1, 1, 1, 1, 1, 1, 1, 1] @ [0, 0, 0]"]) (simp add: race_simps)
  moreover have "\<exists>s. crun id ([0, 0, 0, 0] @ [1, 1, 1, 1, 1, 1, 1, 1, 1, 1])
      (one_seeder ih q, [Lookup (KPut True) ih p 1, GcLookup ih 0]) = (s, [Done, Done]) \<and> p \<in> c_at s ih True"
    by (cases "p = q") (simp_all add: race_simps)
  moreover have "\<exists>s. crun id ([1, 1, 1, 1, 1, 1, 1, 1, 1, 1] @ [0, 0, 0, 0, 0])
      (one_seeder ih q, [Lookup (KPut True) ih p 1, GcLookup ih 0]) = (s, [Done, Done]) \<and> p \<in> c_at s ih True"
    by (simp add: race_simps)
  ultimately show ?thesis by (simp only: Let_def)
qed

text \<open>
  C20: The counters of a shard can become wrong under interleaving. Two goroutines that put the
  same new seeder at the same time count it twice. A put of a known seeder that overlaps with
  its deletion leaves a seeder that is not counted, and the next deletion makes the counter
  wrap around to the greatest 64-bit value.
\<close>

theorem memory_counters_race:
  "(\<exists>sched s. crun id sched (no_swarms, [Lookup (KPut True) ih q t, Lookup (KPut True) ih q t]) = (s, [Done, Done]) \<and>
      c_at s ih True = {q} \<and> c_numSeeders s = 2) \<and>
   (\<exists>sched s. crun id sched (one_seeder ih q, [Lookup (KPut True) ih q t, DelLookup True ih q, DelLookup True ih q]) =
      (s, [Done, Done, Done]) \<and> c_at s ih True = {} \<and> c_numSeeders s = - 1)"
proof
  show "\<exists>sched s. crun id sched (no_swarms, [Lookup (KPut True) ih q t, Lookup (KPut True) ih q t]) = (s, [Done, Done]) \<and>
      c_at s ih True = {q} \<and> c_numSeeders s = 2"
    by (rule exI [of _ "[0, 0, 0, 1, 1, 0, 0, 1, 1]"]) (simp add: race_simps)
  show "\<exists>sched s. crun id sched (one_seeder ih q, [Lookup (KPut True) ih q t, DelLookup True ih q, DelLookup True ih q]) =
      (s, [Done, Done, Done]) \<and> c_at s ih True = {} \<and> c_numSeeders s = - 1"
    by (rule exI [of _ "[0, 0, 1, 1, 1, 0, 2, 2, 2]"]) (simp add: race_simps)
qed

subsection \<open>Witnesses\<close>

definition two_shards :: peerStore where
  "two_shards = \<lparr>store_data = [], shards = [empty_shard, empty_shard], closed = False\<rparr>"

lemma no_swarms_ok: "c_ok no_swarms" "represents empty_shard no_swarms"
  by (simp_all add: c_ok_def represents_def no_swarms_def empty_shard_def)

theorem memory_solo_sequential_witness:
  "\<exists>sh' s'. PutSeeder 7 two_shards [0, 0, 0, 0] example_peer = Ret (None, two_shards\<lparr>shards := (shards two_shards)[0 := sh']\<rparr>) \<and>
     represents sh' s' \<and> (cstep id)\<^sup>*\<^sup>* (no_swarms, [Lookup (KPut True) [0, 0, 0, 0] example_peer 7]) (s', [Done])"
proof -
  have "the_shard two_shards [0, 0, 0, 0] (Is6 (Peer_Addr example_peer)) = Ret (0, empty_shard)" by code_simp
  then show ?thesis
    using memory_solo_sequential [of two_shards "[0, 0, 0, 0]" example_peer 0 empty_shard no_swarms 7 id] no_swarms_ok
    by (simp add: two_shards_def)
qed

theorem memory_puts_interleaved_witness:
  "\<exists>s. (cstep id)\<^sup>*\<^sup>* (no_swarms, map start_put [(True, [0], example_peer, 7)]) (s, [Done]) \<and> c_at s [0] True = {example_peer}"
proof -
  let ?c = "(no_swarms, map start_put [(True, [0], example_peer, 7)])"
  obtain s ts where s: "(cstep id)\<^sup>*\<^sup>* ?c (s, ts)" "\<forall>th \<in> set ts. th = Done"
    using memory_puts_interleaved [OF no_swarms_ok(1) rtranclp.rtrancl_refl] by blast
  have "length ts = 1"
    using puts_inv_reach [OF s(1) puts_inv_start [OF no_swarms_ok(1)]] by (auto simp: puts_inv_def dest: list_all2_lengthD)
  then have "ts = [Done]" using s(2) by (cases ts) auto
  moreover have "c_at s [0] True = {example_peer}"
    using memory_puts_interleaved [OF no_swarms_ok(1) s(1), THEN conjunct2, THEN mp, OF s(2), THEN spec, THEN spec, of "[0]" True]
    by (simp add: c_at_def no_swarms_def)
  ultimately show ?thesis using s(1) by blast
qed

end
