(* ===== verification/Schedules.thy ===== *)
theory Schedules
  imports MemoryProps Redis Pg
begin

section \<open>The scheduled work of the storages\<close>

text \<open>
  \<open>ScheduleGC\<close> and \<open>ScheduleStatisticsCollection\<close> of \<open>storage/memory\<close>, \<open>storage/redis\<close> and
  \<open>storage/pg\<close> start goroutines that wait for a timer or for the storage to be closed. A run is the sequence of
  what happens, in this order: \<open>Closing\<close> is the closing of the storage, \<open>Op\<close> an operation that
  another goroutine does, with its effect given by \<open>act\<close>, and \<open>Tick now fin\<close> a moment at which
  the scheduler lets the goroutine look at its timer: \<open>now\<close> is the time, in nanoseconds, and
  \<open>fin\<close> the time when it is done with what it does then.
\<close>

datatype 'o sched = Closing | Tick (tick_now: int) (tick_fin: int) | Op 'o

definition run_ops :: "('o \<Rightarrow> 's \<Rightarrow> 's) \<Rightarrow> 'o sched list \<Rightarrow> 's \<Rightarrow> 's" where
  "run_ops act evs s = foldl (\<lambda>s ev. case ev of Op x \<Rightarrow> act x s | _ \<Rightarrow> s) s evs"

subsection \<open>Garbage collection\<close>

text \<open>
  A timer of \<open>time.NewTimer\<close> delivers once, at its deadline or later; it delivers again only
  after a \<open>Reset\<close>. \<open>None\<close> is a timer that has delivered.
\<close>

fun memory_gc_loop ::
  "((Peer \<times> int) list \<Rightarrow> (Peer \<times> int) list) \<Rightarrow> (infohash list \<Rightarrow> infohash list) \<Rightarrow> ('o \<Rightarrow> peerStore \<Rightarrow> peerStore) \<Rightarrow>
   duration \<Rightarrow> int option \<Rightarrow> 'o sched list \<Rightarrow> peerStore \<Rightarrow> peerStore" where
  "memory_gc_loop ord ordh act peerLifeTime t [] ps = ps"
| "memory_gc_loop ord ordh act peerLifeTime t (Closing # evs) ps = run_ops act evs ps"
| "memory_gc_loop ord ordh act peerLifeTime t (Op x # evs) ps = memory_gc_loop ord ordh act peerLifeTime t evs (act x ps)"
| "memory_gc_loop ord ordh act peerLifeTime t (Tick now fin # evs) ps =
     (case t of
        None \<Rightarrow> memory_gc_loop ord ordh act peerLifeTime None evs ps
      | Some deadline \<Rightarrow>
          if deadline \<le> now
          then memory_gc_loop ord ordh act peerLifeTime None evs (gc ord ordh (wrap64 (now - peerLifeTime)) ps)
          else memory_gc_loop ord ordh act peerLifeTime t evs ps)"

definition memory_ScheduleGC ::
  "((Peer \<times> int) list \<Rightarrow> (Peer \<times> int) list) \<Rightarrow> (infohash list \<Rightarrow> infohash list) \<Rightarrow> ('o \<Rightarrow> peerStore \<Rightarrow> peerStore) \<Rightarrow>
   int \<Rightarrow> duration \<Rightarrow> duration \<Rightarrow> 'o sched list \<Rightarrow> peerStore \<Rightarrow> peerStore" where
  "memory_ScheduleGC ord ordh act start gcInterval peerLifeTime evs ps =
     memory_gc_loop ord ordh act peerLifeTime (Some (start + gcInterval)) evs ps"

fun redis_gc_loop ::
  "'r redis \<Rightarrow> ('o \<Rightarrow> 'r \<Rightarrow> 'r) \<Rightarrow> duration \<Rightarrow> duration \<Rightarrow> int \<Rightarrow> 'o sched list \<Rightarrow> 'r \<Rightarrow> 'r" where
  "redis_gc_loop R act gcInterval peerLifeTime deadline [] s = s"
| "redis_gc_loop R act gcInterval peerLifeTime deadline (Closing # evs) s = run_ops act evs s"
| "redis_gc_loop R act gcInterval peerLifeTime deadline (Op x # evs) s =
     redis_gc_loop R act gcInterval peerLifeTime deadline evs (act x s)"
| "redis_gc_loop R act gcInterval peerLifeTime deadline (Tick now fin # evs) s =
     (if deadline \<le> now
      then redis_gc_loop R act gcInterval peerLifeTime (fin + gcInterval) evs (redis_gc R (wrap64 (now - peerLifeTime)) s)
      else redis_gc_loop R act gcInterval peerLifeTime deadline evs s)"

definition redis_ScheduleGC ::
  "'r redis \<Rightarrow> ('o \<Rightarrow> 'r \<Rightarrow> 'r) \<Rightarrow> int \<Rightarrow> duration \<Rightarrow> duration \<Rightarrow> 'o sched list \<Rightarrow> 'r \<Rightarrow> 'r" where
  "redis_ScheduleGC R act start gcInterval peerLifeTime evs s =
     redis_gc_loop R act gcInterval peerLifeTime (start + gcInterval) evs s"

text \<open>In PostgreSQL nothing is scheduled when there is no query for it; its error is only logged.\<close>

fun pg_gc_loop ::
  "('db, 'tx, 'row) pgdb \<Rightarrow> PgConfig \<Rightarrow> ('o \<Rightarrow> 'db \<Rightarrow> 'db) \<Rightarrow> duration \<Rightarrow> duration \<Rightarrow> int \<Rightarrow> 'o sched list \<Rightarrow> 'db \<Rightarrow> 'db" where
  "pg_gc_loop D cfg act gcInterval peerLifeTime deadline [] s = s"
| "pg_gc_loop D cfg act gcInterval peerLifeTime deadline (Closing # evs) s = run_ops act evs s"
| "pg_gc_loop D cfg act gcInterval peerLifeTime deadline (Op x # evs) s =
     pg_gc_loop D cfg act gcInterval peerLifeTime deadline evs (act x s)"
| "pg_gc_loop D cfg act gcInterval peerLifeTime deadline (Tick now fin # evs) s =
     (if deadline \<le> now
      then pg_gc_loop D cfg act gcInterval peerLifeTime (fin + gcInterval) evs
             (snd (pg_gc D cfg (now - peerLifeTime) s))
      else pg_gc_loop D cfg act gcInterval peerLifeTime deadline evs s)"

definition pg_ScheduleGC ::
  "('db, 'tx, 'row) pgdb \<Rightarrow> PgConfig \<Rightarrow> ('o \<Rightarrow> 'db \<Rightarrow> 'db) \<Rightarrow> int \<Rightarrow> duration \<Rightarrow> duration \<Rightarrow> 'o sched list \<Rightarrow> 'db \<Rightarrow> 'db" where
  "pg_ScheduleGC D cfg act start gcInterval peerLifeTime evs s =
     (if length (pg_GCQuery cfg) = 0 then run_ops act evs s
      else pg_gc_loop D cfg act gcInterval peerLifeTime (start + gcInterval) evs s)"

subsection \<open>Statistics\<close>

text \<open>
  The reports of a run, the numbers of infohashes, seeders and leechers. A ticker of
  \<open>time.NewTicker\<close> keeps delivering, so every \<open>Tick\<close> is one; \<open>enabled\<close> is \<open>metrics.Enabled\<close>.
\<close>

fun memory_ScheduleStatisticsCollection ::
  "bool \<Rightarrow> ('o \<Rightarrow> peerStore \<Rightarrow> peerStore) \<Rightarrow> 'o sched list \<Rightarrow> peerStore \<Rightarrow> (u64 \<times> u64 \<times> u64) list" where
  "memory_ScheduleStatisticsCollection enabled act [] ps = []"
| "memory_ScheduleStatisticsCollection enabled act (Closing # evs) ps = []"
| "memory_ScheduleStatisticsCollection enabled act (Op x # evs) ps =
     memory_ScheduleStatisticsCollection enabled act evs (act x ps)"
| "memory_ScheduleStatisticsCollection enabled act (Tick now fin # evs) ps =
     (if enabled then [collect_statistics ps] else []) @ memory_ScheduleStatisticsCollection enabled act evs ps"

fun redis_ScheduleStatisticsCollection ::
  "'r redis \<Rightarrow> bool \<Rightarrow> ('o \<Rightarrow> 'r \<Rightarrow> 'r) \<Rightarrow> 'o sched list \<Rightarrow> 'r \<Rightarrow> (int \<times> int \<times> int) list" where
  "redis_ScheduleStatisticsCollection R enabled act [] s = []"
| "redis_ScheduleStatisticsCollection R enabled act (Closing # evs) s = []"
| "redis_ScheduleStatisticsCollection R enabled act (Op x # evs) s =
     redis_ScheduleStatisticsCollection R enabled act evs (act x s)"
| "redis_ScheduleStatisticsCollection R enabled act (Tick now fin # evs) s =
     (if enabled then [(redis_count R s IHKey True, redis_count R s CountSeederKey False, redis_count R s CountLeecherKey False)]
      else []) @ redis_ScheduleStatisticsCollection R enabled act evs s"

text \<open>The count of infohashes stays 0 when its query fails or has no row.\<close>

fun pg_statistics_loop ::
  "(bytes \<Rightarrow> bytes) \<Rightarrow> ('db, 'tx, 'row) pgdb \<Rightarrow> PgConfig \<Rightarrow> bool \<Rightarrow> ('o \<Rightarrow> 'db \<Rightarrow> 'db) \<Rightarrow> 'o sched list \<Rightarrow> 'db \<Rightarrow>
   (int \<times> u32 \<times> u32) list" where
  "pg_statistics_loop uni D cfg enabled act [] s = []"
| "pg_statistics_loop uni D cfg enabled act (Closing # evs) s = []"
| "pg_statistics_loop uni D cfg enabled act (Op x # evs) s = pg_statistics_loop uni D cfg enabled act evs (act x s)"
| "pg_statistics_loop uni D cfg enabled act (Tick now fin # evs) s =
     (if enabled
      then let (sc, lc, e) = pg_countPeers uni D cfg s [];
               (hc, e') = pg_RowInt D s (pg_InfoHashCountQuery cfg) []
           in [(if e' = None then hc else 0, sc, lc)]
      else []) @ pg_statistics_loop uni D cfg enabled act evs s"

definition pg_ScheduleStatisticsCollection ::
  "(bytes \<Rightarrow> bytes) \<Rightarrow> ('db, 'tx, 'row) pgdb \<Rightarrow> PgConfig \<Rightarrow> bool \<Rightarrow> ('o \<Rightarrow> 'db \<Rightarrow> 'db) \<Rightarrow> 'o sched list \<Rightarrow> 'db \<Rightarrow>
   (int \<times> u32 \<times> u32) list" where
  "pg_ScheduleStatisticsCollection uni D cfg enabled act evs s =
     (if length (pg_InfoHashCountQuery cfg) = 0 then [] else pg_statistics_loop uni D cfg enabled act evs s)"

subsection \<open>Lemmas\<close>

definition waiting :: "int \<Rightarrow> 'o sched \<Rightarrow> bool" where
  "waiting deadline ev = (case ev of Closing \<Rightarrow> False | Tick now fin \<Rightarrow> now < deadline | Op x \<Rightarrow> True)"

lemma run_ops_simps [simp]:
  "run_ops act [] s = s" "run_ops act (Closing # evs) s = run_ops act evs s"
  "run_ops act (Tick now fin # evs) s = run_ops act evs s" "run_ops act (Op x # evs) s = run_ops act evs (act x s)"
  by (simp_all add: run_ops_def)

lemma memory_gc_loop_None: "memory_gc_loop ord ordh act l None evs ps = run_ops act evs ps"
  by (induction ord ordh act l "None :: int option" evs ps rule: memory_gc_loop.induct) simp_all

lemma memory_gc_loop_waiting:
  "\<forall>ev \<in> set evs. waiting deadline ev \<Longrightarrow>
   memory_gc_loop ord ordh act l (Some deadline) (evs @ evs') ps = memory_gc_loop ord ordh act l (Some deadline) evs' (run_ops act evs ps)"
  by (induction evs arbitrary: ps) (auto simp: waiting_def split: sched.splits)

lemma redis_gc_loop_waiting:
  "\<forall>ev \<in> set evs. waiting deadline ev \<Longrightarrow>
   redis_gc_loop R act i l deadline (evs @ evs') s = redis_gc_loop R act i l deadline evs' (run_ops act evs s)"
  by (induction evs arbitrary: s) (auto simp: waiting_def split: sched.splits)

text \<open>
  In the Redis storage the collection runs again and again: at each moment at which the
  interval has passed it collects, and the interval starts again when the collection is done.
\<close>

lemma redis_gc_periodic:
  assumes "\<forall>ev \<in> set evs. waiting (start + gcInterval) ev" and "start + gcInterval \<le> now"
  shows "redis_ScheduleGC R act start gcInterval peerLifeTime (evs @ Tick now fin # evs') s =
    redis_ScheduleGC R act fin gcInterval peerLifeTime evs' (redis_gc R (wrap64 (now - peerLifeTime)) (run_ops act evs s))"
  using assms(2) unfolding redis_ScheduleGC_def redis_gc_loop_waiting [OF assms(1)] by simp

subsection \<open>Properties\<close>

text \<open>
  C25: The garbage collection of the in-memory storage runs at most once. Up to the first moment
  at which the interval has passed only the other goroutines act; then the peers that were not
  seen for the lifetime of a peer are collected; after that, however long the tracker runs,
  only the other goroutines act again, because the timer is not reset.
\<close>

theorem memory_gc_once:
  assumes "\<forall>ev \<in> set evs. waiting (start + gcInterval) ev" and "start + gcInterval \<le> now"
  shows "memory_ScheduleGC ord ordh act start gcInterval peerLifeTime (evs @ Tick now fin # evs') ps =
    run_ops act evs' (gc ord ordh (wrap64 (now - peerLifeTime)) (run_ops act evs ps))"
  using assms(2) unfolding memory_ScheduleGC_def memory_gc_loop_waiting [OF assms(1)]
  by (simp add: memory_gc_loop_None)

subsection \<open>Witnesses\<close>

theorem memory_gc_once_witness:
  "memory_ScheduleGC id id (\<lambda>f. f) 0 10 100 ([Op id, Tick 5 6] @ Tick 11 12 # [Tick 30 31, Tick 1000 1001])
     \<lparr>store_data = [], shards = [], closed = False\<rparr> =
   run_ops (\<lambda>f. f) [Tick 30 31, Tick 1000 1001] (gc id id (wrap64 (- 89)) \<lparr>store_data = [], shards = [], closed = False\<rparr>)"
  using memory_gc_once [of "[Op id, Tick 5 6]" 0 10 11 id id "\<lambda>f. f" 100 12] by (simp add: waiting_def)

end
