(* ===== verification/Server.thy ===== *)
theory Server
  imports Middleware Frontend
begin

section \<open>Command \<open>mochi\<close>: the server\<close>

text \<open>
  \<open>cmd/mochi/server.go\<close>: starting the parts of the tracker from a configuration and shutting
  them down. \<open>'c\<close> is the type of configuration maps, \<open>'k\<close> that of the values with a \<open>Close\<close>
  method. The parts come from functions that other packages have registered: \<open>newStorage\<close> is
  \<open>storage.NewStorage\<close> over the drivers, \<open>hooks\<close> and \<open>fronts\<close> are the builders of hooks and
  frontends, \<open>newMetrics\<close> starts the metrics server. \<open>closer\<close> is the type assertion of a hook to
  \<open>io.Closer\<close>, and a nil hook is \<open>None\<close>.
\<close>

record 'c server_Config =
  sc_AnnounceInterval :: duration
  sc_MinAnnounceInterval :: duration
  sc_MetricsAddr :: bytes
  sc_Frontends :: "(bytes \<times> 'c) list"
  sc_Storage :: "bytes \<times> 'c"
  sc_PreHooks :: "(bytes \<times> 'c) list"
  sc_PostHooks :: "(bytes \<times> 'c) list"

record ('k, 's) Server =
  server_frontends :: "'k list"
  server_hooks :: "'k list"
  server_storage :: "'s PeerStorage option"

record ('c, 'k, 's) server_parts =
  sp_newMetrics :: "bytes \<Rightarrow> 'k"
  sp_newStorage :: "bytes \<Rightarrow> 'c \<Rightarrow> goerror + 's PeerStorage"
  sp_hooks :: "(bytes, 'c \<Rightarrow> 's PeerStorage \<Rightarrow> goerror + 's Hook option) gomap"
  sp_closer :: "'s Hook option \<Rightarrow> 'k option"
  sp_fronts :: "(bytes, 'c \<Rightarrow> 's Logic \<Rightarrow> goerror + 'k) gomap"

definition failed :: "string \<Rightarrow> goerror \<Rightarrow> goerror" where
  "failed what e = OtherError (''failed to '' @ what @ '': '' @ err_text e)"

definition hook_closers :: "('s Hook option \<Rightarrow> 'k option) \<Rightarrow> 's Hook option list \<Rightarrow> 'k list" where
  "hook_closers closer hs = List.map_filter closer hs"

definition start_frontends ::
  "('c, 'k, 's) server_parts \<Rightarrow> 'c server_Config \<Rightarrow> 's PeerStorage \<Rightarrow> 's Hook option list \<Rightarrow> 's Hook option list \<Rightarrow>
   ('k, 's) Server \<Rightarrow> ('k, 's) Server \<times> err" where
  "start_frontends parts cfg st preHooks postHooks r =
     (if length (sc_Frontends cfg) > 0
      then let logic = NewLogic (sc_AnnounceInterval cfg) (sc_MinAnnounceInterval cfg) st preHooks postHooks;
               (fs, e) = NewFrontends (sp_fronts parts) (sc_Frontends cfg) logic
           in case e of
                None \<Rightarrow> (r\<lparr>server_frontends := server_frontends r @ fs\<rparr>, None)
              | Some x \<Rightarrow> (r, Some (failed ''configure frontends'' x))
      else (r, Some (OtherError ''no frontends configured'')))"

definition server_Run :: "('c, 'k, 's) server_parts \<Rightarrow> 'c server_Config \<Rightarrow> ('k, 's) Server \<Rightarrow> ('k, 's) Server \<times> err" where
  "server_Run parts cfg r0 =
     (let r1 = (if length (sc_MetricsAddr cfg) > 0
                then r0\<lparr>server_frontends := server_frontends r0 @ [sp_newMetrics parts (sc_MetricsAddr cfg)]\<rparr> else r0)
      in case sp_newStorage parts (fst (sc_Storage cfg)) (snd (sc_Storage cfg)) of
           Inl e \<Rightarrow> (r1\<lparr>server_storage := None\<rparr>, Some (failed ''create storage'' e))
         | Inr st \<Rightarrow>
     (let r2 = r1\<lparr>server_storage := Some st\<rparr>; (preHooks, e1) = NewHooks (sp_hooks parts) (sc_PreHooks cfg) st in
      case e1 of Some e \<Rightarrow> (r2, Some (failed ''configure pre-hooks'' e))
      | None \<Rightarrow>
     (let r3 = r2\<lparr>server_hooks := server_hooks r2 @ hook_closers (sp_closer parts) preHooks\<rparr>;
          (postHooks, e2) = NewHooks (sp_hooks parts) (sc_PostHooks cfg) st in
      case e2 of Some e \<Rightarrow> (r3, Some (failed ''configure post-hooks'' e))
      | None \<Rightarrow> start_frontends parts cfg st preHooks postHooks
                  (r3\<lparr>server_hooks := server_hooks r3 @ hook_closers (sp_closer parts) postHooks\<rparr>))))"

text \<open>
  Shutting down as the sequence of its steps. \<open>closeGroup\<close> waits for the \<open>Close\<close> of every member of
  a group, all running at the same time, and keeps the errors in the order of the members.
\<close>

datatype 'k shutdown_step = GroupStopped "'k list" "goerror list" | StorageStopped err

definition closeGroup :: "('k \<Rightarrow> err) \<Rightarrow> 'k list \<Rightarrow> goerror list" where
  "closeGroup close cls = List.map_filter close cls"

definition server_Shutdown :: "('k \<Rightarrow> err) \<Rightarrow> ('s PeerStorage \<Rightarrow> err) \<Rightarrow> ('k, 's) Server \<Rightarrow> 'k shutdown_step list" where
  "server_Shutdown close closeStorage r =
     [GroupStopped (server_frontends r) (closeGroup close (server_frontends r)),
      GroupStopped (server_hooks r) (closeGroup close (server_hooks r)),
      StorageStopped (case server_storage r of
         None \<Rightarrow> Some (OtherError ''peer store not configured'') | Some st \<Rightarrow> closeStorage st)]"

subsection \<open>Lemmas\<close>

lemma hook_closers_append [simp]: "hook_closers f (xs @ ys) = hook_closers f xs @ hook_closers f ys"
  by (simp add: hook_closers_def List.map_filter_def)

lemma NewHooks_ok:
  "NewHooks builders cfgs st = (hs, None) \<longleftrightarrow>
   list_all2 (\<lambda>(name, c) h. \<exists>b. m_get builders name = Some b \<and> b c st = Inr h) cfgs hs"
proof (induction cfgs arbitrary: hs)
  case (Cons a cfgs)
  obtain name c where a: "a = (name, c)" by fastforce
  have "NewHooks builders (a # cfgs) st = (hs, None) \<longleftrightarrow>
      (\<exists>b h ys. m_get builders name = Some b \<and> b c st = Inr h \<and> hs = h # ys \<and> NewHooks builders cfgs st = (ys, None))"
    by (auto simp: a split: option.split sum.split prod.split)
  then show ?case unfolding Cons.IH list_all2_Cons1 a by simp blast
qed auto

lemma NewFrontends_ok:
  "NewFrontends builders cfgs logic = (fs, None) \<longleftrightarrow>
   list_all2 (\<lambda>(name, c) f. \<exists>b. m_get builders name = Some b \<and> b c logic = Inr f) cfgs fs"
proof (induction cfgs arbitrary: fs)
  case (Cons a cfgs)
  obtain name c where a: "a = (name, c)" by fastforce
  have "NewFrontends builders (a # cfgs) logic = (fs, None) \<longleftrightarrow>
      (\<exists>b f ys. m_get builders name = Some b \<and> b c logic = Inr f \<and> fs = f # ys \<and> NewFrontends builders cfgs logic = (ys, None))"
    by (auto simp: a split: option.split sum.split prod.split)
  then show ?case unfolding Cons.IH list_all2_Cons1 a by simp blast
qed auto

subsection \<open>Properties\<close>

text \<open>
  C36: Starting the server. It succeeds exactly when the storage, every hook and at least one
  frontend are configured and every one of them starts. Then each frontend was built over the
  logic of the middleware with the configured hooks, on the storage that was created, and the
  server holds what has to be closed: the metrics server, all frontends in their order, the
  hooks that can be closed, and the storage.
\<close>

theorem server_Run_correct:
  "server_Run parts cfg \<lparr>server_frontends = [], server_hooks = [], server_storage = None\<rparr> = (r, None) \<longleftrightarrow>
   (\<exists>st pre post fs.
      sp_newStorage parts (fst (sc_Storage cfg)) (snd (sc_Storage cfg)) = Inr st \<and>
      list_all2 (\<lambda>(name, c) h. \<exists>b. m_get (sp_hooks parts) name = Some b \<and> b c st = Inr h) (sc_PreHooks cfg) pre \<and>
      list_all2 (\<lambda>(name, c) h. \<exists>b. m_get (sp_hooks parts) name = Some b \<and> b c st = Inr h) (sc_PostHooks cfg) post \<and>
      sc_Frontends cfg \<noteq> [] \<and>
      list_all2 (\<lambda>(name, c) f. \<exists>b. m_get (sp_fronts parts) name = Some b \<and>
          b c (NewLogic (sc_AnnounceInterval cfg) (sc_MinAnnounceInterval cfg) st pre post) = Inr f) (sc_Frontends cfg) fs \<and>
      r = \<lparr>server_frontends = (if sc_MetricsAddr cfg = [] then [] else [sp_newMetrics parts (sc_MetricsAddr cfg)]) @ fs,
           server_hooks = hook_closers (sp_closer parts) (pre @ post), server_storage = Some st\<rparr>)"
  unfolding NewHooks_ok [of "sp_hooks parts", symmetric] NewFrontends_ok [of "sp_fronts parts", symmetric]
    server_Run_def start_frontends_def
  by (auto simp: Let_def split: sum.split prod.split option.split if_splits)

end
