(* ===== verification/Spec2Isabelle.thy ===== *)
theory Spec2Isabelle
  imports HttpProps Approval Jwt VarInterval KeyDb PgProps MemoryRaces Schedules Server NetipText
begin

text \<open>
  \<^bold>\<open>A verification of the BitTorrent tracker MoChi\<close>

  \<^bold>\<open>The program.\<close> A tracker answers announces and scrapes of BitTorrent clients. A frontend
  (\<open>frontend/udp\<close>, \<open>frontend/http\<close>) parses a request, sanitizes it with \<open>bittorrent\<close>, hands it to
  the logic (\<open>middleware\<close>) and writes the response. The logic runs a chain of hooks: the
  configured ones, which may refuse a request (\<open>middleware/clientapproval\<close>,
  \<open>middleware/torrentapproval\<close>, \<open>middleware/jwt\<close>) or change a response (\<open>middleware/varinterval\<close>),
  then the hook that fills the response from the storage; after the response is sent, it runs
  the hooks that update the storage with the announced peer. The storage is one of the drivers
  \<open>storage/memory\<close>, \<open>storage/redis\<close>, \<open>storage/keydb\<close> and \<open>storage/pg\<close>. \<open>cmd/mochi\<close> puts the parts
  together.

  \<^bold>\<open>Conventions.\<close> Strings and byte slices are lists of bytes. Errors are values: a client error,
  a cancellation, or another error, each with its text; \<open>err\<close> is an error or none. An operation
  that can panic returns \<open>'a go\<close>. A Go map is an association list without duplicate keys; where
  the code iterates over one, the order is an argument. Integers have the width of the code
  where it matters; durations and time stamps are integers with \<open>wrap64\<close> where they can leave
  64 bits. Clocks, random numbers, sockets, the MAC of connection IDs, the parts of the text
  library that need Unicode tables, and all third-party packages are arguments; what is assumed
  of them is a named predicate with an executable instance.

  \<^bold>\<open>Theories.\<close>

  \<^item> \<open>Prelude\<close>, \<open>Netip\<close>, \<open>GoText\<close>, \<open>NetipText\<close>, \<open>Bencode\<close>: panics, maps, big-endian words, and what the
    code uses of the packages \<open>net/netip\<close>, \<open>strings\<close>, \<open>strconv\<close>, \<open>encoding/hex\<close> and \<open>net/url\<close>;
    addresses, numbers and bencoded values survive printing and parsing.
  \<^item> \<open>Bittorrent\<close>: \<open>bittorrent/*.go\<close>. Identifiers, events, requests, responses, and what
    sanitizing accepts and changes.
  \<^item> \<open>StorageSpec\<close>: \<open>storage/storage.go\<close>. The storage interfaces as records, the registry of
    drivers, and the contracts \<open>peer_storage\<close> and \<open>data_storage\<close> that clients rely on.
  \<^item> \<open>MemoryStorage\<close>, \<open>MemoryProps\<close>: \<open>storage/memory/storage.go\<close>. Every operation of the sharded
    store implements that of an abstract registry from infohashes, roles and peers to time
    stamps; all reachable stores are well-formed and their statistics exact; the driver
    satisfies both contracts.
  \<^item> \<open>MemoryRaces\<close>: the same driver at the grain of its locks, as steps of goroutines over a heap
    of swarms. Alone, a goroutine does what the sequential model does; interleaved puts are all
    kept; the collection can lose a peer and the counters can become wrong.
  \<^item> \<open>Redis\<close>, \<open>RedisServer\<close>, \<open>RedisProps\<close>, \<open>KeyDb\<close>: \<open>storage/redis/storage.go\<close> and
    \<open>storage/keydb/storage.go\<close> over the commands they send. \<open>redis_writes\<close>, \<open>redis_reads\<close> and
    \<open>keydb_documented\<close> say what is documented of the commands; both drivers satisfy the contract.
    The collection in Redis is right without other clients and loses swarms with them.
  \<^item> \<open>Pg\<close>, \<open>PgProps\<close>: \<open>storage/pg/storage.go\<close> over the connection pool. \<open>pg_documented\<close> says what the
    documented queries do to the table of peers; over it every sequence of operations follows a
    registry with one role and one time stamp per peer.
  \<^item> \<open>Schedules\<close>: the goroutines that collect garbage and statistics, as functions of the
    sequence of ticks and of what other goroutines do.
  \<^item> \<open>Middleware\<close>, \<open>MiddlewareProps\<close>: \<open>middleware/*.go\<close>. The hooks, the chain and the logic, with
    properties that hold over any storage that satisfies the contract.
  \<^item> \<open>Approval\<close>, \<open>Jwt\<close>, \<open>VarInterval\<close>: the configurable hooks; which requests they let through and
    how they change a response.
  \<^item> \<open>Frontend\<close>, \<open>Pkg\<close>: options, the registry and closing of frontends; pseudo random numbers,
    the cached clock and the pool of packet buffers.
  \<^item> \<open>UdpConnId\<close>, \<open>UdpParser\<close>, \<open>UdpFrontend\<close>, \<open>UdpProps\<close>: \<open>frontend/udp/*.go\<close>. Connection IDs, packets
    and their encodings, the handling of a packet, the receive loop, starting and closing.
  \<^item> \<open>HttpParser\<close>, \<open>HttpWriter\<close>, \<open>HttpFrontend\<close>, \<open>HttpProps\<close>: \<open>frontend/http/*.go\<close>. Requests, bencoded
    responses, routing and the handlers.
  \<^item> \<open>Server\<close>: \<open>cmd/mochi/server.go\<close>. Starting and shutting down.
  \<^item> This theory: properties of the tracker over several requests.

  \<^bold>\<open>Interfaces.\<close> The locale \<open>peer_storage\<close> has the operations of a storage, its invariant, the
  peers it holds and the peers it can represent; the lemmas of the middleware are proved in
  it, and those of both frontends and of this theory hold for every instance of it. It is interpreted for the in-memory driver, for the Redis
  driver and for the KeyDB driver; \<open>keyed_peer_storage\<close> is the step the last two share. The
  PostgreSQL driver does not satisfy it, because its table has one role per peer and a graduation
  changes all leechers at one address and port; \<open>pg_storage_correct\<close> says what holds instead. The locale \<open>data_storage\<close> is the interface of the
  key-value operations, on which the approval containers rely.

  \<^bold>\<open>Bounds and termination.\<close> Every operation is a total function; there is no fuel. Loops over
  data are recursive in it. The receive loop, the schedules and the cached clock run over the
  list of the events they receive. Waiting that may never end, in \<open>CloseGroup\<close>, has the result
  \<open>None\<close>. In \<open>MemoryRaces\<close> a run is any sequence of steps, and goroutines that put peers are
  shown to come to their end.

  \<^bold>\<open>Not modelled.\<close> Logging (\<open>pkg/log\<close> and the marshalling of values for it) and metrics
  (\<open>pkg/metrics\<close>, \<open>prometheus.go\<close>), because no result depends on them; the decoding of
  configuration maps (\<open>pkg/conf\<close>) and of the configuration file, which a third-party package
  does, so that the models take decoded records; the command line (\<open>cmd/mochi/main.go\<close>), the test
  client and the test support; \<open>pkg/str2bytes\<close>, which is the identity on lists of bytes, with the
  aliasing that it causes; and the pool of byte buffers. The interleavings of goroutines are
  modelled for the in-memory driver, for the pool of packet buffers and for the collection in
  Redis, elsewhere each operation is one step. Two reads of a length without a lock are one step
  each, although the memory model of Go does not define them. In KeyDB
  members expire at the server; the contract is about the time before. Allocations do not fail:
  the panics of \<open>make\<close> for negative sizes are modelled, those for sizes beyond the memory are not.
  The status of an HTTP response that no handler sets, and what is sent for an unknown path, are
  those of \<open>fasthttp\<close>.
\<close>

section \<open>The tracker as a whole\<close>

subsection \<open>From one announce to the next\<close>

text \<open>
  C2: What one peer announces, another sees. Over any storage that keeps its contract, after
  the post hooks of an announce that is not a stop, a leecher that announces the same info
  hash and asks for more peers than the swarm holds gets every valid address of the first
  peer.
\<close>

theorem announce_visible:
  assumes "peer_storage st I sds lcs pok" and "I s"
    and "is_infohash (areq_InfoHash a)" and "areq_Event a \<noteq> EvStopped" and "\<not> ctx_SkipSwarmInteraction ca"
    and "areq_InfoHash b = areq_InfoHash a" and "areq_Left b \<noteq> 0" and "\<not> ctx_SkipResponseHook cb"
    and "\<forall>p \<in> set (RequestPeer_Peers (areq_RequestPeer a)). pok p"
  shows "\<exists>s'. Logic_AfterAnnounce (NewLogic ai mi st pre []) ca a ra s = Ret s' \<and> I s' \<and>
     (num_offered False (sds s') (lcs s') (areq_InfoHash a) < unat (areq_NumWant b) \<longrightarrow>
       (\<exists>rb. Logic_HandleAnnounce (NewLogic ai mi st [] post) cb b s' = Ret (Inr (cb, b, rb), s') \<and>
          valid_peers (set (RequestPeer_Peers (areq_RequestPeer a))) \<subseteq>
            set (aresp_IPv4Peers rb) \<union> set (aresp_IPv6Peers rb)))"
proof -
  let ?ih = "areq_InfoHash a" and ?P = "set (RequestPeer_Peers (areq_RequestPeer a))"
  obtain s' where s': "swarmInteraction_HandleAnnounce st ca a ra s = Ret (Inr (ca, a, ra), s')" "I s'"
    "\<forall>h. sds s' h = (if h \<in> hashes ?ih then effect_seeders a ?P (sds s h) else sds s h)"
    "\<forall>h. lcs s' h = (if h \<in> hashes ?ih then effect_leechers a ?P (lcs s h) else lcs s h)"
    using peer_storage.swarm_interaction_ok [OF assms(1-3,5,9), of ra] by blast
  have sub: "?P \<subseteq> offered False (sds s') (lcs s') ?ih"
    using s'(3,4) assms(4) by (auto simp: offered_def avail_def hashes_def effect_defs)
  have pos: "num_offered False (sds s') (lcs s') ?ih \<noteq> 0" if "p \<in> ?P" for p
    using sub that peer_storage.finite_swarm [OF assms(1) s'(2)]
    by (auto simp: num_offered_def offered_def avail_def hashes_def card_gt_0_iff)
  obtain v4 v6 where r: "response_HandleAnnounce st cb b (start_response ai mi) s' = Ret (Inr (cb, b,
      (let r = (start_response ai mi)\<lparr>aresp_Complete := of_nat (\<Sum>h \<in> hashes ?ih. card (sds s' h)),
            aresp_Incomplete := of_nat (\<Sum>h \<in> hashes ?ih. card (lcs s' h))\<rparr>
        in (if areq_NumWant b = 0 \<or> num_offered (areq_Left b = 0) (sds s') (lcs s') ?ih = 0
            then bump b r else r)\<lparr>aresp_IPv4Peers := v4, aresp_IPv6Peers := v6\<rparr>)), s')"
    "good_peers b (sds s') (lcs s') v4 v6"
    using peer_storage.response_ok [OF assms(1) s'(2), of b cb "start_response ai mi"] assms(3,6,8)
    by (auto simp: start_response_def)
  have "valid_peers ?P \<subseteq> set v4 \<union> set v6"
    if "num_offered False (sds s') (lcs s') ?ih < unat (areq_NumWant b)"
    using r(2) that sub pos assms(6,7) by (auto simp: good_peers_def Let_def valid_peers_def split: if_splits)
  then show ?thesis
    using s'(1,2) r(1)
    by (auto simp: Logic_AfterAnnounce_NewLogic Logic_HandleAnnounce_NewLogic Let_def)
qed

theorem announce_visible_witness:
  "\<exists>s'. Logic_AfterAnnounce (NewLogic 1800 900 (memory_storage 7 rev) [] []) Background example_request
      (start_response 1800 900) (NewPeerStorage 1) = Ret s' \<and> store_ok s'"
proof -
  have st: "peer_storage (memory_storage 7 rev) store_ok (\<lambda>ps. swarm_peers ps True) (\<lambda>ps. swarm_peers ps False) (\<lambda>p. True)"
    by (rule memory_peer_storage) simp
  show ?thesis
    using announce_visible [OF st example_store(1), of example_request Background example_request Background
        1800 900 "[]" "start_response 1800 900" "[]"]
    by (auto simp: example_store Background_def) (auto simp: example_request_def)
qed

text \<open>
  C3: Who stops is not handed out any more. Over any storage that keeps its contract, after
  the post hooks of a stop none of the stopped peer's addresses is in the swarm, and no later
  response to another peer contains one of them.
\<close>

theorem stop_invisible:
  assumes "peer_storage st I sds lcs pok" and "I s"
    and "is_infohash (areq_InfoHash a)" and "areq_Event a = EvStopped" and "\<not> ctx_SkipSwarmInteraction ca"
    and "areq_InfoHash b = areq_InfoHash a" and "\<not> ctx_SkipResponseHook cb"
    and "p \<in> set (RequestPeer_Peers (areq_RequestPeer a))"
    and "p \<notin> set (RequestPeer_Peers (areq_RequestPeer b))"
    and "\<forall>q \<in> set (RequestPeer_Peers (areq_RequestPeer a)). pok q"
  shows "\<exists>s' rb. Logic_AfterAnnounce (NewLogic ai mi st pre []) ca a ra s = Ret s' \<and> I s' \<and>
     p \<notin> sds s' (areq_InfoHash a) \<union> lcs s' (areq_InfoHash a) \<and>
     Logic_HandleAnnounce (NewLogic ai mi st [] post) cb b s' = Ret (Inr (cb, b, rb), s') \<and>
     p \<notin> set (aresp_IPv4Peers rb) \<union> set (aresp_IPv6Peers rb)"
proof -
  let ?ih = "areq_InfoHash a" and ?P = "set (RequestPeer_Peers (areq_RequestPeer a))"
  obtain s' where s': "swarmInteraction_HandleAnnounce st ca a ra s = Ret (Inr (ca, a, ra), s')" "I s'"
    "\<forall>h. sds s' h = (if h \<in> hashes ?ih then effect_seeders a ?P (sds s h) else sds s h)"
    "\<forall>h. lcs s' h = (if h \<in> hashes ?ih then effect_leechers a ?P (lcs s h) else lcs s h)"
    using peer_storage.swarm_interaction_ok [OF assms(1-3,5,10), of ra] by blast
  have no: "p \<notin> offered sd (sds s') (lcs s') ?ih" for sd
    using s'(3,4) assms(4,8) by (auto simp: offered_def avail_def effect_defs)
  have gone: "p \<notin> sds s' ?ih \<union> lcs s' ?ih"
    using s'(3,4) assms(4,8) by (auto simp: hashes_def effect_defs)
  obtain v4 v6 where r: "response_HandleAnnounce st cb b (start_response ai mi) s' = Ret (Inr (cb, b,
      (let r = (start_response ai mi)\<lparr>aresp_Complete := of_nat (\<Sum>h \<in> hashes ?ih. card (sds s' h)),
            aresp_Incomplete := of_nat (\<Sum>h \<in> hashes ?ih. card (lcs s' h))\<rparr>
        in (if areq_NumWant b = 0 \<or> num_offered (areq_Left b = 0) (sds s') (lcs s') ?ih = 0
            then bump b r else r)\<lparr>aresp_IPv4Peers := v4, aresp_IPv6Peers := v6\<rparr>)), s')"
    "good_peers b (sds s') (lcs s') v4 v6"
    using peer_storage.response_ok [OF assms(1) s'(2), of b cb "start_response ai mi"] assms(3,6,7)
    by (auto simp: start_response_def)
  have "p \<notin> set v4 \<union> set v6"
    using r(2) no assms(6,9) by (auto simp: good_peers_def Let_def valid_peers_def split: if_splits)
  then show ?thesis
    using s'(1,2) r(1) gone
    by (auto simp: Logic_AfterAnnounce_NewLogic Logic_HandleAnnounce_NewLogic Let_def)
qed

theorem stop_invisible_witness:
  "\<exists>s'. Logic_AfterAnnounce (NewLogic 1800 900 (memory_storage 7 rev) [] []) Background
      (example_request\<lparr>areq_Event := EvStopped\<rparr>) (start_response 1800 900) (NewPeerStorage 1) = Ret s' \<and>
     example_peer \<notin> swarm_peers s' False example_ih"
proof -
  have st: "peer_storage (memory_storage 7 rev) store_ok (\<lambda>ps. swarm_peers ps True) (\<lambda>ps. swarm_peers ps False) (\<lambda>p. True)"
    by (rule memory_peer_storage) simp
  let ?a = "example_request\<lparr>areq_Event := EvStopped\<rparr>"
  let ?b = "example_request\<lparr>areq_RequestPeer := \<lparr>rp_ID = [], rp_Port = 1, rp_RequestAddresses = []\<rparr>\<rparr>"
  have b: "RequestPeer_Peers (areq_RequestPeer ?b) = []" by (simp add: RequestPeer_Peers_def)
  show ?thesis
    using stop_invisible [OF st example_store(1), of ?a Background ?b Background example_peer
        1800 900 "[]" "start_response 1800 900" "[]"] b
    by (auto simp: example_store Background_def)
qed

end
